(* ===== verification/Go_Prelude.thy ===== *)
theory Go_Prelude
  imports Main
begin

text \<open>
  The part of the Go language every component uses, independent of the program: the
  outcome of a Go call (a value, an error value, or a run-time panic), the state-passing
  computations the methods of winc are modelled as, and two ways to talk about what such a
  computation leaves alone (\<open>frame\<close>) or keeps true (\<open>preserves\<close>), with one rule per
  combinator so that the component proofs are a single call of the automation.

  A Go function \<open>f(args) (T, error)\<close> is a function into \<open>('w, 'e, 'a) go\<close>: it takes the
  world it runs in and returns the outcome together with the world it leaves behind.
  \<open>Err e\<close> is a returned non-nil error, \<open>Panic s\<close> is a run-time panic, which skips every
  statement that follows except deferred ones.
\<close>

section \<open>Outcomes and computations\<close>

datatype ('e, 'a) outcome = Ok 'a | Err 'e | Panic string

type_synonym ('w, 'e, 'a) go = "'w \<Rightarrow> ('e, 'a) outcome \<times> 'w"

named_theorems go_defs \<open>unfolding the combinators at an applied state\<close>
named_theorems frame_intros \<open>what a computation leaves unchanged\<close>
named_theorems safe_intros \<open>computations that do not panic\<close>
named_theorems preserves_intros \<open>what a computation keeps true\<close>

definition ret :: "'a \<Rightarrow> ('w, 'e, 'a) go" where
  "ret x = (\<lambda>w. (Ok x, w))"

definition throw :: "'e \<Rightarrow> ('w, 'e, 'a) go" where
  "throw e = (\<lambda>w. (Err e, w))"

definition crash :: "string \<Rightarrow> ('w, 'e, 'a) go" where
  "crash msg = (\<lambda>w. (Panic msg, w))"

text \<open>\<open>x, err := m(); if err != nil { return err }; f(x)\<close>\<close>

definition bind :: "('w, 'e, 'a) go \<Rightarrow> ('a \<Rightarrow> ('w, 'e, 'b) go) \<Rightarrow> ('w, 'e, 'b) go" where
  "bind m f = (\<lambda>w. case m w of
       (Ok x, w') \<Rightarrow> f x w'
     | (Err e, w') \<Rightarrow> (Err e, w')
     | (Panic s, w') \<Rightarrow> (Panic s, w'))"

text \<open>\<open>x, err := m()\<close> where the code goes on to look at \<open>err\<close> itself.\<close>

definition attempt :: "('w, 'e, 'a) go \<Rightarrow> ('w, 'e, 'e + 'a) go" where
  "attempt m = (\<lambda>w. case m w of
       (Ok x, w') \<Rightarrow> (Ok (Inr x), w')
     | (Err e, w') \<Rightarrow> (Ok (Inl e), w')
     | (Panic s, w') \<Rightarrow> (Panic s, w'))"

text \<open>A call whose error result is dropped.\<close>

definition ignore :: "('w, 'e, 'a) go \<Rightarrow> ('w, 'e, unit) go" where
  "ignore m = (\<lambda>w. case m w of
       (Panic s, w') \<Rightarrow> (Panic s, w')
     | (_, w') \<Rightarrow> (Ok (), w'))"

text \<open>
  \<open>defer d()\<close> around the rest of a function body: \<open>d\<close> runs whether the body returns,
  returns an error or panics, and its own result is dropped.
\<close>

definition deferring :: "('w, 'e, 'b) go \<Rightarrow> ('w, 'e, 'a) go \<Rightarrow> ('w, 'e, 'a) go" where
  "deferring d m = (\<lambda>w. case m w of (r, w') \<Rightarrow> (case d w' of
       (Panic s, w'') \<Rightarrow> (Panic s, w'')
     | (_, w'') \<Rightarrow> (r, w'')))"

definition lift_sum :: "'e + 'a \<Rightarrow> ('w, 'e, 'a) go" where
  "lift_sum r = (case r of Inl e \<Rightarrow> throw e | Inr x \<Rightarrow> ret x)"

text \<open>\<open>for _, x := range xs { ... return err ... }\<close> collecting one result per element.\<close>

fun mapM :: "('a \<Rightarrow> ('w, 'e, 'b) go) \<Rightarrow> 'a list \<Rightarrow> ('w, 'e, 'b list) go" where
  "mapM f [] = ret []"
| "mapM f (x # xs) = bind (f x) (\<lambda>y. bind (mapM f xs) (\<lambda>ys. ret (y # ys)))"

fun forM :: "('a \<Rightarrow> ('w, 'e, unit) go) \<Rightarrow> 'a list \<Rightarrow> ('w, 'e, unit) go" where
  "forM f [] = ret ()"
| "forM f (x # xs) = bind (f x) (\<lambda>_. forM f xs)"

lemmas combinator_defs [go_defs] =
  ret_def throw_def crash_def bind_def attempt_def ignore_def deferring_def lift_sum_def

section \<open>Laws of the combinators\<close>

lemma bind_ret [simp]: "bind (ret x) f = f x"
  by (simp add: bind_def ret_def)

lemma bind_throw [simp]: "bind (throw e) f = throw e"
  by (simp add: bind_def throw_def)

lemma bind_crash [simp]: "bind (crash s) f = crash s"
  by (simp add: bind_def crash_def)

lemma bind_ret_right [simp]: "bind m ret = m"
  by (rule ext) (auto simp: bind_def ret_def split: prod.split outcome.split)

lemma bind_assoc: "bind (bind m f) g = bind m (\<lambda>x. bind (f x) g)"
  by (rule ext) (auto simp: bind_def split: prod.split outcome.split)

lemma attempt_ret [simp]: "attempt (ret x) = ret (Inr x)"
  by (simp add: attempt_def ret_def)

lemma attempt_throw [simp]: "attempt (throw e) = ret (Inl e)"
  by (simp add: attempt_def throw_def ret_def)

lemma attempt_crash [simp]: "attempt (crash s) = crash s"
  by (simp add: attempt_def crash_def)

lemma bind_cong [fundef_cong]:
  assumes "m = m'" and "\<And>x w w'. m' w = (Ok x, w') \<Longrightarrow> f x w' = g x w'"
  shows "bind m f = bind m' g"
  using assms by (auto simp: bind_def split: prod.split outcome.split)

lemma lift_sum_simps [simp]: "lift_sum (Inl e) = throw e" "lift_sum (Inr x) = ret x"
  by (simp_all add: lift_sum_def)

text \<open>Running a combinator, one equation per outcome of the first computation.\<close>

lemma ret_apply [simp]: "ret x w = (Ok x, w)"
  by (simp add: ret_def)

lemma throw_apply [simp]: "throw e w = (Err e, w)"
  by (simp add: throw_def)

lemma crash_apply [simp]: "crash s w = (Panic s, w)"
  by (simp add: crash_def)

lemma bind_Ok: "m w = (Ok x, w') \<Longrightarrow> bind m f w = f x w'"
  by (simp add: bind_def)

lemma bind_Err: "m w = (Err e, w') \<Longrightarrow> bind m f w = (Err e, w')"
  by (simp add: bind_def)

lemma bind_Panic: "m w = (Panic s, w') \<Longrightarrow> bind m f w = (Panic s, w')"
  by (simp add: bind_def)

lemma attempt_Ok: "m w = (Ok x, w') \<Longrightarrow> attempt m w = (Ok (Inr x), w')"
  by (simp add: attempt_def)

lemma attempt_Err: "m w = (Err e, w') \<Longrightarrow> attempt m w = (Ok (Inl e), w')"
  by (simp add: attempt_def)

lemma attempt_Panic: "m w = (Panic s, w') \<Longrightarrow> attempt m w = (Panic s, w')"
  by (simp add: attempt_def)

lemmas run_simps = bind_Ok bind_Err bind_Panic attempt_Ok attempt_Err attempt_Panic

text \<open>Inversion: what the parts did when a sequence succeeded.\<close>

lemma bind_OkE:
  assumes "bind m f w = (Ok y, w')"
  obtains x w1 where "m w = (Ok x, w1)" "f x w1 = (Ok y, w')"
  using assms by (auto simp: bind_def split: prod.splits outcome.splits)

lemma attempt_OkE:
  assumes "attempt m w = (Ok y, w')"
  obtains x where "m w = (Ok x, w')" "y = Inr x" | e where "m w = (Err e, w')" "y = Inl e"
  using assms by (auto simp: attempt_def split: prod.splits outcome.splits)

lemma bind_cases:
  assumes "bind m f w = (r, w')"
  obtains (Ok) x w1 where "m w = (Ok x, w1)" "f x w1 = (r, w')"
  | (Err) e where "m w = (Err e, w')" "r = Err e"
  | (Panic) s where "m w = (Panic s, w')" "r = Panic s"
  using assms by (auto simp: bind_def split: prod.splits outcome.splits)

lemma lift_sum_OkE:
  assumes "lift_sum r w = (Ok x, w')"
  obtains "r = Inr x" "w' = w"
  using assms by (cases r) auto

lemma deferring_cases:
  assumes "deferring d m w = (r, w')"
  obtains (Done) w1 q where "m w = (r, w1)" "d w1 = (q, w')"
  | (Panic) r1 w1 s where "m w = (r1, w1)" "d w1 = (Panic s, w')" "r = Panic s"
  using assms by (auto simp: deferring_def split: prod.splits outcome.splits)

lemma deferring_OkE:
  assumes "deferring d m w = (Ok x, w')"
  obtains w1 q where "m w = (Ok x, w1)" "d w1 = (q, w')"
  using assms by (cases rule: deferring_cases) auto

lemmas ok_elims = bind_OkE attempt_OkE lift_sum_OkE deferring_OkE

section \<open>What a computation leaves unchanged\<close>

definition frame :: "('w \<Rightarrow> 'v) \<Rightarrow> ('w, 'e, 'a) go \<Rightarrow> bool" where
  "frame f m \<longleftrightarrow> (\<forall>w r w'. m w = (r, w') \<longrightarrow> f w' = f w)"

lemma frameI: "(\<And>w r w'. m w = (r, w') \<Longrightarrow> f w' = f w) \<Longrightarrow> frame f m"
  by (simp add: frame_def)

lemma frameD: "frame f m \<Longrightarrow> m w = (r, w') \<Longrightarrow> f w' = f w"
  by (simp add: frame_def)

lemma frame_snd: "frame f m \<Longrightarrow> f (snd (m w)) = f w"
  by (metis frame_def prod.collapse)

lemma frame_ret [frame_intros]: "frame f (ret x)"
  by (simp add: frame_def)

lemma frame_throw [frame_intros]: "frame f (throw e)"
  by (simp add: frame_def)

lemma frame_crash [frame_intros]: "frame f (crash s)"
  by (simp add: frame_def)

lemma frame_bind [frame_intros]:
  "frame f m \<Longrightarrow> (\<And>x. frame f (g x)) \<Longrightarrow> frame f (bind m g)"
  by (rule frameI, erule bind_cases) (auto simp: frame_def)

lemma frame_attempt [frame_intros]: "frame f m \<Longrightarrow> frame f (attempt m)"
  by (rule frameI) (auto simp: attempt_def dest: frameD split: prod.splits outcome.splits)

lemma frame_ignore [frame_intros]: "frame f m \<Longrightarrow> frame f (ignore m)"
  by (rule frameI) (auto simp: ignore_def dest: frameD split: prod.splits outcome.splits)

lemma frame_deferring [frame_intros]: "frame f d \<Longrightarrow> frame f m \<Longrightarrow> frame f (deferring d m)"
  by (rule frameI) (auto simp: deferring_def dest!: frameD split: prod.splits outcome.splits)

lemma frame_lift_sum [frame_intros]: "frame f (lift_sum r)"
  by (cases r) (simp_all add: frame_intros)

lemma frame_mapM [frame_intros]: "(\<And>x. frame f (g x)) \<Longrightarrow> frame f (mapM g xs)"
  by (induction xs) (auto intro!: frame_intros)

lemma frame_forM [frame_intros]: "(\<And>x. frame f (g x)) \<Longrightarrow> frame f (forM g xs)"
  by (induction xs) (auto intro!: frame_intros)

lemma frame_if [frame_intros]:
  "(b \<Longrightarrow> frame f m) \<Longrightarrow> (\<not> b \<Longrightarrow> frame f n) \<Longrightarrow> frame f (if b then m else n)"
  by simp

lemma frame_case_sum [frame_intros]:
  "(\<And>x. frame f (g x)) \<Longrightarrow> (\<And>y. frame f (h y)) \<Longrightarrow>
   frame f (case r of Inl x \<Rightarrow> g x | Inr y \<Rightarrow> h y)"
  by (cases r) auto

lemma frame_case_option [frame_intros]:
  "frame f g \<Longrightarrow> (\<And>y. frame f (h y)) \<Longrightarrow> frame f (case r of None \<Rightarrow> g | Some y \<Rightarrow> h y)"
  by (cases r) auto

lemma frame_case_prod [frame_intros]:
  "(\<And>x y. frame f (g x y)) \<Longrightarrow> frame f (case p of (x, y) \<Rightarrow> g x y)"
  by (cases p) auto

lemma frame_case_list [frame_intros]:
  "frame f g \<Longrightarrow> (\<And>y ys. frame f (h y ys)) \<Longrightarrow> frame f (case xs of [] \<Rightarrow> g | y # ys \<Rightarrow> h y ys)"
  by (cases xs) auto

lemma frame_Let [frame_intros]: "frame f (g x) \<Longrightarrow> frame f (let y = x in g y)"
  by simp

section \<open>What a computation keeps true\<close>

definition preserves :: "('w \<Rightarrow> bool) \<Rightarrow> ('w, 'e, 'a) go \<Rightarrow> bool" where
  "preserves P m \<longleftrightarrow> (\<forall>w r w'. P w \<longrightarrow> m w = (r, w') \<longrightarrow> P w')"

lemma preservesI: "(\<And>w r w'. P w \<Longrightarrow> m w = (r, w') \<Longrightarrow> P w') \<Longrightarrow> preserves P m"
  by (auto simp: preserves_def)

lemma preservesD: "preserves P m \<Longrightarrow> P w \<Longrightarrow> m w = (r, w') \<Longrightarrow> P w'"
  by (simp add: preserves_def)

lemma preserves_frame: "frame f m \<Longrightarrow> preserves (\<lambda>w. P (f w)) m"
  by (simp add: frame_def preserves_def)

lemma preserves_ret [preserves_intros]: "preserves P (ret x)"
  by (simp add: preserves_def)

lemma preserves_throw [preserves_intros]: "preserves P (throw e)"
  by (simp add: preserves_def)

lemma preserves_crash [preserves_intros]: "preserves P (crash s)"
  by (simp add: preserves_def)

lemma preserves_bind [preserves_intros]:
  "preserves P m \<Longrightarrow> (\<And>x. preserves P (g x)) \<Longrightarrow> preserves P (bind m g)"
  unfolding preserves_def by (blast elim: bind_cases)

lemma preserves_attempt [preserves_intros]: "preserves P m \<Longrightarrow> preserves P (attempt m)"
  by (rule preservesI) (auto simp: attempt_def dest: preservesD split: prod.splits outcome.splits)

lemma preserves_ignore [preserves_intros]: "preserves P m \<Longrightarrow> preserves P (ignore m)"
  by (rule preservesI) (auto simp: ignore_def dest: preservesD split: prod.splits outcome.splits)

lemma preserves_deferring [preserves_intros]:
  "preserves P d \<Longrightarrow> preserves P m \<Longrightarrow> preserves P (deferring d m)"
  by (rule preservesI) (auto simp: deferring_def dest: preservesD split: prod.splits outcome.splits)

lemma preserves_lift_sum [preserves_intros]: "preserves P (lift_sum r)"
  by (cases r) (simp_all add: preserves_intros)

lemma preserves_mapM [preserves_intros]: "(\<And>x. preserves P (g x)) \<Longrightarrow> preserves P (mapM g xs)"
  by (induction xs) (auto intro!: preserves_intros)

lemma preserves_forM [preserves_intros]: "(\<And>x. preserves P (g x)) \<Longrightarrow> preserves P (forM g xs)"
  by (induction xs) (auto intro!: preserves_intros)

lemma preserves_if [preserves_intros]:
  "(b \<Longrightarrow> preserves P m) \<Longrightarrow> (\<not> b \<Longrightarrow> preserves P n) \<Longrightarrow> preserves P (if b then m else n)"
  by simp

lemma preserves_case_sum [preserves_intros]:
  "(\<And>x. preserves P (g x)) \<Longrightarrow> (\<And>y. preserves P (h y)) \<Longrightarrow>
   preserves P (case r of Inl x \<Rightarrow> g x | Inr y \<Rightarrow> h y)"
  by (cases r) auto

lemma preserves_case_option [preserves_intros]:
  "preserves P g \<Longrightarrow> (\<And>y. preserves P (h y)) \<Longrightarrow>
   preserves P (case r of None \<Rightarrow> g | Some y \<Rightarrow> h y)"
  by (cases r) auto

lemma preserves_case_prod [preserves_intros]:
  "(\<And>x y. preserves P (g x y)) \<Longrightarrow> preserves P (case p of (x, y) \<Rightarrow> g x y)"
  by (cases p) auto

lemma preserves_Let [preserves_intros]: "preserves P (g x) \<Longrightarrow> preserves P (let y = x in g y)"
  by simp

section \<open>Computations that do not panic\<close>

definition no_panic :: "('w, 'e, 'a) go \<Rightarrow> bool" where
  "no_panic m \<longleftrightarrow> (\<forall>w s w'. m w \<noteq> (Panic s, w'))"

lemma no_panicD: "no_panic m \<Longrightarrow> m w = (Panic s, w') \<Longrightarrow> False"
  by (auto simp: no_panic_def)

lemma no_panic_ret [safe_intros]: "no_panic (ret x)"
  by (simp add: no_panic_def)

lemma no_panic_throw [safe_intros]: "no_panic (throw e)"
  by (simp add: no_panic_def)

lemma no_panic_bind [safe_intros]: "no_panic m \<Longrightarrow> (\<And>x. no_panic (g x)) \<Longrightarrow> no_panic (bind m g)"
  unfolding no_panic_def by (blast elim: bind_cases)

lemma no_panic_attempt [safe_intros]: "no_panic m \<Longrightarrow> no_panic (attempt m)"
  by (auto simp: no_panic_def attempt_def split: prod.splits outcome.splits)

lemma no_panic_ignore [safe_intros]: "no_panic m \<Longrightarrow> no_panic (ignore m)"
  by (auto simp: no_panic_def ignore_def split: prod.splits outcome.splits)

lemma no_panic_deferring [safe_intros]: "no_panic d \<Longrightarrow> no_panic m \<Longrightarrow> no_panic (deferring d m)"
  by (auto simp: no_panic_def deferring_def split: prod.splits outcome.splits)

lemma no_panic_lift_sum [safe_intros]: "no_panic (lift_sum r)"
  by (cases r) (simp_all add: safe_intros)

lemma no_panic_mapM [safe_intros]: "(\<And>x. x \<in> set xs \<Longrightarrow> no_panic (g x)) \<Longrightarrow> no_panic (mapM g xs)"
  by (induction xs) (auto intro!: safe_intros)

lemma no_panic_forM [safe_intros]: "(\<And>x. x \<in> set xs \<Longrightarrow> no_panic (g x)) \<Longrightarrow> no_panic (forM g xs)"
  by (induction xs) (auto intro!: safe_intros)

lemma no_panic_if [safe_intros]:
  "(b \<Longrightarrow> no_panic m) \<Longrightarrow> (\<not> b \<Longrightarrow> no_panic n) \<Longrightarrow> no_panic (if b then m else n)"
  by simp

lemma no_panic_case_sum [safe_intros]:
  "(\<And>x. no_panic (g x)) \<Longrightarrow> (\<And>y. no_panic (h y)) \<Longrightarrow>
   no_panic (case r of Inl x \<Rightarrow> g x | Inr y \<Rightarrow> h y)"
  by (cases r) auto

lemma no_panic_case_option [safe_intros]:
  "no_panic g \<Longrightarrow> (\<And>y. no_panic (h y)) \<Longrightarrow> no_panic (case r of None \<Rightarrow> g | Some y \<Rightarrow> h y)"
  by (cases r) auto

lemma no_panic_case_prod [safe_intros]:
  "(\<And>x y. no_panic (g x y)) \<Longrightarrow> no_panic (case p of (x, y) \<Rightarrow> g x y)"
  by (cases p) auto

lemma no_panic_case_list [safe_intros]:
  "no_panic g \<Longrightarrow> (\<And>y ys. no_panic (h y ys)) \<Longrightarrow> no_panic (case xs of [] \<Rightarrow> g | y # ys \<Rightarrow> h y ys)"
  by (cases xs) auto

lemma no_panic_Let [safe_intros]: "no_panic (g x) \<Longrightarrow> no_panic (let y = x in g y)"
  by simp

section \<open>Runs of a labelled step relation\<close>

inductive runs :: "('l \<Rightarrow> 's \<Rightarrow> 's \<Rightarrow> bool) \<Rightarrow> 'l list \<Rightarrow> 's \<Rightarrow> 's \<Rightarrow> bool" for step where
  "runs step [] s s"
| "step l s s1 \<Longrightarrow> runs step ls s1 s2 \<Longrightarrow> runs step (l # ls) s s2"

inductive_simps runs_Nil [simp]: "runs step [] s s'"
inductive_simps runs_Cons: "runs step (l # ls) s s'"

lemma runs_append: "runs step (ks @ ls) s s' \<longleftrightarrow> (\<exists>t. runs step ks s t \<and> runs step ls t s')"
  by (induction ks arbitrary: s) (auto simp: runs_Cons)

end
