(* ===== verification/Go_Strings.thy ===== *)
theory Go_Strings
  imports Main "HOL-Library.Word"
begin

text \<open>
  The functions of Go's \<open>strings\<close>, \<open>strconv\<close> and \<open>fmt\<close> packages that winc calls, as
  computable functions on \<open>string\<close> (a list of bytes, as a Go string is), and the round
  trips between them: \<open>Join\<close> after \<open>Split\<close>, \<open>Atoi\<close> after \<open>Itoa\<close>.
\<close>

section \<open>strings.Split, strings.SplitN, strings.Join\<close>

text \<open>\<open>strings.Split(s, sep)\<close> for a separator of one byte: never the empty list.\<close>

fun split_on :: "char \<Rightarrow> string \<Rightarrow> string list" where
  "split_on c [] = [[]]"
| "split_on c (x # xs) =
     (if x = c then [] # split_on c xs
      else (case split_on c xs of [] \<Rightarrow> [[x]] | p # ps \<Rightarrow> (x # p) # ps))"

text \<open>\<open>strings.SplitN(s, sep, 2)\<close>: at most one cut, at the first separator.\<close>

definition split_first :: "char \<Rightarrow> string \<Rightarrow> string list" where
  "split_first c s =
     (case dropWhile (\<lambda>x. x \<noteq> c) s of
        [] \<Rightarrow> [s]
      | _ # rest \<Rightarrow> [takeWhile (\<lambda>x. x \<noteq> c) s, rest])"

fun join :: "string \<Rightarrow> string list \<Rightarrow> string" where
  "join sep [] = []"
| "join sep [x] = x"
| "join sep (x # y # zs) = x @ sep @ join sep (y # zs)"

definition has_suffix :: "string \<Rightarrow> string \<Rightarrow> bool" where
  "has_suffix s suf \<longleftrightarrow> length suf \<le> length s \<and> drop (length s - length suf) s = suf"

definition contains_any :: "string \<Rightarrow> string \<Rightarrow> bool" where
  "contains_any s cs \<longleftrightarrow> list_ex (\<lambda>x. x \<in> set cs) s"

lemma split_on_nonempty [simp]: "split_on c s \<noteq> []"
  by (cases s) (auto split: list.splits)

lemma split_on_Cons:
  "split_on c (x # xs) =
     (if x = c then [] # split_on c xs else (x # hd (split_on c xs)) # tl (split_on c xs))"
  using split_on_nonempty [of c xs] by (cases "split_on c xs") auto

declare split_on.simps(2) [simp del]
declare split_on_Cons [simp]

lemma join_Cons: "xs \<noteq> [] \<Longrightarrow> join sep (x # xs) = x @ sep @ join sep xs"
  by (cases xs) auto

lemma join_Cons_head: "xs \<noteq> [] \<Longrightarrow> join sep ((c # hd xs) # tl xs) = c # join sep xs"
  by (cases xs; cases "tl xs") auto

lemma join_split_on: "join [c] (split_on c s) = s"
proof (induction s)
  case (Cons x xs)
  show ?case
  proof (cases "x = c")
    case True
    then show ?thesis using Cons by (simp add: join_Cons)
  next
    case False
    then show ?thesis using Cons by (simp add: join_Cons_head)
  qed
qed simp

lemma split_on_no_sep: "c \<notin> set p \<Longrightarrow> split_on c p = [p]"
  by (induction p) auto

lemma split_on_append: "c \<notin> set p \<Longrightarrow> split_on c (p @ c # s) = p # split_on c s"
  by (induction p) auto

lemma split_on_join:
  "xs \<noteq> [] \<Longrightarrow> \<forall>x \<in> set xs. c \<notin> set x \<Longrightarrow> split_on c (join [c] xs) = xs"
proof (induction xs)
  case (Cons x xs)
  then show ?case
    by (cases xs) (simp_all add: split_on_no_sep split_on_append)
qed simp

lemma length_split_on: "length (split_on c s) = Suc (length (filter (\<lambda>x. x = c) s))"
  by (induction s) auto

lemma set_split_on_pieces: "p \<in> set (split_on c s) \<Longrightarrow> c \<notin> set p"
proof (induction s arbitrary: p)
  case (Cons x xs)
  have h: "c \<notin> set (hd (split_on c xs))" and t: "p \<in> set (tl (split_on c xs)) \<Longrightarrow> c \<notin> set p"
    using Cons.IH by (auto dest: list.set_sel(2) [rotated])
  show ?case
    using Cons.prems h t Cons.IH by (auto split: if_splits)
qed simp

text \<open>
  \<open>split_first\<close> cuts where \<open>split_on\<close> makes its first cut; the remainder is the joined
  tail, which is how two pieces of winc parse the same \<open>key=value\<close> string.
\<close>

lemma split_first_split_on:
  "split_first c s =
     (case split_on c s of
        [p] \<Rightarrow> [p]
      | p # ps \<Rightarrow> [p, join [c] ps]
      | [] \<Rightarrow> [])"
proof (cases "c \<in> set s")
  case False
  then show ?thesis
    by (simp add: split_first_def split_on_no_sep) (metis (mono_tags, lifting) dropWhile_eq_Nil_conv list.simps(4))
next
  case True
  then obtain p q where s: "s = p @ c # q" and p: "c \<notin> set p"
    by (auto dest: split_list_first)
  have "split_first c s = [p, q]"
    using p unfolding s split_first_def
    by (subst dropWhile_append2, force) (subst takeWhile_append2, force, simp)
  moreover have "split_on c s = p # split_on c q"
    using p by (simp add: s split_on_append)
  ultimately show ?thesis
    using join_split_on [of c q] by (auto split: list.split)
qed

section \<open>strconv.Itoa, strconv.FormatUint, strconv.Atoi\<close>

definition digit_char :: "nat \<Rightarrow> char" where
  "digit_char d = char_of (48 + d)"

definition is_digit :: "char \<Rightarrow> bool" where
  "is_digit c \<longleftrightarrow> 48 \<le> (of_char c :: nat) \<and> (of_char c :: nat) \<le> 57"

definition digit_val :: "char \<Rightarrow> nat" where
  "digit_val c = of_char c - 48"

fun dec :: "nat \<Rightarrow> string" where
  "dec n = (if n < 10 then [digit_char n] else dec (n div 10) @ [digit_char (n mod 10)])"

declare dec.simps [simp del]

definition undec :: "string \<Rightarrow> nat" where
  "undec s = foldl (\<lambda>a c. 10 * a + digit_val c) 0 s"

definition itoa :: "int \<Rightarrow> string" where
  "itoa i = (if i < 0 then CHR ''-'' # dec (nat (- i)) else dec (nat i))"

text \<open>
  \<open>strconv.Atoi\<close>: an optional sign, then one or more decimal digits, in the range of a
  64-bit \<open>int\<close>. The error is the text of the \<open>NumError\<close>; \<open>quote\<close> (below) prints its
  input.
\<close>

definition all_digits :: "string \<Rightarrow> bool" where
  "all_digits s \<longleftrightarrow> s \<noteq> [] \<and> list_all is_digit s"

text \<open>\<open>strconv.Quote\<close>, the verb \<open>%q\<close>, for ASCII text (bytes above 127 are kept).\<close>

definition hex_char :: "nat \<Rightarrow> char" where
  "hex_char d = (if d < 10 then char_of (48 + d) else char_of (87 + d))"

definition quote_char :: "char \<Rightarrow> string" where
  "quote_char c = (let n = (of_char c :: nat) in
     if n = 34 then [CHR 0x5C, CHR 0x22]
     else if n = 92 then [CHR 0x5C, CHR 0x5C]
     else if n = 7 then [CHR 0x5C, CHR ''a'']
     else if n = 8 then [CHR 0x5C, CHR ''b'']
     else if n = 12 then [CHR 0x5C, CHR ''f'']
     else if n = 10 then [CHR 0x5C, CHR ''n'']
     else if n = 13 then [CHR 0x5C, CHR ''r'']
     else if n = 9 then [CHR 0x5C, CHR ''t'']
     else if n = 11 then [CHR 0x5C, CHR ''v'']
     else if n < 32 \<or> n = 127 then [CHR 0x5C, CHR ''x'', hex_char (n div 16), hex_char (n mod 16)]
     else [c])"

definition quote :: "string \<Rightarrow> string" where
  "quote s = CHR 0x22 # concat (map quote_char s) @ [CHR 0x22]"

definition atoi :: "string \<Rightarrow> string + int" where
  "atoi s =
     (let syntax = Inl (''strconv.Atoi: parsing '' @ quote s @ '': invalid syntax'');
          range = Inl (''strconv.Atoi: parsing '' @ quote s @ '': value out of range'');
          neg = (s \<noteq> [] \<and> hd s = CHR ''-'');
          ds = (if s \<noteq> [] \<and> (hd s = CHR ''-'' \<or> hd s = CHR ''+'') then tl s else s)
      in if \<not> all_digits ds then syntax
         else if neg \<and> int (undec ds) > 2 ^ 63 then range
         else if \<not> neg \<and> int (undec ds) \<ge> 2 ^ 63 then range
         else Inr (if neg then - int (undec ds) else int (undec ds)))"

text \<open>The digits, spelled out, so that closed numbers print by rewriting.\<close>

lemma digit_char_simps:
  "digit_char 0 = CHR ''0''" "digit_char 1 = CHR ''1''" "digit_char (Suc 0) = CHR ''1''"
  "digit_char 2 = CHR ''2''" "digit_char 3 = CHR ''3''" "digit_char 4 = CHR ''4''"
  "digit_char 5 = CHR ''5''" "digit_char 6 = CHR ''6''" "digit_char 7 = CHR ''7''"
  "digit_char 8 = CHR ''8''" "digit_char 9 = CHR ''9''"
  by code_simp+

lemma of_char_digit_char: "d < 10 \<Longrightarrow> of_char (digit_char d) = 48 + d"
  by (simp add: digit_char_def)

lemma is_digit_digit_char: "d < 10 \<Longrightarrow> is_digit (digit_char d)"
  by (simp add: is_digit_def of_char_digit_char)

lemma digit_val_digit_char: "d < 10 \<Longrightarrow> digit_val (digit_char d) = d"
  by (simp add: digit_val_def of_char_digit_char)

lemma dec_nonempty [simp]: "dec n \<noteq> []"
  by (subst dec.simps) simp

lemma dec_digits: "list_all is_digit (dec n)"
proof (induction n rule: dec.induct)
  case (1 n)
  then show ?case
    by (subst dec.simps) (auto simp: is_digit_digit_char)
qed

lemma all_digits_dec [simp]: "all_digits (dec n)"
  by (simp add: all_digits_def dec_digits)

lemma undec_append: "undec (s @ [c]) = 10 * undec s + digit_val c"
  by (simp add: undec_def)

lemma undec_dec [simp]: "undec (dec n) = n"
proof (induction n rule: dec.induct)
  case (1 n)
  show ?case
  proof (cases "n < 10")
    case True
    then show ?thesis
      by (subst dec.simps) (simp add: undec_def digit_val_digit_char)
  next
    case False
    then have "undec (dec n) = 10 * undec (dec (n div 10)) + n mod 10"
      by (subst dec.simps) (simp add: undec_append digit_val_digit_char)
    also have "\<dots> = 10 * (n div 10) + n mod 10"
      using 1 [OF False] by (simp only:)
    also have "\<dots> = n"
      by simp
    finally show ?thesis .
  qed
qed

lemma dec_inj: "dec m = dec n \<Longrightarrow> m = n"
  by (metis undec_dec)

lemma digit_not_sign: "is_digit c \<Longrightarrow> c \<noteq> CHR ''-'' \<and> c \<noteq> CHR ''+''"
  by (auto simp: is_digit_def)

lemma hd_dec_digit: "is_digit (hd (dec n))"
  using dec_digits [of n] by (cases "dec n") auto

lemma char_in_dec: "c \<in> set (dec n) \<Longrightarrow> is_digit c"
  using dec_digits [of n] by (simp add: list_all_iff)

lemma sep_notin_dec: "\<not> is_digit c \<Longrightarrow> c \<notin> set (dec n)"
  using char_in_dec by blast

lemma dec_no_leading_zero: "1 < length (dec n) \<Longrightarrow> hd (dec n) \<noteq> CHR ''0''"
proof (induction n rule: dec.induct)
  case (1 n)
  show ?case
  proof (cases "n < 10")
    case True
    with "1.prems" show ?thesis by (subst (asm) dec.simps) simp
  next
    case False
    have step: "dec n = dec (n div 10) @ [digit_char (n mod 10)]"
      using False by (subst dec.simps) simp
    show ?thesis
    proof (cases "n div 10 < 10")
      case True
      then have "hd (dec n) = digit_char (n div 10)"
        unfolding step by (subst dec.simps) simp
      moreover have "digit_char (n div 10) \<noteq> digit_char 0"
        using True False digit_val_digit_char [of 0] digit_val_digit_char [of "n div 10"] by auto
      ultimately show ?thesis by (simp add: digit_char_simps)
    next
      case big: False
      have "dec (n div 10) = dec (n div 10 div 10) @ [digit_char (n div 10 mod 10)]"
        using big by (subst dec.simps) simp
      then have "1 < length (dec (n div 10))"
        by (cases "dec (n div 10 div 10)") auto
      then show ?thesis
        using "1.IH" [OF False] unfolding step by simp
    qed
  qed
qed

lemma atoi_dec: "int n < 2 ^ 63 \<Longrightarrow> atoi (dec n) = Inr (int n)"
  using digit_not_sign [OF hd_dec_digit, of n] by (simp add: atoi_def)

lemma atoi_itoa: "- (2 ^ 63) \<le> i \<Longrightarrow> i < 2 ^ 63 \<Longrightarrow> atoi (itoa i) = Inr i"
proof (cases "i < 0")
  case True
  assume "- (2 ^ 63) \<le> i"
  then have "- i \<le> 2 ^ 63"
    by simp
  then show ?thesis
    using True by (simp add: itoa_def atoi_def)
next
  case False
  moreover assume "i < 2 ^ 63"
  ultimately show ?thesis
    using atoi_dec [of "nat i"] by (simp add: itoa_def nat_less_iff)
qed

section \<open>Hexadecimal output, the verb \<open>%x\<close>\<close>

fun hex :: "nat \<Rightarrow> string" where
  "hex n = (if n < 16 then [hex_char n] else hex (n div 16) @ [hex_char (n mod 16)])"

declare hex.simps [simp del]

definition format_uint :: "'a::len word \<Rightarrow> string" where
  "format_uint v = dec (unat v)"

lemma format_uint_inj: "format_uint v = format_uint u \<Longrightarrow> v = u"
  by (auto simp: format_uint_def word_unat_eq_iff dest: dec_inj)

end
