(* ===== verification/Go_Net.thy ===== *)
theory Go_Net
  imports Go_Strings
begin

text \<open>
  The type \<open>net.IP\<close> of Go's \<open>net\<close> package (a byte slice: empty for nil, 4 bytes for IPv4,
  16 bytes for IPv6 and for IPv4 in its mapped form) and the functions winc uses of it:
  \<open>To4\<close>, \<open>String\<close>, \<open>IPv4\<close> and \<open>ParseIP\<close>.
\<close>

type_synonym byte = "8 word"
type_synonym ip = "byte list"

type_synonym u16 = "16 word"
type_synonym u32 = "32 word"
type_synonym u64 = "64 word"

definition v4InV6Prefix :: ip where
  "v4InV6Prefix = replicate 10 0 @ [255, 255]"

definition To4 :: "ip \<Rightarrow> ip" where
  "To4 ip =
     (if length ip = 4 then ip
      else if length ip = 16 \<and> take 12 ip = v4InV6Prefix then drop 12 ip
      else [])"

definition net_IPv4 :: "byte \<Rightarrow> byte \<Rightarrow> byte \<Rightarrow> byte \<Rightarrow> ip" where
  "net_IPv4 a b c d = v4InV6Prefix @ [a, b, c, d]"

section \<open>\<open>IP.String\<close>\<close>

definition dotted :: "ip \<Rightarrow> string" where
  "dotted bs = join ''.'' (map format_uint bs)"

fun groups :: "ip \<Rightarrow> nat list" where
  "groups (a # b # bs) = (unat a * 256 + unat b) # groups bs"
| "groups _ = []"

text \<open>The first longest run of at least two zero groups, as start and length.\<close>

fun zero_run :: "nat \<Rightarrow> nat list \<Rightarrow> nat \<times> nat \<Rightarrow> nat \<times> nat" where
  "zero_run i [] best = best"
| "zero_run i (g # gs) best =
     (let l = length (takeWhile (\<lambda>x. x = 0) (g # gs))
      in zero_run (Suc i) gs (if 2 \<le> l \<and> snd best < l then (i, l) else best))"

definition ipv6_string :: "nat list \<Rightarrow> string" where
  "ipv6_string gs =
     (let (z, l) = zero_run 0 gs (0, 0)
      in if l = 0 then join '':'' (map hex gs)
         else join '':'' (map hex (take z gs)) @ ''::'' @ join '':'' (map hex (drop (z + l) gs)))"

definition hex_byte :: "byte \<Rightarrow> string" where
  "hex_byte b = [hex_char (unat b div 16), hex_char (unat b mod 16)]"

definition ip_String :: "ip \<Rightarrow> string" where
  "ip_String ip =
     (if ip = [] then ''<nil>''
      else if length ip \<noteq> 4 \<and> length ip \<noteq> 16 then ''?'' @ concat (map hex_byte ip)
      else if length (To4 ip) = 4 then dotted (To4 ip)
      else ipv6_string (groups ip))"

section \<open>\<open>net.ParseIP\<close>\<close>

text \<open>One decimal field of an IPv4 address: no empty field, no leading zero, at most 255.\<close>

definition parse_field :: "string \<Rightarrow> byte option" where
  "parse_field s =
     (if all_digits s \<and> length s \<le> 3 \<and> (length s > 1 \<longrightarrow> hd s \<noteq> CHR ''0'') \<and> undec s \<le> 255
      then Some (of_nat (undec s)) else None)"

fun parse_fields :: "string list \<Rightarrow> ip option" where
  "parse_fields [] = Some []"
| "parse_fields (f # fs) =
     (case parse_field f of
        None \<Rightarrow> None
      | Some b \<Rightarrow> (case parse_fields fs of None \<Rightarrow> None | Some bs \<Rightarrow> Some (b # bs)))"

definition parseIPv4 :: "string \<Rightarrow> ip option" where
  "parseIPv4 s =
     (let fs = split_on (CHR ''.'') s in if length fs = 4 then parse_fields fs else None)"

definition is_hex :: "char \<Rightarrow> bool" where
  "is_hex c \<longleftrightarrow> is_digit c \<or> (97 \<le> (of_char c :: nat) \<and> (of_char c :: nat) \<le> 102)
      \<or> (65 \<le> (of_char c :: nat) \<and> (of_char c :: nat) \<le> 70)"

definition hex_val :: "char \<Rightarrow> nat" where
  "hex_val c = (if is_digit c then digit_val c
     else if 97 \<le> (of_char c :: nat) then of_char c - 87 else of_char c - 55)"

definition unhex :: "string \<Rightarrow> nat" where
  "unhex s = foldl (\<lambda>a c. 16 * a + hex_val c) 0 s"

text \<open>
  The loop of \<open>parseIPv6\<close>: \<open>acc\<close> holds the bytes read so far and \<open>ell\<close> the position of
  the ellipsis. Each round consumes a group and the colon after it; \<open>n\<close> bounds the
  groups left to read, eight at most, as the loop's guard \<open>i < 16\<close> does.
\<close>

fun parse_groups :: "nat \<Rightarrow> string \<Rightarrow> ip \<Rightarrow> nat option \<Rightarrow> (ip \<times> nat option) option" where
  "parse_groups 0 s acc ell = (if s = [] then Some (acc, ell) else None)"
| "parse_groups (Suc n) s acc ell =
     (let h = takeWhile is_hex s; rest = dropWhile is_hex s; g = unhex h
      in if h = [] \<or> 4 < length h then None
         else if rest \<noteq> [] \<and> hd rest = CHR ''.'' then
           (if (ell = None \<and> length acc \<noteq> 12) \<or> 12 < length acc then None
            else (case parseIPv4 s of None \<Rightarrow> None | Some b4 \<Rightarrow> Some (acc @ b4, ell)))
         else
           (let acc' = acc @ [of_nat (g div 256), of_nat (g mod 256)]
            in case rest of
                 [] \<Rightarrow> Some (acc', ell)
               | c # rest' \<Rightarrow>
                   if c \<noteq> CHR '':'' \<or> rest' = [] then None
                   else if hd rest' = CHR '':'' then
                     (if ell \<noteq> None then None
                      else if tl rest' = [] then Some (acc', Some (length acc'))
                      else parse_groups n (tl rest') acc' (Some (length acc')))
                   else parse_groups n rest' acc' ell))"

definition parseIPv6 :: "string \<Rightarrow> ip option" where
  "parseIPv6 s =
     (let lead = (take 2 s = ''::''); s' = (if lead then drop 2 s else s)
      in if lead \<and> s' = [] then Some (replicate 16 0)
         else (case parse_groups 8 s' [] (if lead then Some 0 else None) of
                 None \<Rightarrow> None
               | Some (bs, None) \<Rightarrow> (if length bs = 16 then Some bs else None)
               | Some (bs, Some e) \<Rightarrow>
                   (if length bs < 16
                    then Some (take e bs @ replicate (16 - length bs) 0 @ drop e bs) else None)))"

text \<open>
  \<open>ParseIP\<close> returns the 16-byte form, or nil: an address with a zone is nil as well, so a
  \<open>%\<close> anywhere makes the result nil.
\<close>

definition ParseIP :: "string \<Rightarrow> ip" where
  "ParseIP s =
     (case dropWhile (\<lambda>c. c \<noteq> CHR ''.'' \<and> c \<noteq> CHR '':'' \<and> c \<noteq> CHR ''%'') s of
        [] \<Rightarrow> []
      | c # _ \<Rightarrow>
          if c = CHR ''.'' then
            (case parseIPv4 s of None \<Rightarrow> [] | Some b4 \<Rightarrow> v4InV6Prefix @ b4)
          else if c = CHR '':'' \<and> CHR ''%'' \<notin> set s then
            (case parseIPv6 s of None \<Rightarrow> [] | Some bs \<Rightarrow> bs)
          else [])"

section \<open>Facts\<close>

lemma length_v4InV6Prefix [simp]: "length v4InV6Prefix = 12"
  by (simp add: v4InV6Prefix_def)

lemma To4_net_IPv4 [simp]: "To4 (net_IPv4 a b c d) = [a, b, c, d]"
  by (simp add: To4_def net_IPv4_def)

lemma To4_length: "To4 ip = [] \<or> length (To4 ip) = 4"
  by (auto simp: To4_def)

lemma ip_String_net_IPv4:
  "ip_String (net_IPv4 a b c d) = dotted [a, b, c, d]"
  using To4_net_IPv4 [of a b c d]
  by (simp add: ip_String_def) (simp add: net_IPv4_def v4InV6Prefix_def)

lemma format_uint_no_dot: "CHR ''.'' \<notin> set (format_uint v)"
  by (simp add: format_uint_def sep_notin_dec is_digit_def)

lemma split_dotted: "bs \<noteq> [] \<Longrightarrow> split_on (CHR ''.'') (dotted bs) = map format_uint bs"
  unfolding dotted_def by (rule split_on_join) (auto simp: format_uint_no_dot)

lemma dotted_inj:
  assumes "dotted bs = dotted cs" and "bs \<noteq> []" and "cs \<noteq> []"
  shows "bs = cs"
proof -
  have "map format_uint bs = map format_uint cs"
    using assms by (metis split_dotted)
  then show ?thesis
    by (rule map_injective) (simp add: inj_def format_uint_inj)
qed

lemma dec_length_le3: "n < 1000 \<Longrightarrow> length (dec n) \<le> 3"
  by (subst dec.simps, subst dec.simps, subst dec.simps) auto

lemma parse_field_format: "parse_field (format_uint (b :: byte)) = Some b"
proof -
  have b: "unat b < 256"
    using unsigned_less [of b] by simp
  then show ?thesis
    using dec_length_le3 [of "unat b"] dec_no_leading_zero [of "unat b"]
    by (auto simp: parse_field_def format_uint_def)
qed

lemma parse_fields_format: "parse_fields (map format_uint bs) = Some bs"
  by (induction bs) (simp_all add: parse_field_format)

text \<open>Printing an IPv4 address and parsing it again gives the address in its 16-byte form.\<close>

lemma parseIPv4_dotted: "length bs = 4 \<Longrightarrow> parseIPv4 (dotted bs) = Some bs"
  by (cases bs) (simp_all add: parseIPv4_def split_dotted parse_fields_format parse_field_format)

end
