(* ===== verification/Net_Rules.thy ===== *)
theory Net_Rules
  imports Go_Prelude Go_Net
begin

unbundle bit_operations_syntax

text \<open>
  network/netrules/rules.go: the port and address rules a container is given, their text
  for the Windows firewall, and the conversion of an address range into CIDR blocks. The
  conversion is modelled with its two loops on 32-bit words; the lemmas show that it
  stops, that its blocks are aligned, disjoint and cover exactly the range, and that each
  block is the largest one that fits.
\<close>

section \<open>Data\<close>

record PortMapping =
  pm_HostPort :: u16
  pm_ContainerPort :: u16

record NetIn =
  ni_HostPort :: u16
  ni_ContainerPort :: u16

record IPRange =
  ipr_Start :: ip
  ipr_End :: ip

record PortRange =
  pr_Start :: u16
  pr_End :: u16

text \<open>\<open>type Protocol uint8\<close>: any byte can arrive from JSON, four of them are named.\<close>

type_synonym Protocol = "8 word"

definition ProtocolAll :: Protocol where "ProtocolAll = 0"
definition ProtocolTCP :: Protocol where "ProtocolTCP = 1"
definition ProtocolUDP :: Protocol where "ProtocolUDP = 2"
definition ProtocolICMP :: Protocol where "ProtocolICMP = 3"

record NetOut =
  no_Protocol :: Protocol
  no_Networks :: "IPRange list"
  no_Ports :: "PortRange list"

lemmas protocol_defs = ProtocolAll_def ProtocolTCP_def ProtocolUDP_def ProtocolICMP_def

section \<open>Text for the firewall\<close>

definition IPRange_String :: "IPRange \<Rightarrow> string" where
  "IPRange_String ir = ip_String (ipr_Start ir) @ ''-'' @ ip_String (ipr_End ir)"

definition PortRange_String :: "PortRange \<Rightarrow> string" where
  "PortRange_String pr = format_uint (pr_Start pr) @ ''-'' @ format_uint (pr_End pr)"

definition FirewallRuleIPRange :: "IPRange list \<Rightarrow> string" where
  "FirewallRuleIPRange networks = join '','' (map IPRange_String networks)"

definition FirewallRulePortRange :: "PortRange list \<Rightarrow> string" where
  "FirewallRulePortRange ports = join '','' (map PortRange_String ports)"

section \<open>Ranges to CIDR blocks\<close>

text \<open>In Go a shift by 32 or more gives 0, as \<open>push_bit\<close> does; \<open>32 - len\<close> wraps.\<close>

definition bitMask :: "u32 \<Rightarrow> u32" where
  "bitMask len = push_bit (unat (32 - len)) 0xffffffff"

definition first_addr :: "u32 \<Rightarrow> u32 \<Rightarrow> u32" where
  "first_addr start maskLen = start AND bitMask maskLen"

definition last_addr :: "u32 \<Rightarrow> u32 \<Rightarrow> u32" where
  "last_addr start maskLen = (start AND bitMask maskLen) OR NOT (bitMask maskLen)"

definition cidrFromIntMask :: "u32 \<Rightarrow> u32 \<Rightarrow> string" where
  "cidrFromIntMask start maskLen =
     (let ip = net_IPv4
        (ucast (drop_bit 24 (start AND 0xff000000)))
        (ucast (drop_bit 16 (start AND 0x00ff0000)))
        (ucast (drop_bit 8 (start AND 0x0000ff00)))
        (ucast (start AND 0x000000ff))
      in ip_String ip @ ''/'' @ format_uint maskLen)"

text \<open>\<open>ip.To4()\<close> is nil for anything but IPv4, and indexing a nil slice panics.\<close>

definition ipToUint :: "ip \<Rightarrow> ('e, u32) outcome" where
  "ipToUint ip =
     (case To4 ip of
        [a, b, c, d] \<Rightarrow> Ok (push_bit 24 (ucast a) + push_bit 16 (ucast b)
                          + push_bit 8 (ucast c) + ucast d)
      | _ \<Rightarrow> Panic ''runtime error: index out of range'')"

text \<open>The inner loop, from \<open>maskLen\<close> downwards.\<close>

function widen :: "u32 \<Rightarrow> u32 \<Rightarrow> u32 \<Rightarrow> u32" where
  "widen start end maskLen =
     (if 0 < maskLen then
        (if start \<noteq> first_addr start (maskLen - 1) \<or> end < last_addr start (maskLen - 1)
         then maskLen
         else widen start end (maskLen - 1))
      else maskLen)"
  by pat_completeness auto
termination
  by (relation "measure (\<lambda>(s, e, m). unat m)") (auto simp: word_gt_0 unat_minus_one unat_gt_0)

declare widen.simps [simp del]

lemma max_u32: "(0xffffffff :: u32) = - 1"
  by simp

lemma unat_max_u32: "unat (0xffffffff :: u32) = 4294967295"
  by simp

lemma unat_u32_less: "unat (x :: u32) < 4294967296"
proof -
  have "unat x < 2 ^ LENGTH(32)"
    by (rule unsigned_less)
  then show ?thesis
    by simp
qed

lemma unat_inc_u32:
  fixes x :: u32
  assumes "x \<noteq> 0xffffffff"
  shows "unat (x + 1) = unat x + 1"
proof -
  have "unat x < 4294967296"
    by (rule unat_u32_less)
  moreover have "unat x \<noteq> 4294967295"
    using assms unat_max_u32 by (metis word_unat_eq_iff)
  ultimately show ?thesis
    by (simp add: unat_word_ariths)
qed

lemma NOT_bitMask: "m \<le> 32 \<Longrightarrow> NOT (bitMask m) = mask (32 - unat m)"
proof -
  assume m: "m \<le> 32"
  then have "unat (32 - m) = 32 - unat m"
    by (simp add: unat_sub)
  moreover have "push_bit k (0xffffffff :: u32) = NOT (mask k)" for k
    unfolding max_u32 by (rule bit_eqI) (auto simp: bit_simps)
  ultimately show ?thesis
    by (simp add: bitMask_def)
qed

lemma bitMask_eq: "m \<le> 32 \<Longrightarrow> bitMask m = NOT (mask (32 - unat m))"
  using NOT_bitMask by (metis bit.double_compl)

lemma le_last_addr: "start \<le> last_addr start m"
proof -
  have "(start AND M) OR NOT M = start OR NOT M" for M :: u32
    by (rule bit_eqI) (auto simp: bit_simps)
  then show ?thesis
    by (simp add: last_addr_def word_le_def) (metis le_word_or2 or.commute word_le_def)
qed

text \<open>Each round of the outer loop moves strictly up: the measure of its termination.\<close>

lemma last_addr_progress:
  assumes "last_addr start m \<noteq> 0xffffffff"
  shows "4294967295 - unat (last_addr start m + 1) < 4294967295 - unat start"
proof -
  have "unat start < unat (last_addr start m + 1)"
    using le_last_addr [of start m] unat_inc_u32 [OF assms]
    unfolding word_le_nat_alt by linarith
  then show ?thesis
    using unat_u32_less [of "last_addr start m + 1"] by simp
qed

text \<open>The outer loop, with the result accumulated as the source does.\<close>

function cidr_loop :: "u32 \<Rightarrow> u32 \<Rightarrow> string list \<Rightarrow> string list" where
  "cidr_loop start end r =
     (if start \<le> end then
        (let maskLen = widen start end 32;
             r' = r @ [cidrFromIntMask start maskLen];
             start' = last_addr start maskLen
         in if start' = 0xffffffff then r' else cidr_loop (start' + 1) end r')
      else r)"
  by pat_completeness auto
termination
  by (relation "measure (\<lambda>(s, e, r). 4294967295 - unat s)") (auto intro: last_addr_progress)

declare cidr_loop.simps [simp del]

definition IPRangeToCIDRs :: "IPRange \<Rightarrow> ('e, string list) outcome" where
  "IPRangeToCIDRs iprange =
     (case ipToUint (ipr_Start iprange) of
        Ok start \<Rightarrow>
          (case ipToUint (ipr_End iprange) of
             Ok end \<Rightarrow> Ok (cidr_loop start end [])
           | Err e \<Rightarrow> Err e
           | Panic s \<Rightarrow> Panic s)
      | Err e \<Rightarrow> Err e
      | Panic s \<Rightarrow> Panic s)"

section \<open>The loops, read as arithmetic\<close>

text \<open>The reference: the list of blocks as (address, prefix length), without the text.\<close>

function cidr_blocks :: "u32 \<Rightarrow> u32 \<Rightarrow> (u32 \<times> u32) list" where
  "cidr_blocks start end =
     (if start \<le> end then
        (let m = widen start end 32
         in (start, m) # (if last_addr start m = 0xffffffff then []
                          else cidr_blocks (last_addr start m + 1) end))
      else [])"
  by pat_completeness auto
termination
  by (relation "measure (\<lambda>(s, e). 4294967295 - unat s)") (auto intro: last_addr_progress)

declare cidr_blocks.simps [simp del]

lemma cidr_loop_blocks:
  "cidr_loop start end r = r @ map (\<lambda>(s, m). cidrFromIntMask s m) (cidr_blocks start end)"
proof (induction start "end" r rule: cidr_loop.induct)
  case (1 start "end" r)
  then show ?case
    by (subst cidr_loop.simps, subst cidr_blocks.simps) (auto simp: Let_def)
qed

definition block_bits :: "u32 \<Rightarrow> nat" where
  "block_bits m = 32 - unat m"

lemma and_NOT_mask: "(s :: u32) AND NOT (mask k) = push_bit k (drop_bit k s)"
  by (rule bit_eqI) (auto simp: bit_simps)

lemma unat_and_NOT_mask: "unat ((s :: u32) AND NOT (mask k)) = unat s div 2 ^ k * 2 ^ k"
proof -
  have "s AND NOT (mask k) = s - take_bit k s"
    using and_NOT_mask [of s k] bits_ident [of k s] by (metis add_diff_cancel_right')
  moreover have "unat (take_bit k s) = unat s mod 2 ^ k"
    by (simp only: unsigned_take_bit_eq) (simp add: take_bit_eq_mod)
  ultimately show ?thesis
    by (simp add: unat_sub word_le_nat_alt minus_mod_eq_div_mult)
qed

lemma unat_mask_u32:
  assumes "k \<le> 32"
  shows "unat (mask k :: u32) = 2 ^ k - 1"
proof -
  have "unat (of_nat (mask k) :: u32) = take_bit LENGTH(32) (mask k)"
    by (simp only: unsigned_of_nat of_nat_id)
  also have "\<dots> = mask k"
    using assms by (simp add: min_def)
  finally show ?thesis
    by (simp add: of_nat_mask_eq mask_eq_exp_minus_1)
qed

lemma block_end_bound:
  fixes n :: nat
  assumes "n < 2 ^ 32" and "k \<le> 32"
  shows "n div 2 ^ k * 2 ^ k + 2 ^ k \<le> 2 ^ 32"
proof -
  have split: "(2 :: nat) ^ 32 = 2 ^ (32 - k) * 2 ^ k"
    using assms(2) by (simp flip: power_add)
  then have "n div 2 ^ k < 2 ^ (32 - k)"
    using assms(1) by (simp add: less_mult_imp_div_less)
  then have "(n div 2 ^ k + 1) * 2 ^ k \<le> 2 ^ (32 - k) * 2 ^ k"
    by (intro mult_le_mono1) simp
  then show ?thesis
    unfolding split by simp
qed

lemma unat_first_addr:
  "m \<le> 32 \<Longrightarrow> unat (first_addr s m) = unat s div 2 ^ block_bits m * 2 ^ block_bits m"
  by (simp add: first_addr_def bitMask_eq block_bits_def unat_and_NOT_mask)

lemma unat_last_addr:
  assumes "m \<le> 32"
  shows "unat (last_addr s m) = unat s div 2 ^ block_bits m * 2 ^ block_bits m + (2 ^ block_bits m - 1)"
proof -
  let ?k = "block_bits m"
  have "last_addr s m = (s AND NOT (mask ?k)) OR mask ?k"
    using assms by (simp add: last_addr_def bitMask_eq block_bits_def)
  also have "\<dots> = (s AND NOT (mask ?k)) + mask ?k"
    by (rule disjunctive_add [symmetric]) (auto simp: bit_simps)
  finally have "unat (last_addr s m) =
      (unat s div 2 ^ ?k * 2 ^ ?k + unat (mask ?k :: u32)) mod 2 ^ 32"
    by (simp add: unat_word_ariths unat_and_NOT_mask)
  moreover have "unat (mask ?k :: u32) = 2 ^ ?k - 1"
    using unat_mask_u32 [of ?k] by (simp add: block_bits_def)
  moreover have "unat s div 2 ^ ?k * 2 ^ ?k + 2 ^ ?k \<le> 2 ^ 32"
    by (rule block_end_bound) (simp_all add: block_bits_def unat_u32_less)
  ultimately show ?thesis
    by simp
qed

text \<open>A block is the addresses that agree with it on the prefix.\<close>

definition block_set :: "u32 \<times> u32 \<Rightarrow> u32 set" where
  "block_set b = {first_addr (fst b) (snd b) .. last_addr (fst b) (snd b)}"

lemma nat_block:
  fixes x s K :: nat
  assumes "0 < K"
  shows "s div K * K \<le> x \<and> x \<le> s div K * K + (K - 1) \<longleftrightarrow> x div K = s div K"
proof
  assume "s div K * K \<le> x \<and> x \<le> s div K * K + (K - 1)"
  then have "s div K * K \<le> x" "x < Suc (s div K) * K"
    using assms by auto
  then show "x div K = s div K"
    by (intro div_nat_eqI) (simp_all add: mult.commute)
next
  assume "x div K = s div K"
  then have "x = s div K * K + x mod K"
    by (metis div_mult_mod_eq)
  moreover have "x mod K < K"
    using assms by simp
  ultimately show "s div K * K \<le> x \<and> x \<le> s div K * K + (K - 1)"
    by linarith
qed

lemma in_block_set:
  "m \<le> 32 \<Longrightarrow>
   x \<in> block_set (s, m) \<longleftrightarrow> unat x div 2 ^ block_bits m = unat s div 2 ^ block_bits m"
  using nat_block [of "2 ^ block_bits m" "unat s" "unat x"]
  by (simp add: block_set_def word_le_nat_alt unat_first_addr unat_last_addr)

text \<open>\<open>fits start end m\<close>: the block of length \<open>m\<close> at \<open>start\<close> is aligned and inside the range.\<close>

definition fits :: "u32 \<Rightarrow> u32 \<Rightarrow> u32 \<Rightarrow> bool" where
  "fits start end m \<longleftrightarrow> first_addr start m = start \<and> last_addr start m \<le> end"

lemma widen_fits:
  assumes "fits start end m" and "m \<le> 32"
  shows "fits start end (widen start end m) \<and> widen start end m \<le> m
    \<and> (widen start end m \<noteq> 0 \<longrightarrow> \<not> fits start end (widen start end m - 1))"
  using assms
proof (induction start "end" m rule: widen.induct)
  case (1 start "end" m)
  show ?case
  proof (cases "0 < m \<and> fits start end (m - 1)")
    case True
    then have "m - 1 \<le> 32" and le: "m - 1 \<le> m"
      using "1.prems"(2) by (auto simp: word_le_nat_alt word_less_nat_alt unat_minus_one unat_gt_0)
    have in_range: "\<not> (start \<noteq> first_addr start (m - 1) \<or> end < last_addr start (m - 1))"
      using True by (auto simp: fits_def)
    from \<open>m - 1 \<le> 32\<close> have IH: "fits start end (widen start end (m - 1)) \<and> widen start end (m - 1) \<le> m - 1
      \<and> (widen start end (m - 1) \<noteq> 0 \<longrightarrow> \<not> fits start end (widen start end (m - 1) - 1))"
      using "1.IH" [OF _ in_range] True by blast
    moreover have "widen start end m = widen start end (m - 1)"
      using True by (subst widen.simps) (auto simp: fits_def)
    ultimately show ?thesis
      using le by auto
  next
    case False
    then have "widen start end m = m"
      by (subst widen.simps) (auto simp: fits_def)
    with False "1.prems" show ?thesis
      by (auto simp: word_gt_0)
  qed
qed

lemma block_bits_pred:
  assumes "m \<le> 32" and "m \<noteq> 0"
  shows "block_bits (m - 1) = Suc (block_bits m)"
proof -
  have "unat m \<le> 32" "unat m \<noteq> 0"
    using assms by (auto simp: word_le_nat_alt unat_eq_0)
  then show ?thesis
    using assms(2) by (simp add: block_bits_def unat_minus_one)
qed

text \<open>A block that fits contains the block of the next longer prefix, which fits too.\<close>

lemma fits_iff:
  assumes "m \<le> 32"
  shows "fits start end m \<longleftrightarrow>
    2 ^ block_bits m dvd unat start \<and> unat start + (2 ^ block_bits m - 1) \<le> unat end"
proof -
  let ?K = "2 ^ block_bits m :: nat"
  have "first_addr start m = start \<longleftrightarrow> unat start div ?K * ?K = unat start"
    using unat_first_addr [OF assms, of start] by (simp add: word_unat_eq_iff)
  also have "\<dots> \<longleftrightarrow> ?K dvd unat start"
    by (metis dvd_div_mult_self dvd_triv_right)
  finally show ?thesis
    unfolding fits_def word_le_nat_alt unat_last_addr [OF assms]
    by (metis dvd_div_mult_self)
qed

lemma fits_32: "start \<le> end \<Longrightarrow> fits start end 32"
  by (simp add: fits_iff block_bits_def word_le_nat_alt)

lemma fits_mono:
  assumes "fits start end m" and "m \<le> n" and "n \<le> 32"
  shows "fits start end n"
proof -
  have k: "block_bits n \<le> block_bits m"
    using assms(2) by (simp add: block_bits_def word_le_nat_alt)
  then have dvd: "(2::nat) ^ block_bits n dvd 2 ^ block_bits m"
    and le: "(2::nat) ^ block_bits n \<le> 2 ^ block_bits m"
    by (simp_all add: le_imp_power_dvd)
  have "m \<le> 32"
    using assms(2,3) by simp
  then have "2 ^ block_bits m dvd unat start" "unat start + (2 ^ block_bits m - 1) \<le> unat end"
    using assms(1) by (simp_all only: fits_iff)
  then have "2 ^ block_bits n dvd unat start" "unat start + (2 ^ block_bits n - 1) \<le> unat end"
    using dvd_trans [OF dvd] le by (blast, linarith)
  then show ?thesis
    using assms(3) by (simp only: fits_iff)
qed

section \<open>Correctness of the conversion\<close>

text \<open>The block each round of the outer loop chooses, and what the round leaves to do.\<close>

lemma widen_block:
  assumes "start \<le> end"
  defines "m \<equiv> widen start end 32"
  shows "m \<le> 32" and "fits start end m" and "m \<noteq> 0 \<Longrightarrow> \<not> fits start end (m - 1)"
  using widen_fits [OF fits_32 [OF assms(1)]] by (auto simp: m_def)

lemma block_set_fits: "fits start end m \<Longrightarrow> block_set (start, m) = {start .. last_addr start m}"
  by (simp add: block_set_def fits_def)

lemma u32_above_last: "x \<noteq> 0xffffffff \<Longrightarrow> {x + 1 .. e} = {x <.. e}" for x e :: u32
  using unat_inc_u32 [of x]
  by (auto simp: word_le_nat_alt word_less_nat_alt set_eq_iff)

lemma cidr_blocks_step:
  assumes "start \<le> end"
  defines "m \<equiv> widen start end 32"
  shows "cidr_blocks start end =
    (start, m) # (if last_addr start m = 0xffffffff then [] else cidr_blocks (last_addr start m + 1) end)"
  using assms(1) by (subst cidr_blocks.simps) (simp add: m_def Let_def)

lemma cidr_blocks_empty: "end < start \<Longrightarrow> cidr_blocks start end = []"
  by (subst cidr_blocks.simps) auto

text \<open>Induction on the rounds of the loop.\<close>

lemma cidr_blocks_induct [case_names Done Last More]:
  assumes "\<And>start end. end < start \<Longrightarrow> P start end []"
    and "\<And>start end m. \<lbrakk>start \<le> end; m \<le> 32; fits start end m; m \<noteq> 0 \<longrightarrow> \<not> fits start end (m - 1);
           last_addr start m = 0xffffffff\<rbrakk> \<Longrightarrow> P start end [(start, m)]"
    and "\<And>start end m bs. \<lbrakk>start \<le> end; m \<le> 32; fits start end m; m \<noteq> 0 \<longrightarrow> \<not> fits start end (m - 1);
           last_addr start m \<noteq> 0xffffffff; bs = cidr_blocks (last_addr start m + 1) end;
           P (last_addr start m + 1) end bs\<rbrakk> \<Longrightarrow> P start end ((start, m) # bs)"
  shows "P start end (cidr_blocks start end)"
proof (induction start "end" rule: cidr_blocks.induct)
  case (1 start "end")
  show ?case
  proof (cases "start \<le> end")
    case False
    then show ?thesis
      using assms(1) by (simp add: cidr_blocks_empty)
  next
    case True
    then show ?thesis
      using assms(2,3) widen_block [OF True] "1.IH" [OF True refl]
      by (subst cidr_blocks_step) (auto simp: Let_def)
  qed
qed

lemma cidr_blocks_cover: "\<Union> (block_set ` set (cidr_blocks start end)) = {start .. end}"
proof (induction rule: cidr_blocks_induct
    [where P = "\<lambda>s e bs. \<Union> (block_set ` set bs) = {s .. e}"])
  case (Last start "end" m)
  then have "end = 0xffffffff"
    unfolding fits_def max_u32 by (simp add: word_order.extremum_unique)
  with Last show ?case
    by (simp add: block_set_fits)
next
  case (More start "end" m bs)
  then have "last_addr start m \<le> end"
    by (simp add: fits_def)
  with More show ?case
    using le_last_addr [of start m] by (auto simp: block_set_fits u32_above_last)
qed simp

lemma cidr_blocks_ordered:
  "sorted_wrt (\<lambda>(a, m) (b, n). last_addr a m < b) (cidr_blocks start end)
   \<and> (\<forall>(b, n) \<in> set (cidr_blocks start end). start \<le> b)"
proof (induction rule: cidr_blocks_induct
    [where P = "\<lambda>s e bs. sorted_wrt (\<lambda>(a, m) (b, n). last_addr a m < b) bs \<and> (\<forall>(b, n) \<in> set bs. s \<le> b)"])
  case (More start "end" m bs)
  then have lt: "last_addr start m < last_addr start m + 1"
    using unat_inc_u32 by (simp add: word_less_nat_alt)
  with More show ?case
    using le_last_addr [of start m] by fastforce
qed simp_all

lemma cidr_blocks_maximal:
  assumes "(a, m) \<in> set (cidr_blocks start end)"
  shows "m \<le> 32 \<and> fits a end m \<and> (\<forall>n < m. \<not> fits a end n)"
proof -
  have "\<forall>(a, m) \<in> set (cidr_blocks start end).
      m \<le> 32 \<and> fits a end m \<and> (m \<noteq> 0 \<longrightarrow> \<not> fits a end (m - 1))"
    by (induction rule: cidr_blocks_induct
        [where P = "\<lambda>s e bs. \<forall>(a, m) \<in> set bs. m \<le> 32 \<and> fits a e m \<and> (m \<noteq> 0 \<longrightarrow> \<not> fits a e (m - 1))"])
      auto
  with assms have m: "m \<le> 32" "fits a end m" "m \<noteq> 0 \<longrightarrow> \<not> fits a end (m - 1)"
    by auto
  have "\<not> fits a end n" if "n < m" for n
  proof -
    have "m \<noteq> 0"
      using that by auto
    then have "n \<le> m - 1" "m - 1 \<le> 32"
      using that m(1) by (auto simp: word_le_nat_alt word_less_nat_alt unat_minus_one)
    with \<open>m \<noteq> 0\<close> show ?thesis
      using m(3) fits_mono by blast
  qed
  with m show ?thesis
    by blast
qed

lemma greedy_block_set:
  assumes "(a, m) \<in> set (cidr_blocks start end)"
  shows "block_set (a, m) = {a .. last_addr a m}" and "a \<in> block_set (a, m)"
  using cidr_blocks_maximal [OF assms] le_last_addr [of a m] block_set_fits by auto

lemma cidr_blocks_nth_less:
  "i < j \<Longrightarrow> j < length (cidr_blocks start end) \<Longrightarrow>
   last_addr (fst (cidr_blocks start end ! i)) (snd (cidr_blocks start end ! i))
     < fst (cidr_blocks start end ! j)"
  using conjunct1 [OF cidr_blocks_ordered, of start "end"]
  by (simp add: sorted_wrt_iff_nth_less case_prod_beta)

lemma cidr_blocks_disjoint:
  assumes "g \<in> set (cidr_blocks start end)" and "h \<in> set (cidr_blocks start end)"
    and "x \<in> block_set g" and "x \<in> block_set h"
  shows "g = h"
proof -
  let ?G = "cidr_blocks start end"
  obtain i j where ij: "i < length ?G" "?G ! i = g" "j < length ?G" "?G ! j = h"
    using assms(1,2) by (metis in_set_conv_nth)
  have "fst b \<le> x \<and> x \<le> last_addr (fst b) (snd b)" if "b \<in> set ?G" "x \<in> block_set b" for b
    using that greedy_block_set(1) [of "fst b" "snd b" start "end"] by simp
  then have "x \<le> last_addr (fst g) (snd g)" "fst h \<le> x" "x \<le> last_addr (fst h) (snd h)" "fst g \<le> x"
    using assms by blast+
  moreover have "last_addr (fst (?G ! a)) (snd (?G ! a)) < fst (?G ! b)" if "a < b" "b < length ?G" for a b
    by (rule cidr_blocks_nth_less [OF that])
  ultimately have "\<not> i < j" "\<not> j < i"
    using ij by fastforce+
  with ij show ?thesis
    by simp
qed

lemma cidr_blocks_distinct: "distinct (cidr_blocks start end)"
proof -
  have "last_addr a m < a \<Longrightarrow> False" for a m
    using le_last_addr [of a m] by simp
  then show ?thesis
    using conjunct1 [OF cidr_blocks_ordered, of start "end"]
    by (auto simp: sorted_wrt_iff_nth_less distinct_conv_nth case_prod_beta)
      (metis linorder_neqE_nat)
qed

text \<open>Two blocks that meet are nested, the one with the longer prefix inside.\<close>

lemma block_set_nested:
  assumes "m \<le> n" and "n \<le> 32" and "x \<in> block_set (a, m)" and "x \<in> block_set (b, n)"
  shows "block_set (b, n) \<subseteq> block_set (a, m)"
proof
  fix y assume y: "y \<in> block_set (b, n)"
  have bits: "block_bits m = block_bits n + (block_bits m - block_bits n)" "m \<le> 32"
    using assms(1,2) by (auto simp: block_bits_def word_le_nat_alt)
  have "unat y div 2 ^ block_bits n = unat x div 2 ^ block_bits n"
    using y assms(2,4) by (simp add: in_block_set)
  then have "unat y div 2 ^ block_bits m = unat x div 2 ^ block_bits m"
    by (subst (1 2) bits(1)) (simp add: power_add div_mult2_eq)
  then show "y \<in> block_set (a, m)"
    using assms(3) bits(2) by (simp add: in_block_set)
qed

lemma block_in_greedy:
  assumes "n \<le> 32" and "block_set (x, n) \<subseteq> {start .. end}"
  shows "\<exists>g \<in> set (cidr_blocks start end). block_set (x, n) \<subseteq> block_set g"
proof -
  let ?b = "first_addr x n"
  have b: "?b \<in> block_set (x, n)"
    using assms(1) by (simp add: in_block_set unat_first_addr)
  then have "?b \<in> \<Union> (block_set ` set (cidr_blocks start end))"
    unfolding cidr_blocks_cover using assms(2) by blast
  then obtain a m where g: "(a, m) \<in> set (cidr_blocks start end)" and bg: "?b \<in> block_set (a, m)"
    by auto
  have "\<not> n < m"
  proof
    assume "n < m"
    then have sub: "block_set (a, m) \<subseteq> block_set (x, n)"
      using block_set_nested [of n m ?b x a] b bg cidr_blocks_maximal [OF g] by simp
    then have "a = ?b"
      using greedy_block_set [OF g] bg by (auto simp: block_set_def)
    moreover have "unat (last_addr x n) = unat (last_addr ?b n)"
      using assms(1) by (simp add: unat_last_addr unat_first_addr)
    moreover have "first_addr ?b n = ?b"
      using assms(1) by (simp add: word_unat_eq_iff unat_first_addr)
    moreover have "last_addr x n \<in> block_set (x, n)"
      using b by (auto simp: block_set_def)
    ultimately have "fits a end n"
      using assms(2) unfolding fits_def by (metis (no_types, lifting) atLeastAtMost_iff in_mono word_unat_eq_iff)
    then show False
      using cidr_blocks_maximal [OF g] \<open>n < m\<close> by blast
  qed
  then have "block_set (x, n) \<subseteq> block_set (a, m)"
    using block_set_nested [of m n ?b a x] b bg assms(1) by simp
  with g show ?thesis
    by blast
qed

lemma cidr_blocks_minimal:
  assumes "\<forall>(a, m) \<in> set C. m \<le> 32" and "\<Union> (block_set ` set C) = {start .. end}"
  shows "length (cidr_blocks start end) \<le> length C"
proof -
  let ?G = "cidr_blocks start end"
  have "\<exists>g \<in> set ?G. block_set c \<subseteq> block_set g" if "c \<in> set C" for c
  proof (cases c)
    case (Pair a m)
    have "m \<le> 32" "block_set c \<subseteq> {start .. end}"
      using that assms(1) Pair by (auto simp flip: assms(2))
    then show ?thesis
      unfolding Pair by (intro block_in_greedy)
  qed
  then obtain \<phi> where \<phi>: "\<And>c. c \<in> set C \<Longrightarrow> \<phi> c \<in> set ?G \<and> block_set c \<subseteq> block_set (\<phi> c)"
    by metis
  have "set ?G \<subseteq> \<phi> ` set C"
  proof
    fix g assume g: "g \<in> set ?G"
    obtain a m where [simp]: "g = (a, m)"
      by (cases g)
    have "a \<in> \<Union> (block_set ` set ?G)"
      using g greedy_block_set(2) [of a m] by auto
    then have "a \<in> {start .. end}"
      by (simp only: cidr_blocks_cover)
    then have "a \<in> \<Union> (block_set ` set C)"
      by (simp only: assms(2))
    then obtain c where c: "c \<in> set C" "a \<in> block_set c"
      by blast
    then have "\<phi> c = g"
      using \<phi> [OF c(1)] g greedy_block_set [of a m] by (intro cidr_blocks_disjoint) auto
    with c show "g \<in> \<phi> ` set C"
      by blast
  qed
  then have "card (set ?G) \<le> card (set C)"
    by (meson card_image_le card_mono finite_imageI finite_set order_trans)
  then show ?thesis
    using cidr_blocks_distinct card_length [of C] by (simp add: distinct_card)
qed

section \<open>The text of the blocks\<close>

text \<open>
  What a CIDR text \<open>a.b.c.d/n\<close> denotes, read by the parser of \<open>Go_Net\<close> and not by the
  printer: the addresses that agree with \<open>a.b.c.d\<close> on the first \<open>n\<close> bits.
\<close>

definition cidr_addrs :: "string \<Rightarrow> u32 set" where
  "cidr_addrs t =
     (case split_on (CHR ''/'') t of
        [a, n] \<Rightarrow>
          (case parseIPv4 a of
             Some bs \<Rightarrow>
               (case (ipToUint bs :: (unit, u32) outcome) of
                  Ok v \<Rightarrow> {x. drop_bit (32 - undec n) x = drop_bit (32 - undec n) v}
                | _ \<Rightarrow> {})
           | None \<Rightarrow> {})
      | _ \<Rightarrow> {})"

lemma byte_parts:
  fixes s :: u32
  shows "ucast (drop_bit 24 (s AND 0xff000000)) = (ucast (drop_bit 24 s) :: byte)"
    and "ucast (drop_bit 16 (s AND 0x00ff0000)) = (ucast (drop_bit 16 s) :: byte)"
    and "ucast (drop_bit 8 (s AND 0x0000ff00)) = (ucast (drop_bit 8 s) :: byte)"
    and "ucast (s AND 0x000000ff) = (ucast s :: byte)"
proof -
  have m: "(0xff000000 :: u32) = push_bit 24 (mask 8)" "(0x00ff0000 :: u32) = push_bit 16 (mask 8)"
    "(0x0000ff00 :: u32) = push_bit 8 (mask 8)" "(0x000000ff :: u32) = mask 8"
    by (simp_all add: mask_eq_exp_minus_1 push_bit_eq_mult)
  show "ucast (drop_bit 24 (s AND 0xff000000)) = (ucast (drop_bit 24 s) :: byte)"
    and "ucast (drop_bit 16 (s AND 0x00ff0000)) = (ucast (drop_bit 16 s) :: byte)"
    and "ucast (drop_bit 8 (s AND 0x0000ff00)) = (ucast (drop_bit 8 s) :: byte)"
    and "ucast (s AND 0x000000ff) = (ucast s :: byte)"
    unfolding m by (rule bit_eqI, auto simp: bit_simps)+
qed

lemma bytes_recombine:
  fixes s :: u32
  shows "push_bit 24 (ucast (ucast (drop_bit 24 s) :: byte)) + push_bit 16 (ucast (ucast (drop_bit 16 s) :: byte))
    + push_bit 8 (ucast (ucast (drop_bit 8 s) :: byte)) + ucast (ucast s :: byte) = s"
proof -
  let ?a = "push_bit 24 (ucast (ucast (drop_bit 24 s) :: byte)) :: u32"
    and ?b = "push_bit 16 (ucast (ucast (drop_bit 16 s) :: byte)) :: u32"
    and ?c = "push_bit 8 (ucast (ucast (drop_bit 8 s) :: byte)) :: u32"
    and ?d = "ucast (ucast s :: byte) :: u32"
  have "?a + ?b = ?a OR ?b"
    by (rule disjunctive_add) (auto simp: bit_simps)
  moreover have "(?a OR ?b) + ?c = (?a OR ?b) OR ?c"
    by (rule disjunctive_add) (auto simp: bit_simps)
  moreover have "((?a OR ?b) OR ?c) + ?d = ((?a OR ?b) OR ?c) OR ?d"
    by (rule disjunctive_add) (auto simp: bit_simps)
  moreover have "((?a OR ?b) OR ?c) OR ?d = s"
  proof (rule bit_eqI)
    fix n assume "possible_bit TYPE(u32) n"
    consider "n < 8" | "8 \<le> n" "n < 16" | "16 \<le> n" "n < 24" | "24 \<le> n"
      by linarith
    then show "bit (((?a OR ?b) OR ?c) OR ?d) n = bit s n"
      using \<open>possible_bit TYPE(u32) n\<close> by cases (auto simp: bit_simps)
  qed
  ultimately show ?thesis
    by simp
qed

definition addr_bytes :: "u32 \<Rightarrow> ip" where
  "addr_bytes s = [ucast (drop_bit 24 s), ucast (drop_bit 16 s), ucast (drop_bit 8 s), ucast s]"

lemma ipToUint_addr_bytes: "ipToUint (addr_bytes s) = Ok s"
  by (simp add: ipToUint_def To4_def addr_bytes_def bytes_recombine)

lemma cidrFromIntMask_eq: "cidrFromIntMask s m = dotted (addr_bytes s) @ ''/'' @ format_uint m"
  by (simp add: cidrFromIntMask_def byte_parts ip_String_net_IPv4 addr_bytes_def)

lemma no_slash_format: "CHR ''/'' \<notin> set (format_uint m)"
  by (simp add: format_uint_def sep_notin_dec is_digit_def)

lemma no_slash_dotted: "CHR ''/'' \<notin> set (dotted bs)"
proof -
  have "CHR ''/'' \<notin> set (join ''.'' (map format_uint bs))"
  proof (induction bs)
    case (Cons b bs)
    then show ?case
      by (cases bs) (auto simp: no_slash_format)
  qed simp
  then show ?thesis
    by (simp add: dotted_def)
qed

lemmas no_slash = no_slash_format no_slash_dotted

lemma drop_bit_eq_iff: "drop_bit k x = drop_bit k y \<longleftrightarrow> unat x div 2 ^ k = unat y div 2 ^ k" for x y :: u32
  unfolding word_unat_eq_iff unat_drop_bit_eq by (simp add: drop_bit_eq_div)

lemma cidr_addrs_text:
  assumes "m \<le> 32"
  shows "cidr_addrs (cidrFromIntMask s m) = block_set (s, m)"
proof -
  have "split_on (CHR ''/'') (cidrFromIntMask s m) = [dotted (addr_bytes s), format_uint m]"
    by (simp add: cidrFromIntMask_eq split_on_append split_on_no_sep no_slash)
  moreover have "parseIPv4 (dotted (addr_bytes s)) = Some (addr_bytes s)"
    by (rule parseIPv4_dotted) (simp add: addr_bytes_def)
  ultimately have "cidr_addrs (cidrFromIntMask s m) = {x. drop_bit (block_bits m) x = drop_bit (block_bits m) s}"
    by (simp add: cidr_addrs_def ipToUint_addr_bytes format_uint_def block_bits_def)
  then show ?thesis
    using assms by (simp add: set_eq_iff in_block_set drop_bit_eq_iff)
qed

lemma cidrFromIntMask_inj: "cidrFromIntMask s m = cidrFromIntMask t n \<Longrightarrow> s = t \<and> m = n"
proof -
  assume "cidrFromIntMask s m = cidrFromIntMask t n"
  then have "split_on (CHR ''/'') (cidrFromIntMask s m) = split_on (CHR ''/'') (cidrFromIntMask t n)"
    by simp
  then have "dotted (addr_bytes s) = dotted (addr_bytes t)" "format_uint m = format_uint n"
    by (simp_all add: cidrFromIntMask_eq split_on_append split_on_no_sep no_slash)
  moreover from this have "addr_bytes s = addr_bytes t"
    by (intro dotted_inj) (simp_all add: addr_bytes_def)
  ultimately show ?thesis
    using ipToUint_addr_bytes by (metis format_uint_inj outcome.inject(1))
qed

lemma IPRangeToCIDRs_Ok:
  assumes "ipToUint (ipr_Start r) = (Ok start :: ('e, u32) outcome)"
    and "ipToUint (ipr_End r) = (Ok end :: ('e, u32) outcome)"
  shows "IPRangeToCIDRs r = (Ok (map (\<lambda>(s, m). cidrFromIntMask s m) (cidr_blocks start end)) :: ('e, string list) outcome)"
  using assms by (simp add: IPRangeToCIDRs_def cidr_loop_blocks)

lemma all_addresses_iff:
  "''0.0.0.0/0'' \<in> set (cidr_loop start end []) \<longleftrightarrow> start = 0 \<and> end = 0xffffffff"
proof -
  have zero: "''0.0.0.0/0'' = cidrFromIntMask 0 0"
    by (simp add: cidrFromIntMask_eq addr_bytes_def dotted_def format_uint_def dec.simps digit_char_simps)
  have "''0.0.0.0/0'' \<in> set (cidr_loop start end []) \<longleftrightarrow> (0, 0) \<in> set (cidr_blocks start end)"
    unfolding zero cidr_loop_blocks using cidrFromIntMask_inj by fastforce
  also have "\<dots> \<longleftrightarrow> start = 0 \<and> end = 0xffffffff"
  proof
    assume g: "(0, 0) \<in> set (cidr_blocks start end)"
    have "block_set (0, 0) = UNIV"
      by (auto simp: in_block_set block_bits_def div_eq_0_iff unat_u32_less)
    then have "{start .. end} = UNIV"
      using g cidr_blocks_cover [of start "end"] by auto
    then show "start = 0 \<and> end = 0xffffffff"
      unfolding max_u32 by (metis UNIV_I atLeastAtMost_iff word_le_0_iff word_order.extremum_unique)
  next
    assume se: "start = 0 \<and> end = 0xffffffff"
    then have "fits start end 0"
      by (simp add: fits_iff block_bits_def)
    have le: "start \<le> end"
      using se by simp
    have "widen start end 32 = 0"
    proof (rule ccontr)
      assume m: "widen start end 32 \<noteq> 0"
      then have "widen start end 32 - 1 \<le> 32"
        using widen_block(1) [OF le] by (simp add: word_le_nat_alt unat_minus_one)
      then show False
        using widen_block(3) [OF le m] fits_mono [OF \<open>fits start end 0\<close>] by simp
    qed
    then show "(0, 0) \<in> set (cidr_blocks start end)"
      using se by (subst cidr_blocks_step) auto
  qed
  finally show ?thesis .
qed

section \<open>Properties\<close>

text \<open>
  C5: for a range between two IPv4 addresses, \<open>IPRangeToCIDRs\<close> returns, and the blocks
  its texts denote are pairwise disjoint and together are exactly the addresses from the
  start to the end of the range: no address is opened that was not asked for, none is lost.
\<close>

theorem IPRangeToCIDRs_exact:
  assumes "ipToUint (ipr_Start r) = (Ok start :: (unit, u32) outcome)"
    and "ipToUint (ipr_End r) = (Ok end :: (unit, u32) outcome)"
  shows "\<exists>cs. IPRangeToCIDRs r = (Ok cs :: (unit, string list) outcome)
    \<and> \<Union> (cidr_addrs ` set cs) = {start .. end} \<and> distinct cs
    \<and> (\<forall>c \<in> set cs. \<forall>d \<in> set cs. c \<noteq> d \<longrightarrow> cidr_addrs c \<inter> cidr_addrs d = {})"
proof -
  let ?text = "\<lambda>b. cidrFromIntMask (fst b) (snd b)"
  let ?G = "cidr_blocks start end"
  have denotes: "cidr_addrs (?text b) = block_set b" if "b \<in> set ?G" for b
    using that cidr_blocks_maximal [of "fst b" "snd b" start "end"] cidr_addrs_text by simp
  have "\<Union> (cidr_addrs ` set (map ?text ?G)) = {start .. end}"
    using cidr_blocks_cover [of start "end"] denotes by simp
  moreover have "distinct (map ?text ?G)"
    using cidrFromIntMask_inj by (auto simp: distinct_map cidr_blocks_distinct inj_on_def prod_eq_iff)
  moreover have "cidr_addrs c \<inter> cidr_addrs d = {}"
    if cd: "c \<in> set (map ?text ?G)" "d \<in> set (map ?text ?G)" "c \<noteq> d" for c d
  proof -
    obtain g h where gh: "g \<in> set ?G" "c = ?text g" "h \<in> set ?G" "d = ?text h"
      using cd(1,2) by auto
    then show ?thesis
      using cd(3) cidr_blocks_disjoint [of g start "end" h] denotes by auto
  qed
  moreover have "IPRangeToCIDRs r = (Ok (map ?text ?G) :: (unit, string list) outcome)"
    using IPRangeToCIDRs_Ok [OF assms] by (simp add: case_prod_unfold)
  ultimately show ?thesis
    by blast
qed

theorem IPRangeToCIDRs_exact_witness:
  "\<exists>cs. IPRangeToCIDRs \<lparr>ipr_Start = [10, 0, 0, 1], ipr_End = [10, 0, 0, 2]\<rparr> = (Ok cs :: (unit, string list) outcome)
    \<and> \<Union> (cidr_addrs ` set cs) = {0x0a000001 .. 0x0a000002} \<and> distinct cs
    \<and> (\<forall>c \<in> set cs. \<forall>d \<in> set cs. c \<noteq> d \<longrightarrow> cidr_addrs c \<inter> cidr_addrs d = {})"
  by (rule IPRangeToCIDRs_exact) (simp_all add: ipToUint_def To4_def)

text \<open>
  C27: the conversion is optimal: no list of CIDR blocks, whatever their order or overlap,
  that denotes the same range is shorter than the one \<open>IPRangeToCIDRs\<close> returns.
\<close>

theorem IPRangeToCIDRs_fewest:
  assumes "ipToUint (ipr_Start r) = (Ok start :: (unit, u32) outcome)"
    and "ipToUint (ipr_End r) = (Ok end :: (unit, u32) outcome)"
    and "IPRangeToCIDRs r = (Ok cs :: (unit, string list) outcome)"
    and "\<forall>(a, m) \<in> set other. m \<le> 32"
    and "\<Union> (block_set ` set other) = {start .. end}"
  shows "length cs \<le> length other"
  using assms(3) IPRangeToCIDRs_Ok [OF assms(1,2)] cidr_blocks_minimal [OF assms(4,5)] by auto

theorem IPRangeToCIDRs_fewest_witness:
  "length [''10.0.0.2/31''] \<le> length [(0x0a000002 :: u32, 31 :: u32)]"
proof -
  let ?r = "\<lparr>ipr_Start = [10, 0, 0, 2], ipr_End = [10, 0, 0, 3]\<rparr>"
  have start: "ipToUint (ipr_Start ?r) = (Ok 0x0a000002 :: (unit, u32) outcome)"
    and fin: "ipToUint (ipr_End ?r) = (Ok 0x0a000003 :: (unit, u32) outcome)"
    by (simp_all add: ipToUint_def To4_def)
  have blocks: "cidr_blocks 0x0a000002 0x0a000003 = [(0x0a000002, 31)]"
    by (simp add: cidr_blocks.simps widen.simps first_addr_def last_addr_def bitMask_def)
  have "IPRangeToCIDRs ?r = (Ok [''10.0.0.2/31''] :: (unit, string list) outcome)"
    using IPRangeToCIDRs_Ok [OF start fin]
    by (simp add: blocks cidrFromIntMask_eq addr_bytes_def dotted_def format_uint_def dec.simps digit_char_simps)
  moreover have "\<Union> (block_set ` set [(0x0a000002, 31)]) = {0x0a000002 .. 0x0a000003}"
    using cidr_blocks_cover [of "0x0a000002" "0x0a000003"] by (simp add: blocks)
  ultimately show ?thesis
    by (intro IPRangeToCIDRs_fewest [OF start fin]) simp_all
qed

text \<open>
  \<open>IPRangeToCIDRs\<close> never returns an error; it panics exactly when one end of the range
  is not an IPv4 address, which includes the nil address that an unparsable string gives.
\<close>

theorem IPRangeToCIDRs_panics_iff:
  "((\<exists>msg. IPRangeToCIDRs r = (Panic msg :: ('e, string list) outcome))
     \<longleftrightarrow> To4 (ipr_Start r) = [] \<or> To4 (ipr_End r) = [])
   \<and> IPRangeToCIDRs r \<noteq> (Err e :: ('e, string list) outcome)"
proof -
  have ip: "(\<exists>v. ipToUint a = (Ok v :: ('e, u32) outcome) \<and> To4 a \<noteq> [])
      \<or> ipToUint a = (Panic ''runtime error: index out of range'' :: ('e, u32) outcome) \<and> To4 a = []" for a
    using To4_length [of a] by (auto simp: ipToUint_def length_Suc_conv numeral_eq_Suc)
  show ?thesis
    using ip [of "ipr_Start r"] ip [of "ipr_End r"] by (auto simp: IPRangeToCIDRs_def)
qed

end
