(* ===== verification/Go_Json.thy ===== *)
theory Go_Json
  imports Go_Strings
begin

text \<open>
  Go's \<open>encoding/json\<close> as winc uses it: a value type, the compact printer of \<open>json.Marshal\<close>
  (and of an \<open>Encoder\<close>, which adds a newline), the reader of \<open>json.Unmarshal\<close> and of a
  \<open>Decoder\<close> (which reads one value and leaves the rest), and the theorem that reading what
  was printed gives the value back. Numbers keep their literal, as the decoder sees it.
  Bytes above 127 are copied in both directions, so the model is of texts that are valid
  UTF-8: Go would replace other bytes by U+FFFD (and print U+2028 and U+2029 as escapes,
  which read back as the same characters).
\<close>

datatype json =
    JNull
  | JBool bool
  | JNum string
  | JStr string
  | JArr "json list"
  | JObj "(string \<times> json) list"

section \<open>Printing\<close>

definition hex4 :: "nat \<Rightarrow> string" where
  "hex4 n = [hex_char (n div 4096 mod 16), hex_char (n div 256 mod 16),
             hex_char (n div 16 mod 16), hex_char (n mod 16)]"

definition esc_char :: "char \<Rightarrow> string" where
  "esc_char c = (let n = (of_char c :: nat) in
     if n = 34 then [CHR 0x5C, CHR 0x22]
     else if n = 92 then [CHR 0x5C, CHR 0x5C]
     else if n = 8 then [CHR 0x5C, CHR ''b'']
     else if n = 12 then [CHR 0x5C, CHR ''f'']
     else if n = 10 then [CHR 0x5C, CHR ''n'']
     else if n = 13 then [CHR 0x5C, CHR ''r'']
     else if n = 9 then [CHR 0x5C, CHR ''t'']
     else if n < 32 \<or> n = 60 \<or> n = 62 \<or> n = 38 then [CHR 0x5C, CHR ''u''] @ hex4 n
     else [c])"

definition print_str :: "string \<Rightarrow> string" where
  "print_str s = CHR 0x22 # concat (map esc_char s) @ [CHR 0x22]"

fun print_json :: "json \<Rightarrow> string" where
  "print_json JNull = ''null''"
| "print_json (JBool b) = (if b then ''true'' else ''false'')"
| "print_json (JNum n) = n"
| "print_json (JStr s) = print_str s"
| "print_json (JArr vs) = ''['' @ join '','' (map print_json vs) @ '']''"
| "print_json (JObj kvs) =
     ''{'' @ join '','' (map (\<lambda>(k, v). print_str k @ '':'' @ print_json v) kvs) @ ''}''"

text \<open>\<open>Encoder.Encode\<close> appends a newline.\<close>

definition encode_json :: "json \<Rightarrow> string" where
  "encode_json v = print_json v @ [CHR 0x0A]"

section \<open>Reading\<close>

definition is_ws :: "char \<Rightarrow> bool" where
  "is_ws c \<longleftrightarrow> (of_char c :: nat) \<in> {32, 9, 10, 13}"

definition skip_ws :: "string \<Rightarrow> string" where
  "skip_ws s = dropWhile is_ws s"

definition is_num_char :: "char \<Rightarrow> bool" where
  "is_num_char c \<longleftrightarrow> is_digit c \<or> (of_char c :: nat) \<in> {43, 45, 46, 69, 101}"

definition valid_exp :: "string \<Rightarrow> bool" where
  "valid_exp s =
     (case s of
        [] \<Rightarrow> True
      | c # r \<Rightarrow>
          (c = CHR ''e'' \<or> c = CHR ''E'')
          \<and> all_digits (case r of [] \<Rightarrow> [] | d # r' \<Rightarrow> if d = CHR ''+'' \<or> d = CHR ''-'' then r' else r))"

definition valid_num :: "string \<Rightarrow> bool" where
  "valid_num s =
     (let s1 = (case s of [] \<Rightarrow> [] | c # r \<Rightarrow> if c = CHR ''-'' then r else s);
          ip = takeWhile is_digit s1;
          r = dropWhile is_digit s1
      in ip \<noteq> [] \<and> (hd ip = CHR ''0'' \<longrightarrow> length ip = 1)
         \<and> (case r of
              [] \<Rightarrow> True
            | c # r' \<Rightarrow>
                if c = CHR ''.'' then takeWhile is_digit r' \<noteq> [] \<and> valid_exp (dropWhile is_digit r')
                else valid_exp r))"

definition hex_digit_val :: "char \<Rightarrow> nat option" where
  "hex_digit_val c = (let n = (of_char c :: nat) in
     if 48 \<le> n \<and> n \<le> 57 then Some (n - 48)
     else if 97 \<le> n \<and> n \<le> 102 then Some (n - 87)
     else if 65 \<le> n \<and> n \<le> 70 then Some (n - 55)
     else None)"

definition hex4_val :: "char \<Rightarrow> char \<Rightarrow> char \<Rightarrow> char \<Rightarrow> nat option" where
  "hex4_val a b c d =
     (case (hex_digit_val a, hex_digit_val b, hex_digit_val c, hex_digit_val d) of
        (Some w, Some x, Some y, Some z) \<Rightarrow> Some (w * 4096 + x * 256 + y * 16 + z)
      | _ \<Rightarrow> None)"

text \<open>The UTF-8 bytes of a code point below 0x10000; surrogates become U+FFFD.\<close>

definition utf8 :: "nat \<Rightarrow> string" where
  "utf8 n =
     (if n < 128 then [char_of n]
      else if n < 2048 then [char_of (192 + n div 64), char_of (128 + n mod 64)]
      else let m = (if 0xD800 \<le> n \<and> n \<le> 0xDFFF then 0xFFFD else n)
           in [char_of (224 + m div 4096), char_of (128 + m div 64 mod 64), char_of (128 + m mod 64)])"

definition utf8_pair :: "nat \<Rightarrow> nat \<Rightarrow> string" where
  "utf8_pair hi lo =
     (let n = 0x10000 + (hi - 0xD800) * 1024 + (lo - 0xDC00)
      in [char_of (240 + n div 262144), char_of (128 + n div 4096 mod 64),
          char_of (128 + n div 64 mod 64), char_of (128 + n mod 64)])"

text \<open>What follows \<open>\\u\<close>: four hexadecimal digits, or two escapes that form a surrogate pair.\<close>

definition low_surrogate :: "string \<Rightarrow> (nat \<times> string) option" where
  "low_surrogate s =
     (case s of
        q # u # a # b # c # d # r \<Rightarrow>
          (if q = CHR 0x5C \<and> u = CHR ''u'' then
             (case hex4_val a b c d of
                Some n \<Rightarrow> if 0xDC00 \<le> n \<and> n \<le> 0xDFFF then Some (n, r) else None
              | None \<Rightarrow> None)
           else None)
      | _ \<Rightarrow> None)"

definition unicode_escape :: "string \<Rightarrow> (string \<times> string) option" where
  "unicode_escape s =
     (case s of
        a # b # c # d # r \<Rightarrow>
          (case hex4_val a b c d of
             None \<Rightarrow> None
           | Some n \<Rightarrow>
               (case (if 0xD800 \<le> n \<and> n \<le> 0xDBFF then low_surrogate r else None) of
                  Some (lo, r') \<Rightarrow> Some (utf8_pair n lo, r')
                | None \<Rightarrow> Some (utf8 n, r)))
      | _ \<Rightarrow> None)"

lemma unicode_escape_shorter [termination_simp]:
  "unicode_escape s = Some (t, r) \<Longrightarrow> length r < Suc (Suc (length s))"
  by (auto simp: unicode_escape_def low_surrogate_def split: list.splits option.splits if_splits)

text \<open>The rest of a string literal after its opening quote.\<close>

fun parse_str :: "string \<Rightarrow> (string \<times> string) option" where
  "parse_str [] = None"
| "parse_str (c # s) =
     (if c = CHR 0x22 then Some ([], s)
      else if c = CHR 0x5C then
        (case s of
           [] \<Rightarrow> None
         | e # s1 \<Rightarrow>
             if e = CHR ''u'' then
               (case unicode_escape s1 of
                  None \<Rightarrow> None
                | Some (bs, s2) \<Rightarrow> map_option (\<lambda>(t, r). (bs @ t, r)) (parse_str s2))
             else
               (case (if e = CHR 0x22 then Some (CHR 0x22)
                      else if e = CHR 0x5C then Some (CHR 0x5C)
                      else if e = CHR ''/'' then Some (CHR ''/'')
                      else if e = CHR ''b'' then Some (CHR 0x08)
                      else if e = CHR ''f'' then Some (CHR 0x0C)
                      else if e = CHR ''n'' then Some (CHR 0x0A)
                      else if e = CHR ''r'' then Some (CHR 0x0D)
                      else if e = CHR ''t'' then Some (CHR 0x09)
                      else None) of
                  None \<Rightarrow> None
                | Some d \<Rightarrow> map_option (\<lambda>(t, r). (d # t, r)) (parse_str s1)))
      else if (of_char c :: nat) < 32 then None
      else map_option (\<lambda>(t, r). (c # t, r)) (parse_str s))"

text \<open>
  Values, array elements and object members. The fuel bounds the nesting of calls; a
  text of length \<open>n\<close> never needs more than \<open>2 n + 2\<close>, which is what \<open>decode_json\<close> gives.
\<close>

fun parse_value :: "nat \<Rightarrow> string \<Rightarrow> (json \<times> string) option"
  and parse_elems :: "nat \<Rightarrow> string \<Rightarrow> (json list \<times> string) option"
  and parse_members :: "nat \<Rightarrow> string \<Rightarrow> ((string \<times> json) list \<times> string) option" where
  "parse_value 0 s = None"
| "parse_value (Suc n) s =
     (case skip_ws s of
        [] \<Rightarrow> None
      | c # r \<Rightarrow>
          if c = CHR ''n'' then
            (if take 3 r = ''ull'' then Some (JNull, drop 3 r) else None)
          else if c = CHR ''t'' then
            (if take 3 r = ''rue'' then Some (JBool True, drop 3 r) else None)
          else if c = CHR ''f'' then
            (if take 4 r = ''alse'' then Some (JBool False, drop 4 r) else None)
          else if c = CHR 0x22 then map_option (\<lambda>(t, r'). (JStr t, r')) (parse_str r)
          else if c = CHR ''['' then
            (case skip_ws r of
               [] \<Rightarrow> None
             | d # r' \<Rightarrow> if d = CHR '']'' then Some (JArr [], r')
                         else map_option (\<lambda>(vs, r'). (JArr vs, r')) (parse_elems n r))
          else if c = CHR ''{'' then
            (case skip_ws r of
               [] \<Rightarrow> None
             | d # r' \<Rightarrow> if d = CHR ''}'' then Some (JObj [], r')
                         else map_option (\<lambda>(kvs, r'). (JObj kvs, r')) (parse_members n r))
          else (let num = takeWhile is_num_char (c # r)
                in if valid_num num then Some (JNum num, dropWhile is_num_char (c # r)) else None))"
| "parse_elems 0 s = None"
| "parse_elems (Suc n) s =
     (case parse_value n s of
        None \<Rightarrow> None
      | Some (v, r) \<Rightarrow>
          (case skip_ws r of
             [] \<Rightarrow> None
           | d # r' \<Rightarrow>
               if d = CHR '']'' then Some ([v], r')
               else if d = CHR '','' then map_option (\<lambda>(vs, t). (v # vs, t)) (parse_elems n r')
               else None))"
| "parse_members 0 s = None"
| "parse_members (Suc n) s =
     (case skip_ws s of
        [] \<Rightarrow> None
      | q # r0 \<Rightarrow>
          if q \<noteq> CHR 0x22 then None
          else
            (case parse_str r0 of
               None \<Rightarrow> None
             | Some (k, r1) \<Rightarrow>
                 (case skip_ws r1 of
                    [] \<Rightarrow> None
                  | e # r2 \<Rightarrow>
                      if e \<noteq> CHR '':'' then None
                      else
                        (case parse_value n r2 of
                           None \<Rightarrow> None
                         | Some (v, r) \<Rightarrow>
                             (case skip_ws r of
                                [] \<Rightarrow> None
                              | d # r' \<Rightarrow>
                                  if d = CHR ''}'' then Some ([(k, v)], r')
                                  else if d = CHR '','' then
                                    map_option (\<lambda>(kvs, t). ((k, v) # kvs, t)) (parse_members n r')
                                  else None)))))"

text \<open>
  \<open>Decoder.Decode\<close>: the first value of the text and what is left. \<open>json.Unmarshal\<close>
  additionally wants nothing but white space after it.
\<close>

definition decode_json :: "string \<Rightarrow> (json \<times> string) option" where
  "decode_json s = parse_value (2 * length s + 2) s"

definition unmarshal_json :: "string \<Rightarrow> json option" where
  "unmarshal_json s =
     (case decode_json s of
        None \<Rightarrow> None
      | Some (v, r) \<Rightarrow> if skip_ws r = [] then Some v else None)"

section \<open>Reading a printed value\<close>

text \<open>The values a Go program prints: number literals are well-formed.\<close>

fun wf_json :: "json \<Rightarrow> bool" where
  "wf_json (JNum n) = valid_num n"
| "wf_json (JArr vs) = list_all wf_json vs"
| "wf_json (JObj kvs) = list_all (\<lambda>(k, v). wf_json v) kvs"
| "wf_json _ = True"

lemma hex_char_val: "d < 16 \<Longrightarrow> hex_digit_val (hex_char d) = Some d"
  by (auto simp: hex_digit_val_def hex_char_def Let_def)

lemma hex4_roundtrip: "n < 256 \<Longrightarrow> \<exists>a b c d. hex4 n = [a, b, c, d] \<and> hex4_val a b c d = Some n"
  by (simp add: hex4_def hex4_val_def hex_char_val)

lemma unicode_escape_hex4: "n < 128 \<Longrightarrow> unicode_escape (hex4 n @ r) = Some ([char_of n], r)"
  using hex4_roundtrip [of n] by (auto simp: unicode_escape_def utf8_def)

lemma char_codes:
  "((of_char c :: nat) = 8) = (c = CHR 0x08)"
  "((of_char c :: nat) = 9) = (c = CHR 0x09)"
  "((of_char c :: nat) = 10) = (c = CHR 0x0A)"
  "((of_char c :: nat) = 12) = (c = CHR 0x0C)"
  "((of_char c :: nat) = 13) = (c = CHR 0x0D)"
  "((of_char c :: nat) = 34) = (c = CHR 0x22)"
  "((of_char c :: nat) = 92) = (c = CHR 0x5C)"
  "((of_char c :: nat) = 60) = (c = char_of (60 :: nat))"
  "((of_char c :: nat) = 62) = (c = char_of (62 :: nat))"
  "((of_char c :: nat) = 38) = (c = char_of (38 :: nat))"
  by (auto simp flip: of_char_eq_iff [where 'a = nat])

lemma parse_str_esc: "parse_str (esc_char c @ s) = map_option (\<lambda>(t, r). (c # t, r)) (parse_str s)"
  unfolding esc_char_def Let_def char_codes
  by (auto simp: unicode_escape_hex4 char_codes split: option.splits)

lemma parse_str_print: "parse_str (concat (map esc_char s) @ CHR 0x22 # r) = Some (s, r)"
  by (induction s) (simp_all add: parse_str_esc del: parse_str.simps(2), simp)

lemma esc_char_nonempty [simp]: "esc_char c \<noteq> []"
  by (simp add: esc_char_def Let_def)

lemma skip_ws_Cons: "skip_ws (c # s) = (if is_ws c then skip_ws s else c # s)"
  by (simp add: skip_ws_def)

lemma skip_ws_Nil [simp]: "skip_ws [] = []"
  by (simp add: skip_ws_def)

text \<open>The text after a value never continues a number.\<close>

definition stops :: "string \<Rightarrow> bool" where
  "stops r \<longleftrightarrow> (case r of [] \<Rightarrow> True | c # _ \<Rightarrow> \<not> is_num_char c)"

lemma valid_num_chars: "valid_num n \<Longrightarrow> list_all is_num_char n"
proof -
  have exp: "valid_exp e \<Longrightarrow> list_all is_num_char e" for e
    by (auto simp: valid_exp_def all_digits_def is_num_char_def list_all_iff split: list.splits if_splits)
  have tw: "list_all is_num_char (takeWhile is_digit t)" for t
    by (auto simp: list_all_iff is_num_char_def dest: set_takeWhileD)
  have split: "list_all is_num_char (takeWhile is_digit t) \<Longrightarrow> list_all is_num_char (dropWhile is_digit t)
      \<Longrightarrow> list_all is_num_char t" for t
    by (metis list_all_append takeWhile_dropWhile_id)
  assume v: "valid_num n"
  define s1 where "s1 = (case n of [] \<Rightarrow> [] | c # r \<Rightarrow> if c = CHR ''-'' then r else n)"
  define r where "r = dropWhile is_digit s1"
  have "list_all is_num_char r"
  proof (cases r)
    case (Cons c r')
    show ?thesis
    proof (cases "c = CHR ''.''")
      case True
      then have "valid_exp (dropWhile is_digit r')"
        using v Cons by (simp add: valid_num_def Let_def s1_def [symmetric] r_def [symmetric])
      then have "list_all is_num_char r'"
        by (rule split [OF tw exp])
      with Cons True show ?thesis
        by (simp add: is_num_char_def)
    next
      case False
      then have "valid_exp r"
        using v Cons by (simp add: valid_num_def Let_def s1_def [symmetric] r_def [symmetric])
      then show ?thesis
        by (rule exp)
    qed
  qed simp
  then have "list_all is_num_char s1"
    using tw split by (auto simp: r_def)
  then show ?thesis
    by (auto simp: s1_def is_num_char_def split: list.splits if_splits)
qed

lemma valid_num_nonempty: "valid_num n \<Longrightarrow> n \<noteq> []"
  by (auto simp: valid_num_def Let_def)

lemma num_span:
  assumes "valid_num n" and "stops r"
  shows "takeWhile is_num_char (n @ r) = n" and "dropWhile is_num_char (n @ r) = r"
proof -
  have "\<forall>c \<in> set n. is_num_char c"
    using valid_num_chars [OF assms(1)] by (simp add: list_all_iff)
  moreover have "takeWhile is_num_char r = []" "dropWhile is_num_char r = r"
    using assms(2) by (auto simp: stops_def split: list.splits)
  ultimately show "takeWhile is_num_char (n @ r) = n" and "dropWhile is_num_char (n @ r) = r"
    by (simp_all add: takeWhile_append2 dropWhile_append2)
qed

lemma valid_num_hd: "valid_num n \<Longrightarrow> is_digit (hd n) \<or> hd n = CHR ''-''"
  by (cases n) (auto simp: valid_num_def Let_def split: if_splits)

lemma valid_num_dec [simp]: "valid_num (dec n)"
proof -
  obtain c r where d: "dec n = c # r"
    by (cases "dec n") auto
  have "list_all is_digit (dec n)"
    by (rule dec_digits)
  then have tw: "takeWhile is_digit (dec n) = dec n" "dropWhile is_digit (dec n) = []"
    by (auto simp: list_all_iff takeWhile_eq_all_conv)
  moreover have "c \<noteq> CHR ''-''"
    using d hd_dec_digit [of n] digit_not_sign by (metis list.sel(1))
  moreover have "c = CHR ''0'' \<longrightarrow> length (dec n) = 1"
    using d dec_no_leading_zero [of n] by (cases r) auto
  ultimately show ?thesis
    by (auto simp: valid_num_def Let_def d split: if_splits)
qed

lemma print_json_hd:
  assumes "wf_json j"
  shows "\<exists>c t. print_json j = c # t \<and> \<not> is_ws c \<and> c \<noteq> CHR '']'' \<and> c \<noteq> CHR ''}''"
proof (cases j)
  case (JNum n)
  then have v: "valid_num n"
    using assms by simp
  obtain c t where n: "n = c # t"
    using valid_num_nonempty [OF v] by (cases n) auto
  have "is_digit c \<or> c = CHR ''-''"
    using valid_num_hd [OF v] n by simp
  then have "\<not> is_ws c \<and> c \<noteq> CHR '']'' \<and> c \<noteq> CHR ''}''"
    by (auto simp: is_digit_def is_ws_def)
  with JNum n show ?thesis
    by simp
qed (simp_all add: is_ws_def print_str_def)

lemma print_json_length: "wf_json j \<Longrightarrow> 1 \<le> length (print_json j)"
  using print_json_hd by fastforce

lemma stops_simps [simp]:
  "stops []" "stops (CHR '']'' # r)" "stops (CHR ''}'' # r)" "stops (CHR '','' # r)" "stops (CHR 0x0A # r)"
  by (simp_all add: stops_def is_num_char_def is_digit_def)

lemma ws_literals [simp]:
  "\<not> is_ws (CHR '']'')" "\<not> is_ws (CHR ''}'')" "\<not> is_ws (CHR '','')" "\<not> is_ws (CHR '':'')"
  "\<not> is_ws (CHR 0x22)" "is_ws (CHR 0x0A)"
  by (simp_all add: is_ws_def)

definition reads_back :: "json \<Rightarrow> bool" where
  "reads_back j \<longleftrightarrow> (\<forall>n r. stops r \<longrightarrow> 2 * length (print_json j) \<le> n \<longrightarrow>
     parse_value n (print_json j @ r) = Some (j, r))"

lemma reads_backI:
  assumes "\<And>m r. stops r \<Longrightarrow> 2 * length (print_json j) \<le> Suc m \<Longrightarrow>
      parse_value (Suc m) (print_json j @ r) = Some (j, r)"
    and "print_json j \<noteq> []"
  shows "reads_back j"
  unfolding reads_back_def
proof (intro allI impI)
  fix n r assume "stops r" and n: "2 * length (print_json j) \<le> n"
  moreover obtain m where "n = Suc m"
    using n assms(2) by (cases n) auto
  ultimately show "parse_value n (print_json j @ r) = Some (j, r)"
    using assms(1) by simp
qed

lemma parse_elems_print:
  assumes "\<forall>v \<in> set vs. reads_back v" and "vs \<noteq> []"
    and "2 * length (join '','' (map print_json vs)) + 1 \<le> n"
  shows "parse_elems n (join '','' (map print_json vs) @ CHR '']'' # r) = Some (vs, r)"
  using assms
proof (induction vs arbitrary: n)
  case (Cons v vs)
  obtain m where n: "n = Suc m"
    using Cons.prems(3) by (cases n) auto
  show ?case
  proof (cases "vs = []")
    case True
    then show ?thesis
      using Cons.prems n by (simp add: reads_back_def skip_ws_Cons)
  next
    case False
    let ?rest = "join '','' (map print_json vs) @ CHR '']'' # r"
    have j: "join '','' (map print_json (v # vs)) = print_json v @ CHR '','' # join '','' (map print_json vs)"
      using False by (simp add: join_Cons)
    have "parse_value m (print_json v @ CHR '','' # ?rest) = Some (v, CHR '','' # ?rest)"
      using Cons.prems(1,3) n j by (simp add: reads_back_def)
    moreover have "parse_elems m ?rest = Some (vs, r)"
      using Cons.prems(1,3) n j False by (intro Cons.IH) auto
    ultimately show ?thesis
      using n j by (simp add: skip_ws_Cons)
  qed
qed simp

abbreviation print_member :: "string \<times> json \<Rightarrow> string" where
  "print_member kv \<equiv> (case kv of (k, v) \<Rightarrow> print_str k @ '':'' @ print_json v)"

lemma parse_members_print:
  assumes "\<forall>(k, v) \<in> set kvs. reads_back v" and "kvs \<noteq> []"
    and "2 * length (join '','' (map print_member kvs)) + 1 \<le> n"
  shows "parse_members n (join '','' (map print_member kvs) @ CHR ''}'' # r) = Some (kvs, r)"
  using assms
proof (induction kvs arbitrary: n)
  case (Cons kv kvs)
  obtain k v where kv: "kv = (k, v)"
    by (cases kv)
  obtain m where n: "n = Suc m"
    using Cons.prems(3) by (cases n) auto
  have rb: "reads_back v"
    using Cons.prems(1) kv by simp
  show ?case
  proof (cases "kvs = []")
    case True
    then show ?thesis
      using Cons.prems(3) n rb
      by (simp add: kv print_str_def reads_back_def skip_ws_Cons parse_str_print)
  next
    case False
    let ?rest = "join '','' (map print_member kvs) @ CHR ''}'' # r"
    have j: "join '','' (map print_member (kv # kvs)) =
        print_member kv @ CHR '','' # join '','' (map print_member kvs)"
      using False by (simp add: join_Cons)
    have "parse_value m (print_json v @ CHR '','' # ?rest) = Some (v, CHR '','' # ?rest)"
      using Cons.prems(3) n j rb by (simp add: reads_back_def kv)
    moreover have "parse_members m ?rest = Some (kvs, r)"
      using Cons.prems(1,3) n j False by (intro Cons.IH) (auto simp: kv)
    ultimately show ?thesis
      unfolding n j by (simp add: kv print_str_def skip_ws_Cons parse_str_print)
  qed
qed simp

lemma reads_back_JNum:
  assumes v: "valid_num x"
  shows "reads_back (JNum x)"
proof -
  obtain c t where x: "x = c # t"
    using valid_num_nonempty [OF v] by (cases x) auto
  have c: "is_digit c \<or> c = CHR ''-''"
    using valid_num_hd [OF v] x by simp
  then have "c \<noteq> CHR ''n'' \<and> c \<noteq> CHR ''t'' \<and> c \<noteq> CHR ''f'' \<and> c \<noteq> CHR 0x22 \<and> c \<noteq> CHR ''[''
      \<and> c \<noteq> CHR ''{'' \<and> \<not> is_ws c"
    by (auto simp: is_digit_def is_ws_def)
  then show ?thesis
    using num_span [OF v] v by (intro reads_backI) (simp_all add: skip_ws_Cons x)
qed

lemma reads_back_JArr:
  assumes all: "\<forall>v \<in> set vs. reads_back v" and wf: "wf_json (JArr vs)"
  shows "reads_back (JArr vs)"
proof (rule reads_backI)
  fix m r assume n: "2 * length (print_json (JArr vs)) \<le> Suc m"
  show "parse_value (Suc m) (print_json (JArr vs) @ r) = Some (JArr vs, r)"
  proof (cases vs)
    case (Cons v ws)
    have "wf_json v"
      using wf Cons by simp
    then obtain c t where "print_json v = c # t" "\<not> is_ws c" "c \<noteq> CHR '']''"
      using print_json_hd by blast
    then obtain t' where hd: "join '','' (map print_json vs) @ CHR '']'' # r = c # t'"
      "\<not> is_ws c" "c \<noteq> CHR '']''"
      using Cons by (cases ws) auto
    have "parse_elems m (join '','' (map print_json vs) @ CHR '']'' # r) = Some (vs, r)"
      using n Cons by (intro parse_elems_print [OF all]) auto
    then show ?thesis
      using hd by (simp add: skip_ws_Cons is_ws_def)
  qed (simp add: skip_ws_Cons is_ws_def)
qed simp

lemma reads_back_JObj:
  assumes all: "\<forall>(k, v) \<in> set kvs. reads_back v"
  shows "reads_back (JObj kvs)"
proof (rule reads_backI)
  fix m r assume n: "2 * length (print_json (JObj kvs)) \<le> Suc m"
  show "parse_value (Suc m) (print_json (JObj kvs) @ r) = Some (JObj kvs, r)"
  proof (cases kvs)
    case (Cons kv ws)
    then obtain t' where hd: "join '','' (map print_member kvs) @ CHR ''}'' # r = CHR 0x22 # t'"
      by (cases ws; cases kv) (auto simp: print_str_def)
    have "parse_members m (join '','' (map print_member kvs) @ CHR ''}'' # r) = Some (kvs, r)"
      using n Cons by (intro parse_members_print [OF all]) auto
    then show ?thesis
      using hd by (simp add: skip_ws_Cons is_ws_def)
  qed (simp add: skip_ws_Cons is_ws_def)
qed simp

lemma reads_back_print: "wf_json j \<Longrightarrow> reads_back j"
proof (induction j)
  case (JNum x)
  then show ?case
    by (simp add: reads_back_JNum)
next
  case (JArr vs)
  then show ?case
    by (intro reads_back_JArr) (auto simp: list_all_iff)
next
  case (JObj kvs)
  then show ?case
    by (intro reads_back_JObj) (fastforce simp: list_all_iff)
qed (rule reads_backI; simp add: print_str_def skip_ws_Cons is_ws_def parse_str_print)+

text \<open>
  A decoder that reads a printed value returns it and leaves the rest, whatever follows;
  \<open>Unmarshal\<close> of a marshalled value is the value.
\<close>

lemma decode_print:
  "wf_json j \<Longrightarrow> stops r \<Longrightarrow> decode_json (print_json j @ r) = Some (j, r)"
  unfolding decode_json_def
  by (rule reads_back_print [unfolded reads_back_def, rule_format]) simp_all

lemma unmarshal_print: "wf_json j \<Longrightarrow> unmarshal_json (print_json j) = Some j"
  using decode_print [of j "[]"] by (simp add: unmarshal_json_def)

lemma decode_encode: "wf_json j \<Longrightarrow> decode_json (encode_json j @ r) = Some (j, CHR 0x0A # r)"
  using decode_print [of j "CHR 0x0A # r"] by (simp add: encode_json_def)

lemma unmarshal_encode: "wf_json j \<Longrightarrow> unmarshal_json (encode_json j) = Some j"
  using decode_encode [of j "[]"] by (simp add: unmarshal_json_def skip_ws_Cons)

lemma decode_empty: "skip_ws s = [] \<Longrightarrow> decode_json s = None"
  by (simp add: decode_json_def)

end
