(* ===== verification/Winc_Errors.thy ===== *)
theory Winc_Errors
  imports Go_Strings
begin

text \<open>
  The error values of winc and of the libraries it calls. Each package's error structs
  are a datatype with the package's \<open>Error()\<close> method as a function on it; the type
  \<open>error\<close> is the interface value that any of them is stored in, so that a type assertion
  \<open>err.(*T)\<close> of the source is a pattern match. Errors of libraries and of Windows
  appear with what the code looks at: their dynamic type, their code, their text.
\<close>

section \<open>Package hcs\<close>

datatype hcs_error =
    NotFoundError string
  | DuplicateError string
  | LowMemoryError

fun hcs_error_Error :: "hcs_error \<Rightarrow> string" where
  "hcs_error_Error (NotFoundError i) = ''container not found: '' @ i"
| "hcs_error_Error (DuplicateError i) = ''multiple containers found with the same id: '' @ i"
| "hcs_error_Error LowMemoryError = ''not enough memory''"

section \<open>Package runtime/container\<close>

datatype container_error =
    AlreadyExistsError string
  | InvalidIdError string
  | MissingVolumePathError string
  | CouldNotCreateProcessError string string
  | InvalidMountOptionsError string "string list"

text \<open>\<open>%+v\<close> of a string slice: the elements between brackets, separated by spaces.\<close>

definition fmt_strings :: "string list \<Rightarrow> string" where
  "fmt_strings xs = ''['' @ join '' '' xs @ '']''"

fun container_error_Error :: "container_error \<Rightarrow> string" where
  "container_error_Error (AlreadyExistsError i) = ''container with id already exists: '' @ i"
| "container_error_Error (InvalidIdError i) =
     ''container id does not match bundle directory name: '' @ i"
| "container_error_Error (MissingVolumePathError i) =
     ''could not get volume path for container: '' @ i"
| "container_error_Error (CouldNotCreateProcessError i cmd) =
     ''could not start command '' @ [CHR 0x27] @ cmd @ [CHR 0x27] @ '' in container: '' @ i"
| "container_error_Error (InvalidMountOptionsError i opts) =
     ''invalid mount options for container '' @ i @ '': '' @ fmt_strings opts"

section \<open>Package runtime/config\<close>

definition SpecConfig :: string where
  "SpecConfig = ''config.json''"

datatype config_error =
    MissingBundleError string
  | MissingBundleConfigError string
  | MissingProcessConfigError string
  | BundleConfigInvalidJSONError string string
  | ProcessConfigInvalidJSONError string string
  | BundleConfigInvalidEncodingError string
  | ProcessConfigInvalidEncodingError string
  | BundleConfigValidationError string "string list"
  | ProcessConfigValidationError "string list"

definition indented :: "string list \<Rightarrow> string" where
  "indented ms = concat (map (\<lambda>m. [CHR 0x0A, CHR 0x09] @ m) ms)"

fun config_error_Error :: "config_error \<Rightarrow> string" where
  "config_error_Error (MissingBundleError p) = ''bundle does not exist: '' @ p"
| "config_error_Error (MissingBundleConfigError p) =
     ''bundle '' @ SpecConfig @ '' does not exist: '' @ p"
| "config_error_Error (MissingProcessConfigError p) = ''process config does not exist: '' @ p"
| "config_error_Error (BundleConfigInvalidJSONError p e) =
     ''bundle '' @ SpecConfig @ '' contains invalid JSON: '' @ p @ '': '' @ e"
| "config_error_Error (ProcessConfigInvalidJSONError p e) =
     ''process config contains invalid JSON: '' @ p @ '': '' @ e"
| "config_error_Error (BundleConfigInvalidEncodingError p) =
     ''bundle '' @ SpecConfig @ '' not encoded in UTF-8: '' @ p"
| "config_error_Error (ProcessConfigInvalidEncodingError p) =
     ''process config is not encoded in UTF-8: '' @ p"
| "config_error_Error (BundleConfigValidationError p ms) =
     ''bundle '' @ SpecConfig @ '' is invalid: '' @ p @ '':'' @ indented ms"
| "config_error_Error (ProcessConfigValidationError ms) =
     ''process config is invalid:'' @ indented ms"

section \<open>Package network\<close>

text \<open>\<open>hcsshim.Subnet\<close>, with the fields winc reads and writes.\<close>

record Subnet =
  AddressPrefix :: string
  GatewayAddress :: string

datatype network_error =
    NoNATNetworkError string
  | SameNATNetworkNameError string "Subnet list"

text \<open>\<open>%+v\<close> of a slice of subnets; the raw policies of a subnet print as an empty list.\<close>

definition fmt_subnet :: "Subnet \<Rightarrow> string" where
  "fmt_subnet s =
     ''{AddressPrefix:'' @ AddressPrefix s @ '' GatewayAddress:'' @ GatewayAddress s @ '' Policies:[]}''"

fun network_error_Error :: "network_error \<Rightarrow> string" where
  "network_error_Error (NoNATNetworkError n) = ''could not load nat network: '' @ n"
| "network_error_Error (SameNATNetworkNameError n ss) =
     ''nat network '' @ n @ '' exists with subnets '' @ fmt_strings (map fmt_subnet ss)"

section \<open>Package network/netinterface\<close>

datatype netinterface_error =
    InterfaceNotFoundError string "32 word"
  | InterfaceForIPNotFoundError string

fun netinterface_error_Error :: "netinterface_error \<Rightarrow> string" where
  "netinterface_error_Error (InterfaceNotFoundError n i) =
     ''interface with name: '' @ n @ '', index: '' @ format_uint i @ '' not found''"
| "netinterface_error_Error (InterfaceForIPNotFoundError a) = ''interface for ip '' @ a @ '' not found''"

section \<open>The error interface\<close>

text \<open>
  \<open>Errorf\<close> is what \<open>fmt.Errorf\<close> and \<open>errors.New\<close> make, \<open>Wrapped\<close> what \<open>errors.Wrap\<close> makes.
  \<open>Errno\<close> is \<open>syscall.Errno\<close> with its system message, \<open>ShimContainerError\<close> is
  \<open>*hcsshim.ContainerError\<close> with the error inside and its own text, \<open>PathError\<close> a failed
  file operation, \<open>JsonError\<close> a decoding error, \<open>OtherError\<close> any other error of a library.
\<close>

datatype error =
    HcsError hcs_error
  | ContainerError container_error
  | ConfigError config_error
  | NetworkError network_error
  | NetInterfaceError netinterface_error
  | InvalidLogFormatError string
  | Errorf string
  | Wrapped error string
  | Errno "32 word" string
  | ShimContainerError error string
  | NetworkNotFoundError string
  | EndpointNotFoundError string
  | NotExistError string
  | PathError string
  | JsonError string
  | OtherError string

fun Error :: "error \<Rightarrow> string" where
  "Error (HcsError e) = hcs_error_Error e"
| "Error (ContainerError e) = container_error_Error e"
| "Error (ConfigError e) = config_error_Error e"
| "Error (NetworkError e) = network_error_Error e"
| "Error (NetInterfaceError e) = netinterface_error_Error e"
| "Error (InvalidLogFormatError f) = ''invalid log format '' @ f"
| "Error (Errorf m) = m"
| "Error (Wrapped e m) = m @ '': '' @ Error e"
| "Error (Errno c m) = m"
| "Error (ShimContainerError e m) = m"
| "Error (NetworkNotFoundError n) = ''Network '' @ n @ '' not found''"
| "Error (EndpointNotFoundError n) = ''Endpoint '' @ n @ '' not found''"
| "Error (NotExistError m) = m"
| "Error (PathError m) = m"
| "Error (JsonError m) = m"
| "Error (OtherError m) = m"

text \<open>\<open>errors.Cause\<close>: the error under every \<open>errors.Wrap\<close>.\<close>

fun Cause :: "error \<Rightarrow> error" where
  "Cause (Wrapped e m) = Cause e"
| "Cause e = e"

definition is_errno :: "32 word \<Rightarrow> error \<Rightarrow> bool" where
  "is_errno code e = (case e of Errno c _ \<Rightarrow> c = code | _ \<Rightarrow> False)"

definition is_NotFoundError :: "error \<Rightarrow> bool" where
  "is_NotFoundError e = (case e of HcsError (NotFoundError _) \<Rightarrow> True | _ \<Rightarrow> False)"

text \<open>\<open>os.IsNotExist\<close>\<close>

definition IsNotExist :: "error \<Rightarrow> bool" where
  "IsNotExist e = (case e of NotExistError _ \<Rightarrow> True | _ \<Rightarrow> False)"

definition is_NetworkNotFoundError :: "error \<Rightarrow> bool" where
  "is_NetworkNotFoundError e = (case e of NetworkNotFoundError _ \<Rightarrow> True | _ \<Rightarrow> False)"

definition is_EndpointNotFoundError :: "error \<Rightarrow> bool" where
  "is_EndpointNotFoundError e = (case e of EndpointNotFoundError _ \<Rightarrow> True | _ \<Rightarrow> False)"

definition is_InterfaceNotFoundError :: "error \<Rightarrow> bool" where
  "is_InterfaceNotFoundError e =
     (case e of NetInterfaceError (InterfaceNotFoundError _ _) \<Rightarrow> True | _ \<Rightarrow> False)"

lemma Cause_not_Wrapped: "Cause e \<noteq> Wrapped a m"
  by (induction e rule: Cause.induct) auto

section \<open>hcs.CleanError\<close>

definition oomCodes :: "32 word list" where
  "oomCodes = [0x5af, 0x6be, 0x71a, 0x36b1]"

definition CleanError :: "error \<Rightarrow> error" where
  "CleanError err =
     (case err of
        ShimContainerError inner _ \<Rightarrow>
          (case inner of
             Errno code _ \<Rightarrow>
               (if list_ex (\<lambda>c. code = c) oomCodes then HcsError LowMemoryError else inner)
           | _ \<Rightarrow> inner)
      | _ \<Rightarrow> err)"

text \<open>
  \<open>CleanError\<close> answers with a low-memory error exactly for a container error that
  carries one of the four out-of-memory codes; any other container error is unwrapped
  once, and any other error is returned as it is.
\<close>

theorem CleanError_cases:
  "CleanError err =
     (if \<exists>code m t. err = ShimContainerError (Errno code m) t \<and> code \<in> {0x5af, 0x6be, 0x71a, 0x36b1}
      then HcsError LowMemoryError
      else case err of ShimContainerError inner _ \<Rightarrow> inner | _ \<Rightarrow> err)"
  by (auto simp: CleanError_def oomCodes_def split: error.splits)

end
