(* ===== verification/Winc_World.thy ===== *)
theory Winc_World
  imports Go_Prelude Go_Net Go_Json Winc_Errors
begin

text \<open>
  What winc runs against. The structs of hcsshim and of the OCI runtime specification that
  winc fills in or reads are records with the fields the code uses. Every call that leaves
  the program (the host compute service, the host network service, the Windows API, the
  operating system, credhub) is an \<open>event\<close>; the world keeps the history of events, and the
  environment answers each call by a function of the history so far, so a theorem that
  holds for every environment holds for every behaviour of those services, including one
  that changes over time. Files are modelled: their content is part of the world, and the
  environment only decides which file operations fail.
\<close>

section \<open>Structs of hcsshim\<close>

record ComputeSystemQuery =
  q_IDs :: "string list"
  q_Owners :: "string list"

record ContainerProperties =
  cp_ID :: string
  cp_Stopped :: bool

record Layer =
  l_ID :: string
  l_Path :: string

record MappedDir =
  md_HostPath :: string
  md_ContainerPath :: string
  md_ReadOnly :: bool

record ContainerConfig =
  cc_SystemType :: string
  cc_HostName :: string
  cc_VolumePath :: string
  cc_LayerFolderPath :: string
  cc_Layers :: "Layer list"
  cc_MappedDirectories :: "MappedDir list"
  cc_Credentials :: string
  cc_MemoryMaximumInMB :: u64
  cc_ProcessorWeight :: u64
  cc_NetworkSharedContainerName :: string
  cc_Owner :: string
  cc_EndpointList :: "string list"

record ProcessConfig =
  pc_CommandLine :: string
  pc_CreateStdInPipe :: bool
  pc_CreateStdOutPipe :: bool
  pc_CreateStdErrPipe :: bool
  pc_WorkingDirectory :: string
  pc_User :: string
  pc_Environment :: "(string \<times> string) list"

record ShimStatistics =
  st_UsageCommitBytes :: u64
  st_TotalRuntime100ns :: u64
  st_RuntimeUser100ns :: u64
  st_RuntimeKernel100ns :: u64

record HNSNetwork =
  nw_Id :: string
  nw_Name :: string
  nw_Type :: string
  nw_Subnets :: "Subnet list"
  nw_DNSSuffix :: string

record HNSEndpoint =
  ep_Id :: string
  ep_Name :: string
  ep_VirtualNetwork :: string
  ep_Policies :: "string list"
  ep_IPAddress :: ip
  ep_DNSServerList :: string

text \<open>A container handle and a process (its pid and its handle) of hcsshim.\<close>

type_synonym Container = nat

record Process =
  p_Pid :: int
  p_Handle :: nat

section \<open>Structs of the OCI runtime specification\<close>

record SpecProcess =
  sp_Args :: "string list"
  sp_Cwd :: string
  sp_Env :: "string list"
  sp_Username :: string

record Mount =
  m_Destination :: string
  m_Source :: string
  m_Options :: "string list"

text \<open>The pointers of \<open>specs.Windows\<close> are options: resources, their limits, the network.\<close>

record SpecWindows =
  sw_LayerFolders :: "string list"
  sw_MemoryLimit :: "u64 option"
  sw_CPUShares :: "u16 option"
  sw_NetworkSharedContainerName :: "string option"

record Spec =
  s_Version :: string
  s_Process :: "SpecProcess option"
  s_Root :: "string option"
  s_Hostname :: string
  s_Mounts :: "Mount list"
  s_Windows :: "SpecWindows option"

datatype ContainerState = StateCreated | StateRunning | StateStopped

record OCIState =
  os_Version :: string
  os_ID :: string
  os_Status :: ContainerState
  os_Bundle :: string
  os_Pid :: int

section \<open>Windows structs\<close>

record Filetime =
  LowDateTime :: u32
  HighDateTime :: u32

text \<open>One entry of the list that \<open>GetAdaptersAddresses\<close> fills in, with the fields winc reads.\<close>

record Adapter =
  aa_IfIndex :: u32
  aa_FriendlyName :: "u16 list option"
  aa_PhysicalAddress :: "8 word list"
  aa_PhysicalAddressLength :: u32
  aa_Luid :: u64
  aa_CompartmentId :: u32

text \<open>The row of \<open>Get\<close>/\<open>SetIpInterfaceEntry\<close>: the fields winc writes or reads.\<close>

record IpInterfaceRow =
  row_Family :: u32
  row_InterfaceLuid :: u64
  row_SitePrefixLength :: u32
  row_NlMtu :: u32

section \<open>Calls that leave the program\<close>

datatype hcs_call =
    CGetContainers ComputeSystemQuery
  | CNameToGuid string
  | CGetLayerMountPath int string string
  | CCreateContainer string ContainerConfig
  | COpenContainer string
  | CStart Container
  | CShutdown Container
  | CTerminate Container
  | CWaitTimeout Container nat
  | CStatistics Container
  | CProcessList Container
  | CCreateProcess Container ProcessConfig
  | CCloseContainer Container
  | CProcessWait nat
  | CProcessWaitTimeout nat int
  | CExitCode nat
  | CKill nat
  | CStdio nat
  | CCloseStdin nat
  | CCloseProcess nat

datatype hns_call =
    NGetNetworkByName string
  | NListNetworks
  | NCreateNetwork HNSNetwork
  | NDeleteNetwork HNSNetwork
  | NCreateEndpoint HNSEndpoint
  | NUpdateEndpoint HNSEndpoint
  | NDeleteEndpoint HNSEndpoint
  | NGetEndpointByID string
  | NGetEndpointByName string
  | NHotAttach string string
  | NHotDetach string string

datatype win_call =
    WOpenProcess u32 bool u32
  | WGetProcessTimes u64
  | WCloseHandle u64
  | WGetExitCodeProcess u64
  | WSetVolumeMountPoint string string
  | WDeleteVolumeMountPoint string
  | WGetAdaptersAddresses u32 u32 u32
  | WGetIpInterfaceEntry IpInterfaceRow
  | WSetIpInterfaceEntry IpInterfaceRow
  | WSetThreadCompartment u32
  | WGetHandleInformation u64
  | WFwCreateRule string int int int string string string string
  | WFwDeleteRule string
  | WFwRuleExists string
  | WLoadDLL string
  | WFindProc string
  | WReleaseDLL
  | WLocalIP
  | WNetInterfaces
  | WInterfaceAddrs u32

datatype os_call =
    OStat string
  | OReadFile string
  | OWriteFile string string
  | OMkdirAll string
  | ORemoveAll string
  | OGetwd
  | OExecutable
  | OLockOpen string
  | OSeek string
  | OTruncate string nat
  | OWrite string string
  | ORead string
  | OClose string
  | OOutput string
  | OSleep nat
  | OOpenAppend string
  | OSignalNotify

datatype credhub_call =
    CredhubNew string string string string
  | CredhubGetLatestVersion string

datatype event =
    Hcs hcs_call
  | Hns hns_call
  | Win win_call
  | Os os_call
  | Credhub credhub_call

type_synonym history = "event list"

section \<open>The environment\<close>

record hcs_env =
  o_GetContainers :: "history \<Rightarrow> ComputeSystemQuery \<Rightarrow> error + ContainerProperties list"
  o_NameToGuid :: "history \<Rightarrow> string \<Rightarrow> error + string"
  o_GetLayerMountPath :: "history \<Rightarrow> int \<Rightarrow> string \<Rightarrow> string \<Rightarrow> error + string"
  o_CreateContainer :: "history \<Rightarrow> string \<Rightarrow> ContainerConfig \<Rightarrow> error + Container"
  o_OpenContainer :: "history \<Rightarrow> string \<Rightarrow> error + Container"
  o_ContainerCall :: "history \<Rightarrow> hcs_call \<Rightarrow> error + unit"
  o_Statistics :: "history \<Rightarrow> Container \<Rightarrow> error + ShimStatistics"
  o_ProcessList :: "history \<Rightarrow> Container \<Rightarrow> error + nat"
  o_CreateProcess :: "history \<Rightarrow> Container \<Rightarrow> ProcessConfig \<Rightarrow> error + Process"
  o_ExitCode :: "history \<Rightarrow> nat \<Rightarrow> error + int"
  o_IsPending :: "error \<Rightarrow> bool"

record hns_env =
  o_GetNetworkByName :: "history \<Rightarrow> string \<Rightarrow> error + HNSNetwork"
  o_ListNetworks :: "history \<Rightarrow> error + HNSNetwork list"
  o_CreateNetwork :: "history \<Rightarrow> HNSNetwork \<Rightarrow> error + HNSNetwork"
  o_DeleteNetwork :: "history \<Rightarrow> HNSNetwork \<Rightarrow> error + HNSNetwork"
  o_CreateEndpoint :: "history \<Rightarrow> HNSEndpoint \<Rightarrow> error + HNSEndpoint"
  o_UpdateEndpoint :: "history \<Rightarrow> HNSEndpoint \<Rightarrow> error + HNSEndpoint"
  o_DeleteEndpoint :: "history \<Rightarrow> HNSEndpoint \<Rightarrow> error + HNSEndpoint"
  o_GetEndpointByID :: "history \<Rightarrow> string \<Rightarrow> error + HNSEndpoint"
  o_GetEndpointByName :: "history \<Rightarrow> string \<Rightarrow> error + HNSEndpoint"
  o_HotAttach :: "history \<Rightarrow> string \<Rightarrow> string \<Rightarrow> error + unit"
  o_HotDetach :: "history \<Rightarrow> string \<Rightarrow> string \<Rightarrow> error + unit"

text \<open>
  \<open>o_WinCall\<close> answers the calls whose result is a status only. The status of a procedure
  of a DLL is the raw register value, with the error that \<open>Call\<close> returns next to it.
\<close>

record win_env =
  o_OpenProcess :: "history \<Rightarrow> u32 \<Rightarrow> bool \<Rightarrow> u32 \<Rightarrow> error + u64"
  o_GetProcessTimes :: "history \<Rightarrow> u64 \<Rightarrow> error + Filetime"
  o_GetExitCodeProcess :: "history \<Rightarrow> u64 \<Rightarrow> error + u32"
  o_WinCall :: "history \<Rightarrow> win_call \<Rightarrow> error + unit"
  o_ProcCall :: "history \<Rightarrow> win_call \<Rightarrow> u64 \<times> error"
  o_GetAdaptersAddresses :: "history \<Rightarrow> u32 \<Rightarrow> u32 \<Rightarrow> u32 \<Rightarrow> error option \<times> u32 \<times> Adapter list"
  o_GetIpInterfaceEntry :: "history \<Rightarrow> IpInterfaceRow \<Rightarrow> u64 \<times> IpInterfaceRow"
  o_SetIpInterfaceEntry :: "history \<Rightarrow> IpInterfaceRow \<Rightarrow> u64"
  o_LocalIP :: "history \<Rightarrow> error + string"
  o_NetInterfaces :: "history \<Rightarrow> error + u32 list"
  o_InterfaceAddrs :: "history \<Rightarrow> u32 \<Rightarrow> error + string list"

text \<open>
  Which file operations fail, and what a failed one leaves behind: a failed \<open>os.WriteFile\<close>
  may leave any content, a failed write to an open file has written \<open>o_Written\<close> bytes, a
  failed removal or creation of a tree leaves any part of it.
\<close>

record os_env =
  o_OsFault :: "history \<Rightarrow> os_call \<Rightarrow> error option"
  o_PartialWrite :: "history \<Rightarrow> string \<Rightarrow> string option"
  o_Written :: "history \<Rightarrow> string \<Rightarrow> nat"
  o_PartialTree :: "history \<Rightarrow> string \<Rightarrow> bool"
  o_Getwd :: "history \<Rightarrow> error + string"
  o_Executable :: "history \<Rightarrow> error + string"
  o_MapOrder :: "history \<Rightarrow> nat list"
  o_Interrupted :: "history \<Rightarrow> bool"

datatype check_error = MultiError "string list" | SingleError string

text \<open>
  Libraries that compute: the decoders of the OCI structs, the OCI bundle validator, the
  SemVer parser (only the major version is used) and credhub. \<open>o_JsonMessage\<close> is the text
  of the error that \<open>encoding/json\<close> makes for an input it rejects, \<open>o_FormatValue\<close> the text
  of a decoded value under the verb \<open>%v\<close>.
\<close>

record lib_env =
  o_JsonMessage :: "string \<Rightarrow> string"
  o_FormatValue :: "json \<Rightarrow> string"
  o_UnmarshalSpec :: "string \<Rightarrow> string + Spec"
  o_UnmarshalProcess :: "string \<Rightarrow> string + SpecProcess"
  o_NewValidator :: "Spec \<Rightarrow> string \<Rightarrow> error + unit"
  o_CheckPlatform :: "Spec \<Rightarrow> check_error option"
  o_CheckMandatoryFields :: "Spec \<Rightarrow> check_error option"
  o_SemverParse :: "string \<Rightarrow> string + u64"
  o_SpecVersion :: string
  o_CredhubNew :: "history \<Rightarrow> string \<Rightarrow> string \<Rightarrow> string \<Rightarrow> string \<Rightarrow> error + unit"
  o_GetLatestVersion :: "history \<Rightarrow> string \<Rightarrow> error + json"

record env =
  e_hcs :: hcs_env
  e_hns :: hns_env
  e_win :: win_env
  e_os :: os_env
  e_lib :: lib_env

section \<open>The world\<close>

text \<open>
  \<open>offs\<close> is the offset of the open file on a path. Directories are the paths for which
  \<open>dirs\<close> holds. Paths are compared as they are written.
\<close>

record world =
  w_env :: env
  hist :: history
  files :: "string \<Rightarrow> string option"
  dirs :: "string \<Rightarrow> bool"
  offs :: "string \<Rightarrow> nat"

type_synonym 'a op = "(world, error, 'a) go"

definition log_event :: "event \<Rightarrow> world \<Rightarrow> world" where
  "log_event ev w = w\<lparr>hist := hist w @ [ev]\<rparr>"

text \<open>A call that the environment answers.\<close>

definition ask :: "event \<Rightarrow> (env \<Rightarrow> history \<Rightarrow> error + 'a) \<Rightarrow> 'a op" where
  "ask ev f = (\<lambda>w.
     (case f (w_env w) (hist w) of Inl e \<Rightarrow> Err e | Inr x \<Rightarrow> Ok x, log_event ev w))"

text \<open>A call that returns a value and no error.\<close>

definition query :: "event \<Rightarrow> (env \<Rightarrow> history \<Rightarrow> 'a) \<Rightarrow> 'a op" where
  "query ev f = (\<lambda>w. (Ok (f (w_env w) (hist w)), log_event ev w))"

text \<open>Reading the environment without a call.\<close>

definition asks :: "(env \<Rightarrow> 'a) \<Rightarrow> 'a op" where
  "asks f = (\<lambda>w. (Ok (f (w_env w)), w))"

text \<open>The order in which the next \<open>range\<close> over a map visits its entries, as a choice sequence.\<close>

definition map_order :: "nat list op" where
  "map_order = (\<lambda>w. (Ok (o_MapOrder (e_os (w_env w)) (hist w)), w))"

text \<open>\<open>fmt.Errorf("msg: %s", err)\<close> around the error of a call.\<close>

definition annotate :: "string \<Rightarrow> 'a op \<Rightarrow> 'a op" where
  "annotate msg m = bind (attempt m) (\<lambda>r. case r of
     Inl e \<Rightarrow> throw (Errorf (msg @ '': '' @ Error e)) | Inr x \<Rightarrow> ret x)"

text \<open>A file operation: it fails when the environment says so, with what that leaves behind.\<close>

definition os_op :: "os_call \<Rightarrow> (world \<Rightarrow> world) \<Rightarrow> 'a op \<Rightarrow> 'a op" where
  "os_op c damage act = (\<lambda>w.
     (case o_OsFault (e_os (w_env w)) (hist w) c of
        Some e \<Rightarrow> (Err e, damage (log_event (Os c) w))
      | None \<Rightarrow> act (log_event (Os c) w)))"

subsection \<open>Package os\<close>

definition under :: "string \<Rightarrow> string \<Rightarrow> bool" where
  "under d p \<longleftrightarrow> p = d \<or> take (Suc (length d)) p = d @ [CHR 0x5C]"

definition ReadFile :: "string \<Rightarrow> string op" where
  "ReadFile p = os_op (OReadFile p) id (\<lambda>w.
     (case files w p of
        None \<Rightarrow> (Err (NotExistError (''open '' @ p @ '': The system cannot find the file specified.'')), w)
      | Some c \<Rightarrow> (Ok c, w)))"

definition WriteFile :: "string \<Rightarrow> string \<Rightarrow> unit op" where
  "WriteFile p c = os_op (OWriteFile p c)
     (\<lambda>w. w\<lparr>files := (files w)(p := o_PartialWrite (e_os (w_env w)) (hist w) p)\<rparr>)
     (\<lambda>w. (Ok (), w\<lparr>files := (files w)(p := Some c)\<rparr>))"

text \<open>\<open>os.MkdirAll\<close> creates the directories above \<open>p\<close> as well.\<close>

definition MkdirAll :: "string \<Rightarrow> unit op" where
  "MkdirAll p = os_op (OMkdirAll p)
     (\<lambda>w. w\<lparr>dirs := (\<lambda>q. dirs w q \<or> q \<noteq> p \<and> under q p \<and> o_PartialTree (e_os (w_env w)) (hist w) q)\<rparr>)
     (\<lambda>w. (Ok (), w\<lparr>dirs := (\<lambda>q. dirs w q \<or> under q p)\<rparr>))"

definition RemoveAll :: "string \<Rightarrow> unit op" where
  "RemoveAll p = os_op (ORemoveAll p)
     (\<lambda>w. let keep = (\<lambda>q. \<not> under p q \<or> o_PartialTree (e_os (w_env w)) (hist w) q)
          in w\<lparr>files := (\<lambda>q. if keep q then files w q else None), dirs := (\<lambda>q. keep q \<and> dirs w q)\<rparr>)
     (\<lambda>w. (Ok (), w\<lparr>files := (\<lambda>q. if under p q then None else files w q),
                     dirs := (\<lambda>q. \<not> under p q \<and> dirs w q)\<rparr>))"

text \<open>\<open>os.Stat\<close>: the result says whether the path is a directory.\<close>

definition Stat :: "string \<Rightarrow> bool op" where
  "Stat p = os_op (OStat p) id (\<lambda>w.
     (if dirs w p then (Ok True, w)
      else if files w p \<noteq> None then (Ok False, w)
      else (Err (NotExistError (''CreateFile '' @ p @ '': The system cannot find the file specified.'')), w)))"

definition Getwd :: "string op" where
  "Getwd = ask (Os OGetwd) (\<lambda>e h. o_Getwd (e_os e) h)"

text \<open>Writing to an \<open>io.Writer\<close> of the caller, such as the standard output.\<close>

definition write_out :: "string \<Rightarrow> unit op" where
  "write_out t = os_op (OOutput t) id (ret ())"

text \<open>\<open>os.OpenFile\<close> to append to a file, which is created when it is missing.\<close>

definition open_append :: "string \<Rightarrow> unit op" where
  "open_append p = os_op (OOpenAppend p) id (\<lambda>w.
     (Ok (), w\<lparr>files := (files w)(p := Some (case files w p of None \<Rightarrow> [] | Some c \<Rightarrow> c))\<rparr>))"

definition sleep :: "nat \<Rightarrow> unit op" where
  "sleep ms = query (Os (OSleep ms)) (\<lambda>_ _. ())"

subsection \<open>Procedures of DLLs\<close>

text \<open>\<open>syscall.UTF16PtrFromString\<close> refuses a string with a zero byte.\<close>

definition UTF16PtrFromString :: "string \<Rightarrow> string op" where
  "UTF16PtrFromString s = (if CHR 0x00 \<in> set s then throw (OtherError ''invalid argument'') else ret s)"

text \<open>A procedure of the DLL: the result register and the error \<open>Call\<close> returns with it.\<close>

definition dll_call :: "win_call \<Rightarrow> (u64 \<times> error) op" where
  "dll_call c = query (Win c) (\<lambda>e h. o_ProcCall (e_win e) h c)"

definition low32 :: "u64 \<Rightarrow> int" where
  "low32 r = sint (ucast r :: u32)"

definition win_status :: "win_call \<Rightarrow> unit op" where
  "win_status c = ask (Win c) (\<lambda>e h. o_WinCall (e_win e) h c)"

subsection \<open>Frames\<close>

lemma log_event_simps [simp]:
  "w_env (log_event ev w) = w_env w" "hist (log_event ev w) = hist w @ [ev]"
  "files (log_event ev w) = files w" "dirs (log_event ev w) = dirs w" "offs (log_event ev w) = offs w"
  by (simp_all add: log_event_def)

lemma frame_ask [frame_intros]:
  "(\<And>w. f (log_event ev w) = f w) \<Longrightarrow> frame f (ask ev g)"
  by (auto simp: frame_def ask_def)

lemma frame_query [frame_intros]:
  "(\<And>w. f (log_event ev w) = f w) \<Longrightarrow> frame f (query ev g)"
  by (auto simp: frame_def query_def)

lemma frame_asks [frame_intros]: "frame f (asks g)"
  by (auto simp: frame_def asks_def)

lemma frame_map_order [frame_intros]: "frame f map_order"
  by (auto simp: frame_def map_order_def)

lemma frame_annotate [frame_intros]: "frame f m \<Longrightarrow> frame f (annotate msg m)"
  unfolding annotate_def by (intro frame_intros)

lemma annotate_cases:
  assumes "annotate msg m w = (r, w')"
  obtains (Ok) x where "m w = (Ok x, w')" "r = Ok x"
  | (Err) e where "m w = (Err e, w')" "r = Err (Errorf (msg @ '': '' @ Error e))"
  | (Panic) s where "m w = (Panic s, w')" "r = Panic s"
  using assms by (auto simp: annotate_def bind_def attempt_def split: prod.splits outcome.splits)

lemma annotate_OkE:
  assumes "annotate msg m w = (Ok x, w')"
  obtains "m w = (Ok x, w')"
  using assms by (cases rule: annotate_cases) auto

lemma annotate_run:
  "m w = (Ok x, w') \<Longrightarrow> annotate msg m w = (Ok x, w')"
  "m w = (Err e, w') \<Longrightarrow> annotate msg m w = (Err (Errorf (msg @ '': '' @ Error e)), w')"
  "m w = (Panic s, w') \<Longrightarrow> annotate msg m w = (Panic s, w')"
  by (simp_all add: annotate_def bind_def attempt_def)

lemma frame_os_op [frame_intros]:
  assumes "\<And>w. f (log_event (Os c) w) = f w" and "\<And>w. f (damage w) = f w" and "frame f act"
  shows "frame f (os_op c damage act)"
  using assms by (auto simp: frame_def os_op_def split: option.splits)

lemma frame_ReadFile [frame_intros]:
  "(\<And>c w. f (log_event (Os c) w) = f w) \<Longrightarrow> frame f (ReadFile p)"
  unfolding ReadFile_def by (rule frame_os_op) (auto simp: frame_def split: option.splits)

lemma frame_Stat [frame_intros]:
  "(\<And>c w. f (log_event (Os c) w) = f w) \<Longrightarrow> frame f (Stat p)"
  unfolding Stat_def by (rule frame_os_op) (auto simp: frame_def split: if_splits)

lemma frame_Getwd [frame_intros]: "(\<And>c w. f (log_event (Os c) w) = f w) \<Longrightarrow> frame f Getwd"
  unfolding Getwd_def by (rule frame_ask)

lemma frame_write_out [frame_intros]:
  "(\<And>c w. f (log_event (Os c) w) = f w) \<Longrightarrow> frame f (write_out t)"
  unfolding write_out_def by (rule frame_os_op) (auto intro: frame_intros)

lemma frame_sleep [frame_intros]: "(\<And>c w. f (log_event (Os c) w) = f w) \<Longrightarrow> frame f (sleep n)"
  unfolding sleep_def by (rule frame_query)

lemma env_WriteFile [frame_intros]: "frame w_env (WriteFile p c)"
  unfolding WriteFile_def by (rule frame_os_op) (auto simp: frame_def)

lemma env_MkdirAll [frame_intros]: "frame w_env (MkdirAll p)"
  unfolding MkdirAll_def by (rule frame_os_op) (auto simp: frame_def)

lemma env_RemoveAll [frame_intros]: "frame w_env (RemoveAll p)"
  unfolding RemoveAll_def by (rule frame_os_op) (auto simp: frame_def Let_def)

lemma files_MkdirAll [frame_intros]: "frame files (MkdirAll p)"
  unfolding MkdirAll_def by (rule frame_os_op) (auto simp: frame_def)

lemma ReadFile_Ok: "ReadFile p w = (Ok c, w') \<Longrightarrow> files w p = Some c"
  by (auto simp: ReadFile_def os_op_def split: option.splits)

lemma WriteFile_Ok: "WriteFile p c w = (Ok u, w') \<Longrightarrow> files w' = (files w)(p := Some c)"
  by (auto simp: WriteFile_def os_op_def split: option.splits)

lemma WriteFile_other: "WriteFile p c w = (r, w') \<Longrightarrow> q \<noteq> p \<Longrightarrow> files w' q = files w q"
  by (auto simp: WriteFile_def os_op_def split: option.splits)

lemma RemoveAll_Ok:
  "RemoveAll p w = (Ok u, w') \<Longrightarrow> files w' q = (if under p q then None else files w q)"
  by (auto simp: RemoveAll_def os_op_def split: option.splits)

lemma RemoveAll_other: "RemoveAll p w = (r, w') \<Longrightarrow> \<not> under p q \<Longrightarrow> files w' q = files w q"
  by (auto simp: RemoveAll_def os_op_def Let_def split: option.splits)

subsection \<open>Calls do not panic\<close>

lemma no_panic_ask [safe_intros]: "no_panic (ask ev f)"
  by (auto simp: no_panic_def ask_def split: sum.splits)

lemma no_panic_query [safe_intros]: "no_panic (query ev f)"
  by (simp add: no_panic_def query_def)

lemma no_panic_asks [safe_intros]: "no_panic (asks f)"
  by (simp add: no_panic_def asks_def)

lemma no_panic_map_order [safe_intros]: "no_panic map_order"
  by (simp add: no_panic_def map_order_def)

lemma no_panic_annotate [safe_intros]: "no_panic m \<Longrightarrow> no_panic (annotate msg m)"
  unfolding annotate_def by (intro safe_intros)

lemma no_panic_os_op [safe_intros]: "no_panic act \<Longrightarrow> no_panic (os_op c damage act)"
  by (auto simp: no_panic_def os_op_def split: option.splits)

lemma no_panic_os [safe_intros]:
  "no_panic (ReadFile p)" "no_panic (WriteFile p t)" "no_panic (MkdirAll p)" "no_panic (RemoveAll p)"
  "no_panic (Stat p)" "no_panic Getwd" "no_panic (write_out t)" "no_panic (sleep n)"
  unfolding ReadFile_def WriteFile_def MkdirAll_def RemoveAll_def Stat_def Getwd_def write_out_def sleep_def
  by (intro safe_intros | simp add: no_panic_def split: option.splits)+

lemma frame_dll [frame_intros]:
  assumes "\<And>c w. f (log_event (Win c) w) = f w"
  shows "frame f (dll_call c)" "frame f (win_status c)" "frame f (UTF16PtrFromString s)"
  unfolding dll_call_def win_status_def UTF16PtrFromString_def by (intro frame_intros assms)+

lemma no_panic_dll [safe_intros]: "no_panic (dll_call c)" "no_panic (win_status c)" "no_panic (UTF16PtrFromString s)"
  unfolding dll_call_def win_status_def UTF16PtrFromString_def by (intro safe_intros)+

section \<open>Which calls a computation makes\<close>

text \<open>\<open>logs P m\<close>: the history only grows, by events that satisfy \<open>P\<close>.\<close>

named_theorems logs_intros \<open>which events a computation appends to the history\<close>

definition logs :: "(event \<Rightarrow> bool) \<Rightarrow> 'a op \<Rightarrow> bool" where
  "logs P m \<longleftrightarrow> (\<forall>w r w'. m w = (r, w') \<longrightarrow> (\<exists>evs. hist w' = hist w @ evs \<and> list_all P evs))"

lemma logsI: "(\<And>w r w'. m w = (r, w') \<Longrightarrow> \<exists>evs. hist w' = hist w @ evs \<and> list_all P evs) \<Longrightarrow> logs P m"
  by (simp add: logs_def)

lemma logsD: "logs P m \<Longrightarrow> m w = (r, w') \<Longrightarrow> \<exists>evs. hist w' = hist w @ evs \<and> list_all P evs"
  by (simp add: logs_def)

lemma logs_mono: "logs P m \<Longrightarrow> (\<And>e. P e \<Longrightarrow> Q e) \<Longrightarrow> logs Q m"
  unfolding logs_def by (metis list.pred_mono_strong)

lemma logs_still: "frame hist m \<Longrightarrow> logs P m"
  by (auto simp: logs_def frame_def)

lemma logs_trans:
  "(\<exists>evs. hist w1 = hist w @ evs \<and> list_all P evs) \<Longrightarrow> (\<exists>evs. hist w2 = hist w1 @ evs \<and> list_all P evs) \<Longrightarrow>
   \<exists>evs. hist w2 = hist w @ evs \<and> list_all P evs"
  by (metis append.assoc list_all_append)

lemma logs_ret [logs_intros]: "logs P (ret x)"
  by (rule logs_still) (rule frame_ret)

lemma logs_throw [logs_intros]: "logs P (throw e)"
  by (rule logs_still) (rule frame_throw)

lemma logs_crash [logs_intros]: "logs P (crash s)"
  by (rule logs_still) (rule frame_crash)

lemma logs_asks [logs_intros]: "logs P (asks f)"
  by (rule logs_still) (rule frame_asks)

lemma logs_map_order [logs_intros]: "logs P map_order"
  by (rule logs_still) (rule frame_map_order)

lemma logs_lift_sum [logs_intros]: "logs P (lift_sum r)"
  by (rule logs_still) (rule frame_lift_sum)

lemma logs_bind [logs_intros]:
  assumes "logs P m" "\<And>x. logs P (g x)"
  shows "logs P (bind m g)"
proof (rule logsI)
  fix w r w' assume "bind m g w = (r, w')"
  then show "\<exists>evs. hist w' = hist w @ evs \<and> list_all P evs"
    by (cases rule: bind_cases) (auto dest: logsD [OF assms(1)] intro: logs_trans logsD [OF assms(2)])
qed

lemma logs_attempt [logs_intros]: "logs P m \<Longrightarrow> logs P (attempt m)"
  by (rule logsI) (auto simp: attempt_def dest: logsD split: prod.splits outcome.splits)

lemma logs_ignore [logs_intros]: "logs P m \<Longrightarrow> logs P (ignore m)"
  by (rule logsI) (auto simp: ignore_def dest: logsD split: prod.splits outcome.splits)

lemma logs_deferring [logs_intros]:
  assumes "logs P d" "logs P m"
  shows "logs P (deferring d m)"
proof (rule logsI)
  fix w r w' assume "deferring d m w = (r, w')"
  then show "\<exists>evs. hist w' = hist w @ evs \<and> list_all P evs"
    by (cases rule: deferring_cases) (auto intro: logs_trans logsD [OF assms(1)] logsD [OF assms(2)])
qed

lemma logs_annotate [logs_intros]: "logs P m \<Longrightarrow> logs P (annotate msg m)"
  unfolding annotate_def by (intro logs_bind logs_attempt) (auto split: sum.split intro: logs_intros)

lemma logs_mapM [logs_intros]: "(\<And>x. logs P (g x)) \<Longrightarrow> logs P (mapM g xs)"
  by (induction xs) (auto intro!: logs_intros)

lemma logs_forM [logs_intros]: "(\<And>x. logs P (g x)) \<Longrightarrow> logs P (forM g xs)"
  by (induction xs) (auto intro!: logs_intros)

lemma logs_if [logs_intros]: "(b \<Longrightarrow> logs P m) \<Longrightarrow> (\<not> b \<Longrightarrow> logs P n) \<Longrightarrow> logs P (if b then m else n)"
  by simp

lemma logs_case_sum [logs_intros]:
  "(\<And>x. logs P (g x)) \<Longrightarrow> (\<And>y. logs P (h y)) \<Longrightarrow> logs P (case r of Inl x \<Rightarrow> g x | Inr y \<Rightarrow> h y)"
  by (cases r) auto

lemma logs_case_option [logs_intros]:
  "logs P g \<Longrightarrow> (\<And>y. logs P (h y)) \<Longrightarrow> logs P (case r of None \<Rightarrow> g | Some y \<Rightarrow> h y)"
  by (cases r) auto

lemma logs_case_prod [logs_intros]: "(\<And>x y. logs P (g x y)) \<Longrightarrow> logs P (case p of (x, y) \<Rightarrow> g x y)"
  by (cases p) auto

lemma logs_case_list [logs_intros]:
  "logs P g \<Longrightarrow> (\<And>y ys. logs P (h y ys)) \<Longrightarrow> logs P (case xs of [] \<Rightarrow> g | y # ys \<Rightarrow> h y ys)"
  by (cases xs) auto

lemma logs_Let [logs_intros]: "logs P (g x) \<Longrightarrow> logs P (let y = x in g y)"
  by simp

lemma logs_ask [logs_intros]: "P ev \<Longrightarrow> logs P (ask ev f)"
  by (auto simp: logs_def ask_def)

lemma logs_query [logs_intros]: "P ev \<Longrightarrow> logs P (query ev f)"
  by (auto simp: logs_def query_def)

lemma logs_os_op:
  assumes "P (Os c)" "\<And>w. hist (damage w) = hist w" "frame hist act"
  shows "logs P (os_op c damage act)"
proof (rule logsI)
  fix w r w' assume "os_op c damage act w = (r, w')"
  then have "hist w' = hist w @ [Os c]"
    using assms(2) frameD [OF assms(3)] by (auto simp: os_op_def split: option.splits)
  then show "\<exists>evs. hist w' = hist w @ evs \<and> list_all P evs"
    using assms(1) by simp
qed

lemma logs_os [logs_intros]:
  "P (Os (OReadFile p)) \<Longrightarrow> logs P (ReadFile p)"
  "P (Os (OWriteFile p t)) \<Longrightarrow> logs P (WriteFile p t)"
  "P (Os (OMkdirAll p)) \<Longrightarrow> logs P (MkdirAll p)"
  "P (Os (ORemoveAll p)) \<Longrightarrow> logs P (RemoveAll p)"
  "P (Os (OStat p)) \<Longrightarrow> logs P (Stat p)"
  "P (Os OGetwd) \<Longrightarrow> logs P Getwd"
  "P (Os (OOutput t)) \<Longrightarrow> logs P (write_out t)"
  "P (Os (OSleep n)) \<Longrightarrow> logs P (sleep n)"
  unfolding ReadFile_def WriteFile_def MkdirAll_def RemoveAll_def Stat_def Getwd_def write_out_def sleep_def
  by (auto intro!: logs_os_op logs_ask logs_query frameI simp: Let_def split: option.splits if_splits)

lemma logs_dll [logs_intros]:
  "P (Win c) \<Longrightarrow> logs P (dll_call c)" "P (Win c) \<Longrightarrow> logs P (win_status c)" "logs P (UTF16PtrFromString s)"
  unfolding dll_call_def win_status_def UTF16PtrFromString_def by (auto intro!: logs_intros simp del: ret_apply)

section \<open>A calm environment\<close>

text \<open>An environment in which no file operation fails.\<close>

definition os_calm :: "env \<Rightarrow> bool" where
  "os_calm e \<longleftrightarrow> (\<forall>h c. o_OsFault (e_os e) h c = None)"

lemma calm_os_op: "os_calm (w_env w) \<Longrightarrow> os_op c damage act w = act (log_event (Os c) w)"
  by (simp add: os_calm_def os_op_def)

section \<open>A quiet environment\<close>

text \<open>
  The environment the examples run in: file operations succeed, every service answers with
  an empty value, nothing is found.
\<close>

definition quiet_hcs :: hcs_env where
  "quiet_hcs = \<lparr>o_GetContainers = (\<lambda>_ _. Inr []), o_NameToGuid = (\<lambda>_ n. Inr n),
     o_GetLayerMountPath = (\<lambda>_ _ _ _. Inr []),
     o_CreateContainer = (\<lambda>_ _ _. Inr 1), o_OpenContainer = (\<lambda>_ _. Inr 1),
     o_ContainerCall = (\<lambda>_ _. Inr ()), o_Statistics = (\<lambda>_ _. Inr \<lparr>st_UsageCommitBytes = 0,
       st_TotalRuntime100ns = 0, st_RuntimeUser100ns = 0, st_RuntimeKernel100ns = 0\<rparr>),
     o_ProcessList = (\<lambda>_ _. Inr 0), o_CreateProcess = (\<lambda>_ _ _. Inr \<lparr>p_Pid = 7, p_Handle = 7\<rparr>),
     o_ExitCode = (\<lambda>_ _. Inr 0), o_IsPending = (\<lambda>_. False)\<rparr>"

definition quiet_hns :: hns_env where
  "quiet_hns = \<lparr>o_GetNetworkByName = (\<lambda>_ n. Inl (NetworkNotFoundError n)), o_ListNetworks = (\<lambda>_. Inr []),
     o_CreateNetwork = (\<lambda>_ n. Inr n),
     o_DeleteNetwork = (\<lambda>_ n. Inr n), o_CreateEndpoint = (\<lambda>_ e. Inr e), o_UpdateEndpoint = (\<lambda>_ e. Inr e),
     o_DeleteEndpoint = (\<lambda>_ e. Inr e), o_GetEndpointByID = (\<lambda>_ n. Inl (EndpointNotFoundError n)),
     o_GetEndpointByName = (\<lambda>_ n. Inl (EndpointNotFoundError n)),
     o_HotAttach = (\<lambda>_ _ _. Inr ()), o_HotDetach = (\<lambda>_ _ _. Inr ())\<rparr>"

definition quiet_win :: win_env where
  "quiet_win = \<lparr>o_OpenProcess = (\<lambda>_ _ _ _. Inr 1), o_GetProcessTimes = (\<lambda>_ _. Inr \<lparr>LowDateTime = 1, HighDateTime = 1\<rparr>),
     o_GetExitCodeProcess = (\<lambda>_ _. Inr 0), o_WinCall = (\<lambda>_ _. Inr ()), o_ProcCall = (\<lambda>_ _. (0, Errno 0 [])),
     o_GetAdaptersAddresses = (\<lambda>_ _ _ _. (None, 0, [])), o_GetIpInterfaceEntry = (\<lambda>_ r. (0, r)),
     o_SetIpInterfaceEntry = (\<lambda>_ _. 0), o_LocalIP = (\<lambda>_. Inr ''10.0.0.1''), o_NetInterfaces = (\<lambda>_. Inr []),
     o_InterfaceAddrs = (\<lambda>_ _. Inr [])\<rparr>"

definition quiet_os :: os_env where
  "quiet_os = \<lparr>o_OsFault = (\<lambda>_ _. None), o_PartialWrite = (\<lambda>_ _. None), o_Written = (\<lambda>_ _. 0), o_PartialTree = (\<lambda>_ _. False),
     o_Getwd = (\<lambda>_. Inr ''C:''), o_Executable = (\<lambda>_. Inr ''C:''), o_MapOrder = (\<lambda>_. []), o_Interrupted = (\<lambda>_. False)\<rparr>"

definition quiet_lib :: lib_env where
  "quiet_lib = \<lparr>o_JsonMessage = (\<lambda>_. ''invalid''), o_FormatValue = (\<lambda>_. []), o_UnmarshalSpec = (\<lambda>_. Inl ''invalid''),
     o_UnmarshalProcess = (\<lambda>_. Inl ''invalid''), o_NewValidator = (\<lambda>_ _. Inr ()), o_CheckPlatform = (\<lambda>_. None),
     o_CheckMandatoryFields = (\<lambda>_. None), o_SemverParse = (\<lambda>_. Inr 1), o_SpecVersion = ''1.0.2'',
     o_CredhubNew = (\<lambda>_ _ _ _ _. Inr ()), o_GetLatestVersion = (\<lambda>_ _. Inr JNull)\<rparr>"

definition quiet_env :: env where
  "quiet_env = \<lparr>e_hcs = quiet_hcs, e_hns = quiet_hns, e_win = quiet_win, e_os = quiet_os, e_lib = quiet_lib\<rparr>"

definition quiet_world :: world where
  "quiet_world = \<lparr>w_env = quiet_env, hist = [], files = (\<lambda>_. None), dirs = (\<lambda>_. False), offs = (\<lambda>_. 0)\<rparr>"

lemmas quiet_defs = quiet_world_def quiet_env_def quiet_hcs_def quiet_hns_def quiet_win_def quiet_os_def quiet_lib_def

lemma quiet_calm: "os_calm (w_env quiet_world)"
  by (simp add: os_calm_def quiet_defs)

end
