(* ===== verification/Go_Json_Struct.thy ===== *)
theory Go_Json_Struct
  imports Go_Json Go_Net "HOL-Library.AList"
begin

text \<open>
  How \<open>encoding/json\<close> fills Go data from a JSON value. A decoder takes the value the
  variable holds and the JSON value, and gives the new value, or \<open>None\<close> when the types do
  not match (the callers drop the target of a failed decoding, so what it holds then does
  not matter). \<open>null\<close> leaves a scalar or a struct alone and empties a slice or a map;
  object keys are matched with the field names without regard to case; a repeated key is
  decoded again into what the first one left.
\<close>

type_synonym 'a decoder = "'a \<Rightarrow> json \<Rightarrow> 'a option"

section \<open>Scalars\<close>

definition dec_str :: "string decoder" where
  "dec_str old j = (case j of JNull \<Rightarrow> Some old | JStr s \<Rightarrow> Some s | _ \<Rightarrow> None)"

definition dec_bool :: "bool decoder" where
  "dec_bool old j = (case j of JNull \<Rightarrow> Some old | JBool b \<Rightarrow> Some b | _ \<Rightarrow> None)"

text \<open>\<open>strconv.ParseUint\<close> with the width of the field.\<close>

definition dec_uint :: "'a::len word decoder" where
  "dec_uint old j = (case j of
       JNull \<Rightarrow> Some old
     | JNum n \<Rightarrow> (if all_digits n \<and> undec n < 2 ^ LENGTH('a) then Some (word_of_nat (undec n)) else None)
     | _ \<Rightarrow> None)"

text \<open>\<open>strconv.ParseInt\<close> for a 64-bit \<open>int\<close>; a JSON number has no plus sign.\<close>

definition dec_int :: "int decoder" where
  "dec_int old j = (case j of
       JNull \<Rightarrow> Some old
     | JNum n \<Rightarrow> (case atoi n of Inl _ \<Rightarrow> None | Inr i \<Rightarrow> Some i)
     | _ \<Rightarrow> None)"

section \<open>Slices, maps and structs\<close>

text \<open>The elements of a slice are decoded one by one into zero values.\<close>

fun dec_elems :: "'a decoder \<Rightarrow> 'a \<Rightarrow> json list \<Rightarrow> 'a list option" where
  "dec_elems d zero [] = Some []"
| "dec_elems d zero (j # js) =
     (case d zero j of
        None \<Rightarrow> None
      | Some x \<Rightarrow> map_option (\<lambda>xs. x # xs) (dec_elems d zero js))"

definition dec_slice :: "'a decoder \<Rightarrow> 'a \<Rightarrow> 'a list decoder" where
  "dec_slice d zero old j = (case j of
       JNull \<Rightarrow> Some []
     | JArr js \<Rightarrow> dec_elems d zero js
     | _ \<Rightarrow> None)"

text \<open>A map with string keys, as an association list; each value starts from its zero value.\<close>

fun dec_entries :: "'a decoder \<Rightarrow> 'a \<Rightarrow> (string \<times> 'a) list \<Rightarrow> (string \<times> json) list \<Rightarrow> (string \<times> 'a) list option" where
  "dec_entries d zero m [] = Some m"
| "dec_entries d zero m ((k, j) # kvs) =
     (case d zero j of
        None \<Rightarrow> None
      | Some x \<Rightarrow> dec_entries d zero (AList.update k x m) kvs)"

definition dec_map :: "'a decoder \<Rightarrow> 'a \<Rightarrow> (string \<times> 'a) list decoder" where
  "dec_map d zero old j = (case j of
       JNull \<Rightarrow> Some []
     | JObj kvs \<Rightarrow> dec_entries d zero old kvs
     | _ \<Rightarrow> None)"

definition lower_char :: "char \<Rightarrow> char" where
  "lower_char c = (let n = (of_char c :: nat) in if 65 \<le> n \<and> n \<le> 90 then char_of (n + 32) else c)"

definition fold_name :: "string \<Rightarrow> string" where
  "fold_name s = map lower_char s"

text \<open>A struct: the table of its fields, each with the decoder that updates it.\<close>

type_synonym 'r fields = "(string \<times> 'r decoder) list"

definition field_for :: "'r fields \<Rightarrow> string \<Rightarrow> 'r decoder option" where
  "field_for fs k = map_option snd (find (\<lambda>(n, _). fold_name n = fold_name k) fs)"

fun dec_members :: "'r fields \<Rightarrow> 'r \<Rightarrow> (string \<times> json) list \<Rightarrow> 'r option" where
  "dec_members fs r [] = Some r"
| "dec_members fs r ((k, j) # kvs) =
     (case field_for fs k of
        None \<Rightarrow> dec_members fs r kvs
      | Some d \<Rightarrow> (case d r j of None \<Rightarrow> None | Some r' \<Rightarrow> dec_members fs r' kvs))"

definition dec_struct :: "'r fields \<Rightarrow> 'r decoder" where
  "dec_struct fs r j = (case j of
       JNull \<Rightarrow> Some r
     | JObj kvs \<Rightarrow> dec_members fs r kvs
     | _ \<Rightarrow> None)"

text \<open>A field of a struct: a decoder for its type with its selector and its update.\<close>

definition field :: "('r \<Rightarrow> 'a) \<Rightarrow> ('a \<Rightarrow> 'r \<Rightarrow> 'r) \<Rightarrow> 'a decoder \<Rightarrow> 'r decoder" where
  "field get put d r j = map_option (\<lambda>x. put x r) (d (get r) j)"

section \<open>Encoding\<close>

definition enc_uint :: "'a::len word \<Rightarrow> json" where
  "enc_uint v = JNum (dec (unat v))"

definition enc_int :: "int \<Rightarrow> json" where
  "enc_int i = JNum (itoa i)"

lemma dec_uint_enc [simp]: "dec_uint old (enc_uint v) = Some v"
  using unsigned_less [of v, where 'a = nat] by (simp add: dec_uint_def enc_uint_def)

lemma dec_int_enc: "- (2 ^ 63) \<le> i \<Longrightarrow> i < 2 ^ 63 \<Longrightarrow> dec_int old (enc_int i) = Some i"
  by (simp add: dec_int_def enc_int_def atoi_itoa)

lemma dec_str_JStr [simp]: "dec_str old (JStr s) = Some s"
  by (simp add: dec_str_def)

lemma dec_bool_JBool [simp]: "dec_bool old (JBool b) = Some b"
  by (simp add: dec_bool_def)

lemma dec_elems_map:
  "(\<And>x. d zero (e x) = Some x) \<Longrightarrow> dec_elems d zero (map e xs) = Some xs"
  by (induction xs) auto

lemma dec_slice_map:
  "(\<And>x. d zero (e x) = Some x) \<Longrightarrow> dec_slice d zero old (JArr (map e xs)) = Some xs"
  by (simp add: dec_slice_def dec_elems_map)

lemma dec_members_simps:
  "dec_struct fs r (JObj kvs) = dec_members fs r kvs"
  "dec_struct fs r JNull = Some r"
  by (simp_all add: dec_struct_def)

lemma wf_enc_uint [simp]: "wf_json (enc_uint v)"
  by (simp add: enc_uint_def)

lemma valid_num_minus: "s \<noteq> [] \<Longrightarrow> hd s \<noteq> CHR ''-'' \<Longrightarrow> valid_num (CHR ''-'' # s) = valid_num s"
  by (cases s) (simp_all add: valid_num_def Let_def)

lemma valid_num_itoa: "valid_num (itoa i)"
  using digit_not_sign [OF hd_dec_digit] by (auto simp: itoa_def valid_num_minus)

lemma wf_enc_int [simp]: "wf_json (enc_int i)"
  by (simp add: enc_int_def valid_num_itoa)

end
