(* ===== verification/Go_Maps.thy ===== *)
theory Go_Maps
  imports Main "HOL-Library.Multiset" "HOL-Library.AList"
begin

text \<open>
  A Go map is an association list with distinct keys. A \<open>range\<close> loop over a map visits its
  entries in an order the program does not control: \<open>reorder\<close> turns a choice sequence into
  such an order, and every order is one.
\<close>

fun reorder :: "nat list \<Rightarrow> 'a list \<Rightarrow> 'a list" where
  "reorder [] xs = xs"
| "reorder (n # ns) [] = []"
| "reorder (n # ns) (x # xs) =
     (let k = n mod length (x # xs)
      in (x # xs) ! k # reorder ns (take k (x # xs) @ drop (Suc k) (x # xs)))"

lemma mset_remove_nth: "k < length xs \<Longrightarrow> add_mset (xs ! k) (mset (take k xs @ drop (Suc k) xs)) = mset xs"
  by (metis (no_types, lifting) id_take_nth_drop mset.simps(2) mset_append union_mset_add_mset_right)

lemma mset_reorder [simp]: "mset (reorder ns xs) = mset xs"
proof (induction ns xs rule: reorder.induct)
  case (3 n ns x xs)
  have "n mod length (x # xs) < length (x # xs)" by simp
  from mset_remove_nth [OF this] show ?case
    using 3 [OF refl] by (simp only: reorder.simps Let_def mset.simps)
qed simp_all

lemma set_reorder [simp]: "set (reorder ns xs) = set xs"
  by (metis mset_reorder set_mset_mset)

lemma distinct_reorder [simp]: "distinct (map fst (reorder ns xs)) = distinct (map fst xs)"
  by (metis mset_eq_imp_distinct_iff mset_map mset_reorder)

lemma length_reorder [simp]: "length (reorder ns xs) = length xs"
  by (metis mset_reorder size_mset)

text \<open>Every order of the entries is the one some choice sequence makes.\<close>

lemma reorder_complete: "mset ys = mset xs \<Longrightarrow> \<exists>ns. reorder ns xs = ys"
proof (induction ys arbitrary: xs)
  case (Cons y ys)
  then obtain k where k: "k < length xs" "xs ! k = y"
    by (metis in_set_conv_nth list.set_intros(1) set_mset_mset)
  have "mset ys = mset (take k xs @ drop (Suc k) xs)"
    using Cons.prems mset_remove_nth [OF k(1)] k(2) by (metis add_mset_add_mset_same_iff mset.simps(2))
  then obtain ns where "reorder ns (take k xs @ drop (Suc k) xs) = ys"
    using Cons.IH by blast
  with k have "reorder (k # ns) xs = y # ys"
    by (cases xs) (simp_all add: Let_def)
  then show ?case ..
qed (auto intro: exI [of _ "[]"])

lemma map_of_distinct_eq:
  "distinct (map fst xs) \<Longrightarrow> (map_of xs k = Some v) = ((k, v) \<in> set xs)"
  by (rule map_of_eq_Some_iff)

lemma map_of_filter_val:
  "distinct (map fst xs) \<Longrightarrow>
   map_of (filter (\<lambda>(k, v). P v) xs) = (\<lambda>k. case map_of xs k of None \<Rightarrow> None | Some v \<Rightarrow> if P v then Some v else None)"
proof (induction xs)
  case (Cons x xs)
  then have "map_of xs (fst x) = None"
    by (simp add: map_of_eq_None_iff)
  with Cons show ?case
    by (cases x) (auto simp: fun_eq_iff)
qed auto

lemma distinct_filter_fst: "distinct (map fst xs) \<Longrightarrow> distinct (map fst (filter P xs))"
  by (simp add: distinct_map_filter)

end
