(* ===== verification/Port_Allocator.thy ===== *)
theory Port_Allocator
  imports Winc_World Go_Json_Struct Go_Maps "HOL-Library.Char_ord" "HOL-Library.List_Lexorder"
begin

text \<open>
  network/port_allocator: the pool of host ports (pool.go), its file (serial) and the
  allocator that reads, changes and rewrites the file under a lock (port_allocator.go).
  The lemmas show that a pool survives being written and read, that the allocator refines
  a partial map from ports to handles, and that no port is given out twice before it is
  released, for any interleaving of allocators on the same file.
\<close>

section \<open>The locked file\<close>

text \<open>
  \<open>filelock\<close>: \<open>Open\<close> waits for the lock, creates the file when it is missing and starts at
  offset 0. A read takes the rest of the file; every reader seeks before the next access.
\<close>

definition Lock_Open :: "string \<Rightarrow> unit op" where
  "Lock_Open p = os_op (OLockOpen p)
     (\<lambda>w. if files w p = None \<and> o_PartialWrite (e_os (w_env w)) (hist w) p \<noteq> None
          then w\<lparr>files := (files w)(p := Some [])\<rparr> else w)
     (\<lambda>w. (Ok (), w\<lparr>files := (files w)(p := Some (case files w p of None \<Rightarrow> [] | Some c \<Rightarrow> c)),
                     offs := (offs w)(p := 0)\<rparr>))"

definition content_of :: "world \<Rightarrow> string \<Rightarrow> string" where
  "content_of w p = (case files w p of None \<Rightarrow> [] | Some c \<Rightarrow> c)"

definition file_Seek0 :: "string \<Rightarrow> unit op" where
  "file_Seek0 p = os_op (OSeek p) id (\<lambda>w. (Ok (), w\<lparr>offs := (offs w)(p := 0)\<rparr>))"

definition file_ReadRest :: "string \<Rightarrow> string op" where
  "file_ReadRest p = os_op (ORead p) id (\<lambda>w.
     (Ok (drop (offs w p) (content_of w p)),
      w\<lparr>offs := (offs w)(p := max (offs w p) (length (content_of w p)))\<rparr>))"

definition file_Truncate0 :: "string \<Rightarrow> unit op" where
  "file_Truncate0 p = os_op (OTruncate p 0) id (\<lambda>w. (Ok (), w\<lparr>files := (files w)(p := Some [])\<rparr>))"

text \<open>
  A write at an offset past the end fills the gap with zero bytes. A write that fails has
  written some beginning of the data, at the same offset.
\<close>

definition write_at :: "nat \<Rightarrow> string \<Rightarrow> string \<Rightarrow> string" where
  "write_at k d c = take k c @ replicate (k - length c) (CHR 0x00) @ d @ drop (k + length d) c"

definition write_bytes :: "string \<Rightarrow> string \<Rightarrow> world \<Rightarrow> world" where
  "write_bytes p d w =
     (if d = [] then w
      else w\<lparr>files := (files w)(p := Some (write_at (offs w p) d (content_of w p))),
             offs := (offs w)(p := offs w p + length d)\<rparr>)"

definition file_Write :: "string \<Rightarrow> string \<Rightarrow> unit op" where
  "file_Write p d = os_op (OWrite p d)
     (\<lambda>w. write_bytes p (take (o_Written (e_os (w_env w)) (hist w) p) d) w)
     (\<lambda>w. (Ok (), write_bytes p d w))"

definition file_Close :: "string \<Rightarrow> unit op" where
  "file_Close p = os_op (OClose p) id (ret ())"

section \<open>The pool\<close>

text \<open>\<open>AcquiredPorts\<close> is \<open>None\<close> for a nil map.\<close>

record Pool =
  AcquiredPorts :: "(u16 \<times> string) list option"

definition zero_Pool :: Pool where
  "zero_Pool = \<lparr>AcquiredPorts = None\<rparr>"

definition acquired :: "Pool \<Rightarrow> (u16 \<times> string) list" where
  "acquired pool = (case AcquiredPorts pool of None \<Rightarrow> [] | Some m \<Rightarrow> m)"

definition ErrorPortPoolExhausted :: error where
  "ErrorPortPoolExhausted = Errorf ''port pool exhausted''"

text \<open>The ports of each handle, in the order the pool is visited.\<close>

fun group_ports :: "(u16 \<times> string) list \<Rightarrow> (string \<times> u16 list) list \<Rightarrow> (string \<times> u16 list) list" where
  "group_ports [] m = m"
| "group_ports ((port, handle) # es) m =
     group_ports es
       (AList.update handle ((case map_of m handle of None \<Rightarrow> [] | Some ps \<Rightarrow> ps) @ [port]) m)"

text \<open>\<open>json.Marshal\<close> prints the keys of a map in ascending order.\<close>

definition Pool_MarshalJSON :: "nat list \<Rightarrow> Pool \<Rightarrow> json" where
  "Pool_MarshalJSON order pool =
     (let jsonData = group_ports (reorder order (acquired pool)) []
      in JObj [(''acquired_ports'',
                JObj (map (\<lambda>(handle, ports). (handle, JArr (map enc_uint ports))) (sort_key fst jsonData)))])"

definition pool_fields :: "(string \<times> u16 list) list fields" where
  "pool_fields = [(''acquired_ports'', dec_map (dec_slice dec_uint 0) [])]"

fun ungroup_ports :: "(string \<times> u16 list) list \<Rightarrow> (u16 \<times> string) list \<Rightarrow> (u16 \<times> string) list" where
  "ungroup_ports [] m = m"
| "ungroup_ports ((handle, ports) # g) m =
     ungroup_ports g (fold (\<lambda>port m. AList.update port handle m) ports m)"

definition Pool_UnmarshalJSON :: "nat list \<Rightarrow> json \<Rightarrow> Pool option" where
  "Pool_UnmarshalJSON order j =
     (case dec_struct pool_fields [] j of
        None \<Rightarrow> None
      | Some jsonData \<Rightarrow> Some \<lparr>AcquiredPorts = Some (ungroup_ports (reorder order jsonData) [])\<rparr>)"

section \<open>The tracker\<close>

record Tracker =
  StartPort :: u16
  Capacity :: u16

definition InRange :: "Tracker \<Rightarrow> u16 \<Rightarrow> bool" where
  "InRange t port \<longleftrightarrow> StartPort t \<le> port \<and> port < StartPort t + Capacity t"

definition contains :: "(u16 \<times> string) list \<Rightarrow> u16 \<Rightarrow> bool" where
  "contains list candidate \<longleftrightarrow> map_of list candidate \<noteq> None"

text \<open>The search loop from index \<open>i\<close>; \<open>i\<close> is below the capacity when it is increased.\<close>

function acquire_from :: "Tracker \<Rightarrow> (u16 \<times> string) list \<Rightarrow> u16 \<Rightarrow> u16 option" where
  "acquire_from t ports i =
     (if i < Capacity t
      then (if \<not> contains ports (StartPort t + i) then Some (StartPort t + i)
            else acquire_from t ports (i + 1))
      else None)"
  by pat_completeness auto

lemma unat_Suc_below:
  fixes i n :: "'a::len word"
  assumes "i < n"
  shows "unat (i + 1) = Suc (unat i)"
proof -
  have "unat n < 2 ^ LENGTH('a)"
    by (rule unsigned_less)
  then have "Suc (unat i) < 2 ^ LENGTH('a)"
    using assms unfolding word_less_nat_alt by linarith
  then show ?thesis
    by (simp add: unat_word_ariths)
qed

termination acquire_from
  by (relation "measure (\<lambda>(t, ports, i). unat (Capacity t) - unat i)")
     (auto simp: unat_Suc_below word_less_nat_alt)

declare acquire_from.simps [simp del]

definition AcquireOne :: "Tracker \<Rightarrow> Pool \<Rightarrow> string \<Rightarrow> (error + u16) \<times> Pool" where
  "AcquireOne t pool handler =
     (let m = acquired pool
      in case acquire_from t m 0 of
           Some port \<Rightarrow> (Inr port, pool\<lparr>AcquiredPorts := Some (AList.update port handler m)\<rparr>)
         | None \<Rightarrow> (Inl ErrorPortPoolExhausted, pool\<lparr>AcquiredPorts := Some m\<rparr>))"

definition ReleaseAll :: "Tracker \<Rightarrow> Pool \<Rightarrow> string \<Rightarrow> Pool" where
  "ReleaseAll t pool handle =
     pool\<lparr>AcquiredPorts := map_option (filter (\<lambda>(port, h). \<not> h = handle)) (AcquiredPorts pool)\<rparr>"

section \<open>The serializer\<close>

text \<open>
  \<open>DecodeAll\<close> decodes the first JSON value of the file; a file with no value at all is
  \<open>io.EOF\<close>, which is not an error and leaves the data as it was.
\<close>

definition DecodeAll :: "string \<Rightarrow> Pool \<Rightarrow> Pool op" where
  "DecodeAll file outData =
     bind (file_Seek0 file) (\<lambda>_.
     bind (file_ReadRest file) (\<lambda>text0.
     bind map_order (\<lambda>order.
     bind (asks (\<lambda>e. o_JsonMessage (e_lib e) text0)) (\<lambda>msg.
       if skip_ws text0 = [] then ret outData
       else case decode_json text0 of
              None \<Rightarrow> throw (JsonError msg)
            | Some (j, _) \<Rightarrow> (case Pool_UnmarshalJSON order j of
                None \<Rightarrow> throw (JsonError msg)
              | Some pool \<Rightarrow> ret pool)))))"

definition EncodeAndOverwrite :: "string \<Rightarrow> Pool \<Rightarrow> unit op" where
  "EncodeAndOverwrite file outData =
     bind (file_Seek0 file) (\<lambda>_.
     bind (file_Truncate0 file) (\<lambda>_.
     bind map_order (\<lambda>order.
       file_Write file (encode_json (Pool_MarshalJSON order outData)))))"

section \<open>The allocator\<close>

record PortAllocator =
  pa_Tracker :: Tracker
  pa_Locker :: string

definition AllocatePort :: "PortAllocator \<Rightarrow> string \<Rightarrow> u16 \<Rightarrow> u16 op" where
  "AllocatePort p handle port =
     (if port \<noteq> 0 then
        (if InRange (pa_Tracker p) port
         then throw (Errorf ''cannot specify port from allocation range'')
         else ret port)
      else
        bind (annotate ''open lock'' (Lock_Open (pa_Locker p))) (\<lambda>_.
        deferring (file_Close (pa_Locker p))
          (bind (annotate ''decoding state file'' (DecodeAll (pa_Locker p) zero_Pool)) (\<lambda>pool.
           case AcquireOne (pa_Tracker p) pool handle of (r, pool') \<Rightarrow>
           bind (annotate ''acquire port'' (lift_sum r)) (\<lambda>newPort.
           bind (annotate ''encode and overwrite'' (EncodeAndOverwrite (pa_Locker p) pool')) (\<lambda>_.
           ret newPort))))))"

definition ReleaseAllPorts :: "PortAllocator \<Rightarrow> string \<Rightarrow> unit op" where
  "ReleaseAllPorts p handle =
     bind (annotate ''open lock'' (Lock_Open (pa_Locker p))) (\<lambda>_.
     deferring (file_Close (pa_Locker p))
       (bind (annotate ''decoding state file'' (DecodeAll (pa_Locker p) zero_Pool)) (\<lambda>pool.
        annotate ''encode and overwrite''
          (EncodeAndOverwrite (pa_Locker p) (ReleaseAll (pa_Tracker p) pool handle)))))"

section \<open>The pool as a partial map\<close>

definition owners :: "Pool \<Rightarrow> (u16 \<rightharpoonup> string)" where
  "owners pool = map_of (acquired pool)"

definition wf_pool :: "Pool \<Rightarrow> bool" where
  "wf_pool pool \<longleftrightarrow> distinct (map fst (acquired pool))"

lemma acquired_simps [simp]:
  "acquired zero_Pool = []" "acquired \<lparr>AcquiredPorts = Some m\<rparr> = m"
  "acquired (pool\<lparr>AcquiredPorts := Some m\<rparr>) = m"
  by (simp_all add: acquired_def zero_Pool_def)

lemma acquire_from_Some:
  "acquire_from t ports i = Some p \<Longrightarrow>
   \<exists>k. i \<le> k \<and> k < Capacity t \<and> p = StartPort t + k \<and> map_of ports p = None
       \<and> (\<forall>j. i \<le> j \<and> j < k \<longrightarrow> map_of ports (StartPort t + j) \<noteq> None)"
proof (induction t ports i rule: acquire_from.induct)
  case (1 t ports i)
  show ?case
  proof (cases "i < Capacity t \<and> contains ports (StartPort t + i)")
    case True
    then have "acquire_from t ports (i + 1) = Some p"
      using "1.prems" by (simp add: acquire_from.simps [of t ports i])
    then obtain k where k: "i + 1 \<le> k" "k < Capacity t" "p = StartPort t + k" "map_of ports p = None"
      and used: "\<forall>j. i + 1 \<le> j \<and> j < k \<longrightarrow> map_of ports (StartPort t + j) \<noteq> None"
      using "1.IH" True by blast
    have le: "i + 1 \<le> j \<longleftrightarrow> i < j" for j
      using True unat_Suc_below [of i "Capacity t"] by (auto simp: word_le_nat_alt word_less_nat_alt Suc_le_eq)
    have "map_of ports (StartPort t + j) \<noteq> None" if "i \<le> j" "j < k" for j
      using that used True by (cases "j = i") (auto simp: le contains_def)
    moreover have "i \<le> k"
      using k(1) le by simp
    ultimately show ?thesis
      using k by blast
  next
    case False
    then show ?thesis
      using "1.prems" by (auto simp: acquire_from.simps [of t ports i] contains_def split: if_splits)
  qed
qed

lemma acquire_from_None:
  "acquire_from t ports i = None \<Longrightarrow> i \<le> k \<Longrightarrow> k < Capacity t \<Longrightarrow>
   map_of ports (StartPort t + k) \<noteq> None"
proof (induction t ports i rule: acquire_from.induct)
  case (1 t ports i)
  have i: "i < Capacity t"
    using "1.prems"(2,3) by simp
  then have used: "contains ports (StartPort t + i)" "acquire_from t ports (i + 1) = None"
    using "1.prems"(1) by (auto simp: acquire_from.simps [of t ports i] split: if_splits)
  show ?case
  proof (cases "k = i")
    case False
    then have "i + 1 \<le> k"
      using "1.prems"(2) unat_Suc_below [OF i] by (simp add: word_le_nat_alt Suc_le_eq word_unat_eq_iff)
    then show ?thesis
      using "1.IH" i used "1.prems"(3) by blast
  qed (use used in \<open>simp add: contains_def\<close>)
qed

text \<open>
  \<open>AcquireOne\<close> hands out the first free port of the tracker's range and records its
  owner, leaving every other port as it was; it fails exactly when the whole range is
  taken, and then changes nothing.
\<close>

theorem AcquireOne_spec:
  "case AcquireOne t pool handler of
     (Inr p, pool') \<Rightarrow>
       (\<exists>k < Capacity t. p = StartPort t + k \<and> owners pool p = None
          \<and> (\<forall>j < k. owners pool (StartPort t + j) \<noteq> None))
       \<and> owners pool' = (owners pool)(p \<mapsto> handler)
   | (Inl e, pool') \<Rightarrow>
       e = ErrorPortPoolExhausted \<and> (\<forall>k < Capacity t. owners pool (StartPort t + k) \<noteq> None)
       \<and> owners pool' = owners pool"
proof (cases "acquire_from t (acquired pool) 0")
  case None
  then show ?thesis
    using acquire_from_None [OF None] by (simp add: AcquireOne_def owners_def)
next
  case (Some p)
  then show ?thesis
    using acquire_from_Some [OF Some] by (auto simp: AcquireOne_def owners_def update_conv')
qed

theorem AcquireOne_spec_witness:
  "let t = \<lparr>StartPort = 40000, Capacity = 2\<rparr>; pool = \<lparr>AcquiredPorts = Some [(40000, ''a'')]\<rparr>
   in fst (AcquireOne t pool ''b'') = Inr 40001
      \<and> owners (snd (AcquireOne t pool ''b'')) = [40000 \<mapsto> ''a'', 40001 \<mapsto> ''b'']"
proof -
  let ?t = "\<lparr>StartPort = 40000, Capacity = 2\<rparr>" and ?pool = "\<lparr>AcquiredPorts = Some [(40000, ''a'')]\<rparr>"
  have run: "fst (AcquireOne ?t ?pool ''b'') = Inr 40001"
    by (simp add: AcquireOne_def acquired_def acquire_from.simps contains_def)
  then show ?thesis
    using AcquireOne_spec [of ?t ?pool "''b''"]
    by (cases "AcquireOne ?t ?pool ''b''") (auto simp: Let_def owners_def [of ?pool] acquired_def)
qed

lemma AcquireOne_Inr:
  assumes "AcquireOne t pool h = (Inr p, pool')"
  shows "owners pool p = None" "owners pool' = (owners pool)(p \<mapsto> h)" "wf_pool pool \<Longrightarrow> wf_pool pool'"
    and "\<exists>k < Capacity t. p = StartPort t + k"
  using assms acquire_from_Some [of t "acquired pool" 0 p]
  by (auto simp: AcquireOne_def Let_def owners_def update_conv' wf_pool_def distinct_update split: option.splits)

lemma owners_ReleaseAll:
  assumes "wf_pool pool"
  shows "owners (ReleaseAll t pool h) = (\<lambda>p. if owners pool p = Some h then None else owners pool p)"
proof -
  have "acquired (ReleaseAll t pool h) = filter (\<lambda>(port, h'). \<not> h' = h) (acquired pool)"
    by (simp add: ReleaseAll_def acquired_def split: option.split)
  then show ?thesis
    using assms by (auto simp: owners_def wf_pool_def map_of_filter_val fun_eq_iff split: option.splits)
qed

lemma wf_ReleaseAll: "wf_pool pool \<Longrightarrow> wf_pool (ReleaseAll t pool h)"
  by (auto simp: wf_pool_def ReleaseAll_def acquired_def distinct_filter_fst split: option.splits)

section \<open>Writing and reading a pool\<close>

definition port_pairs :: "(string \<times> u16 list) list \<Rightarrow> (u16 \<times> string) set" where
  "port_pairs g = {(p, h). \<exists>ps. (h, ps) \<in> set g \<and> p \<in> set ps}"

lemma port_pairs_Cons: "port_pairs ((h, ps) # g) = (\<lambda>p. (p, h)) ` set ps \<union> port_pairs g"
  by (auto simp: port_pairs_def)

lemma port_pairs_map_of:
  "distinct (map fst g) \<Longrightarrow> port_pairs g = {(p, h). \<exists>ps. map_of g h = Some ps \<and> p \<in> set ps}"
  by (simp add: port_pairs_def)

lemma port_pairs_update:
  assumes "distinct (map fst g)"
  shows "port_pairs (AList.update h ((case map_of g h of None \<Rightarrow> [] | Some ps \<Rightarrow> ps) @ [p]) g)
         = insert (p, h) (port_pairs g)"
  using assms
  by (auto simp: port_pairs_map_of distinct_update update_conv' split: if_splits option.splits)

lemma group_ports_pairs:
  "distinct (map fst g) \<Longrightarrow>
   port_pairs (group_ports es g) = set es \<union> port_pairs g \<and> distinct (map fst (group_ports es g))"
  by (induction es g rule: group_ports.induct) (auto simp: port_pairs_update distinct_update)

lemma map_of_fold_update:
  "map_of (fold (\<lambda>p m. AList.update p h m) ps m) q = (if q \<in> set ps then Some h else map_of m q)"
  by (induction ps arbitrary: m) (auto simp: update_conv')

lemma distinct_fold_update:
  "distinct (map fst m) \<Longrightarrow> distinct (map fst (fold (\<lambda>p m. AList.update p h m) ps m))"
  by (induction ps arbitrary: m) (auto simp: distinct_update)

lemma ungroup_ports_distinct: "distinct (map fst m) \<Longrightarrow> distinct (map fst (ungroup_ports g m))"
  by (induction g m rule: ungroup_ports.induct) (auto simp: distinct_fold_update)

lemma ungroup_ports_other: "p \<notin> fst ` port_pairs g \<Longrightarrow> map_of (ungroup_ports g m) p = map_of m p"
proof (induction g m rule: ungroup_ports.induct)
  case (2 h ps g m)
  have "p \<notin> set ps" "p \<notin> fst ` port_pairs g"
    using "2.prems" by (simp_all add: port_pairs_Cons image_Un image_image)
  then show ?case
    using "2.IH" by (simp add: map_of_fold_update)
qed simp

lemma ungroup_ports_owner:
  "single_valued (port_pairs g) \<Longrightarrow> (p, h) \<in> port_pairs g \<Longrightarrow> map_of (ungroup_ports g m) p = Some h"
proof (induction g m rule: ungroup_ports.induct)
  case (2 h0 ps g m)
  have sv: "single_valued (port_pairs g)"
    by (rule single_valued_subset [OF _ "2.prems"(1)]) (auto simp: port_pairs_Cons)
  show ?case
  proof (cases "p \<in> fst ` port_pairs g")
    case True
    then obtain h' where h': "(p, h') \<in> port_pairs g" by auto
    moreover have "h' = h"
      by (rule single_valuedD [OF "2.prems"(1) _ "2.prems"(2)]) (simp add: port_pairs_Cons h')
    ultimately show ?thesis
      using "2.IH" sv by simp
  next
    case False
    moreover have "(p, h) \<notin> port_pairs g"
      using False by force
    ultimately have "p \<in> set ps" "h = h0"
      using "2.prems"(2) by (auto simp: port_pairs_Cons)
    then show ?thesis
      using ungroup_ports_other [OF False] by (simp add: map_of_fold_update)
  qed
qed (simp add: port_pairs_def)

lemma map_of_ungroup_ports:
  assumes "\<And>p h. m p = Some h \<longleftrightarrow> (p, h) \<in> port_pairs g"
  shows "map_of (ungroup_ports g []) = m"
proof
  fix p
  have sv: "single_valued (port_pairs g)"
    using assms by (auto simp: single_valued_def) (metis option.inject)
  show "map_of (ungroup_ports g []) p = m p"
  proof (cases "m p")
    case None
    then have "p \<notin> fst ` port_pairs g" using assms by force
    then show ?thesis using None by (simp add: ungroup_ports_other)
  next
    case (Some h)
    then show ?thesis using ungroup_ports_owner [OF sv] assms by metis
  qed
qed

text \<open>A text that holds a partial map: what a decoder would find in it.\<close>

definition pool_text :: "string \<Rightarrow> (u16 \<rightharpoonup> string) \<Rightarrow> bool" where
  "pool_text c m \<longleftrightarrow>
     (if skip_ws c = [] then m = Map.empty
      else \<exists>j r g. decode_json c = Some (j, r) \<and> dec_struct pool_fields [] j = Some g
             \<and> (\<forall>p h. m p = Some h \<longleftrightarrow> (p, h) \<in> port_pairs g))"

lemma pool_text_unique: "pool_text c m \<Longrightarrow> pool_text c m' \<Longrightarrow> m = m'"
proof -
  assume "pool_text c m" "pool_text c m'"
  then have "m p = Some h \<longleftrightarrow> m' p = Some h" for p h
    by (auto simp: pool_text_def split: if_splits)
  then show "m = m'"
    by (intro ext) (metis not_Some_eq)
qed

lemma update_new_key: "k \<notin> fst ` set m \<Longrightarrow> AList.update k x m = m @ [(k, x)]"
  by (induction m) auto

lemma dec_entries_append:
  "(\<And>x. d zero (e x) = Some x) \<Longrightarrow> distinct (map fst (m @ g)) \<Longrightarrow>
   dec_entries d zero m (map (\<lambda>(k, x). (k, e x)) g) = Some (m @ g)"
proof (induction g arbitrary: m)
  case (Cons a g)
  obtain k x where a: "a = (k, x)" by (cases a)
  have new: "AList.update k x m = m @ [(k, x)]"
    using Cons.prems(2) by (auto simp: a intro: update_new_key)
  show ?case
    using Cons.IH [of "m @ [(k, x)]"] Cons.prems by (simp add: a new)
qed simp

lemma distinct_sort_key: "distinct (map fst (sort_key fst xs)) = distinct (map fst xs)"
  by (metis mset_eq_imp_distinct_iff mset_map mset_sort)

lemma dec_pool_MarshalJSON:
  "dec_struct pool_fields [] (Pool_MarshalJSON order pool)
   = Some (sort_key fst (group_ports (reorder order (acquired pool)) []))"
  using dec_entries_append [of "dec_slice dec_uint 0" "[]" "\<lambda>ps. JArr (map enc_uint ps)" "[]"
      "sort_key fst (group_ports (reorder order (acquired pool)) [])"]
    group_ports_pairs [of "[]" "reorder order (acquired pool)"]
  by (simp add: Pool_MarshalJSON_def Let_def dec_struct_def field_for_def pool_fields_def
      dec_map_def dec_slice_map distinct_sort_key case_prod_unfold)

lemma wf_Pool_MarshalJSON: "wf_json (Pool_MarshalJSON order pool)"
  by (auto simp: Pool_MarshalJSON_def Let_def list_all_iff)

lemma port_pairs_MarshalJSON:
  assumes "wf_pool pool"
  shows "owners pool p = Some h \<longleftrightarrow>
         (p, h) \<in> port_pairs (sort_key fst (group_ports (reorder order (acquired pool)) []))"
proof -
  have "port_pairs (sort_key fst (group_ports (reorder order (acquired pool)) [])) = set (acquired pool)"
    using group_ports_pairs [of "[]" "reorder order (acquired pool)"] by (simp add: port_pairs_def)
  then show ?thesis
    using assms by (simp add: owners_def wf_pool_def)
qed

lemma pool_text_encode:
  assumes "wf_pool pool"
  shows "pool_text (encode_json (Pool_MarshalJSON order pool)) (owners pool)"
proof -
  have dec: "decode_json (encode_json (Pool_MarshalJSON order pool))
             = Some (Pool_MarshalJSON order pool, [CHR 0x0A])"
    using decode_encode [OF wf_Pool_MarshalJSON, of order pool "[]"] by simp
  then have "skip_ws (encode_json (Pool_MarshalJSON order pool)) \<noteq> []"
    by (metis decode_empty option.distinct(1))
  with dec show ?thesis
    using port_pairs_MarshalJSON [OF assms] by (auto simp: pool_text_def dec_pool_MarshalJSON)
qed

lemma UnmarshalJSON_owners:
  assumes "dec_struct pool_fields [] j = Some g" and "\<And>p h. m p = Some h \<longleftrightarrow> (p, h) \<in> port_pairs g"
  shows "\<exists>pool. Pool_UnmarshalJSON order j = Some pool \<and> owners pool = m \<and> wf_pool pool"
proof -
  have "port_pairs (reorder order g) = port_pairs g"
    by (simp add: port_pairs_def)
  then have "map_of (ungroup_ports (reorder order g) []) = m"
    using assms(2) by (intro map_of_ungroup_ports) simp
  then show ?thesis
    using assms(1) by (simp add: Pool_UnmarshalJSON_def owners_def wf_pool_def ungroup_ports_distinct)
qed

text \<open>
  C24: a pool that is written to the state file and read again owns the same ports for the
  same handles, whatever order the two maps are visited in.
\<close>

theorem pool_roundtrip:
  assumes "wf_pool pool"
  shows "\<exists>j pool'. decode_json (encode_json (Pool_MarshalJSON order1 pool)) = Some (j, [CHR 0x0A])
           \<and> Pool_UnmarshalJSON order2 j = Some pool' \<and> owners pool' = owners pool"
  using decode_encode [OF wf_Pool_MarshalJSON, of order1 pool "[]"]
    UnmarshalJSON_owners [OF dec_pool_MarshalJSON port_pairs_MarshalJSON [OF assms]]
  by (metis append_Nil2)

theorem pool_roundtrip_witness:
  "\<exists>j pool'. decode_json (encode_json (Pool_MarshalJSON [1]
         \<lparr>AcquiredPorts = Some [(40000, ''a''), (40001, ''b'')]\<rparr>)) = Some (j, [CHR 0x0A])
     \<and> Pool_UnmarshalJSON [0] j = Some pool' \<and> owners pool' = [40000 \<mapsto> ''a'', 40001 \<mapsto> ''b'']"
  using pool_roundtrip [of "\<lparr>AcquiredPorts = Some [(40000, ''a''), (40001, ''b'')]\<rparr>" "[1]" "[0]"]
  by (auto simp: wf_pool_def owners_def fun_upd_twist)

section \<open>The file as a partial map\<close>

definition ledger :: "string \<Rightarrow> world \<Rightarrow> (u16 \<rightharpoonup> string) \<Rightarrow> bool" where
  "ledger file w m \<longleftrightarrow> pool_text (content_of w file) m"

lemma ledger_unique: "ledger file w m \<Longrightarrow> ledger file w m' \<Longrightarrow> m = m'"
  by (simp add: ledger_def pool_text_unique)

lemma content_frames [frame_intros]:
  "frame (\<lambda>w. content_of w q) (Lock_Open p)"
  "frame (\<lambda>w. content_of w q) (file_Seek0 p)"
  "frame (\<lambda>w. content_of w q) (file_ReadRest p)"
  "frame (\<lambda>w. content_of w q) (file_Close p)"
  by (auto simp: frame_def Lock_Open_def file_Seek0_def file_ReadRest_def file_Close_def
      os_op_def content_of_def split: option.splits if_splits)

lemma DecodeAll_frame [frame_intros]: "frame (\<lambda>w. content_of w q) (DecodeAll p pool)"
  unfolding DecodeAll_def by (intro frame_intros)

lemma DecodeAll_Ok:
  assumes "DecodeAll p zero_Pool w = (Ok pool, w')" and "ledger p w m"
  shows "owners pool = m" "wf_pool pool"
proof -
  obtain c where c: "c = content_of w p" "pool_text c m"
    using assms(2) by (simp add: ledger_def)
  have "owners pool = m \<and> wf_pool pool"
  proof (cases "skip_ws c = []")
    case True
    then have "pool = zero_Pool"
      using assms(1) c(1) by (auto simp: DecodeAll_def file_Seek0_def file_ReadRest_def os_op_def bind_def
          content_of_def map_order_def asks_def split: option.splits)
    then show ?thesis
      using c(2) True by (simp add: pool_text_def owners_def wf_pool_def)
  next
    case False
    then obtain j r g where g: "decode_json c = Some (j, r)" "dec_struct pool_fields [] j = Some g"
      "\<And>p h. m p = Some h \<longleftrightarrow> (p, h) \<in> port_pairs g"
      using c(2) by (auto simp: pool_text_def)
    obtain order where "Pool_UnmarshalJSON order j = Some pool"
      using assms(1) c(1) False g(1)
      by (auto simp: DecodeAll_def file_Seek0_def file_ReadRest_def os_op_def bind_def
          content_of_def map_order_def asks_def split: option.splits)
    then show ?thesis
      using UnmarshalJSON_owners [OF g(2,3), of order] by auto
  qed
  then show "owners pool = m" "wf_pool pool" by auto
qed

lemma encode_json_nonempty [simp]: "encode_json v \<noteq> []"
  by (simp add: encode_json_def)

lemma EncodeAndOverwrite_Ok:
  assumes "EncodeAndOverwrite p pool w = (Ok u, w')"
  shows "\<exists>order. content_of w' p = encode_json (Pool_MarshalJSON order pool)"
  using assms
  by (auto simp: EncodeAndOverwrite_def file_Seek0_def file_Truncate0_def file_Write_def os_op_def
      bind_def map_order_def content_of_def write_bytes_def write_at_def split: option.splits)

lemma ledger_EncodeAndOverwrite:
  "EncodeAndOverwrite p pool w = (Ok u, w') \<Longrightarrow> wf_pool pool \<Longrightarrow> ledger p w' (owners pool)"
  using EncodeAndOverwrite_Ok pool_text_encode unfolding ledger_def by metis

lemma no_panic_files [safe_intros]:
  "no_panic (Lock_Open p)" "no_panic (file_Seek0 p)" "no_panic (file_ReadRest p)"
  "no_panic (file_Truncate0 p)" "no_panic (file_Write p d)" "no_panic (file_Close p)"
  unfolding Lock_Open_def file_Seek0_def file_ReadRest_def file_Truncate0_def file_Write_def file_Close_def
  by (intro safe_intros | simp add: no_panic_def)+

lemma no_panic_DecodeAll [safe_intros]: "no_panic (DecodeAll p pool)"
  unfolding DecodeAll_def by (intro safe_intros)

lemma no_panic_EncodeAndOverwrite [safe_intros]: "no_panic (EncodeAndOverwrite p pool)"
  unfolding EncodeAndOverwrite_def by (intro safe_intros)

lemma no_panic_AllocatePort [safe_intros]: "no_panic (AllocatePort pa h port)"
  unfolding AllocatePort_def by (intro safe_intros)

lemma no_panic_ReleaseAllPorts [safe_intros]: "no_panic (ReleaseAllPorts pa h)"
  unfolding ReleaseAllPorts_def by (intro safe_intros)

lemma AllocatePort_fresh:
  assumes led: "ledger (pa_Locker pa) w m" and ok: "AllocatePort pa h 0 w = (Ok p, w')"
  shows "m p = None" "\<exists>k < Capacity (pa_Tracker pa). p = StartPort (pa_Tracker pa) + k"
    and "ledger (pa_Locker pa) w' (m(p \<mapsto> h))"
proof -
  let ?f = "pa_Locker pa"
  obtain w1 w2 w3 pool pool' q where w1: "Lock_Open ?f w = (Ok (), w1)"
    and pool: "DecodeAll ?f zero_Pool w1 = (Ok pool, w3)"
    and acq: "AcquireOne (pa_Tracker pa) pool h = (Inr p, pool')"
    and wr: "EncodeAndOverwrite ?f pool' w3 = (Ok (), w2)"
    and close: "file_Close ?f w2 = (q, w')"
    using ok unfolding AllocatePort_def
    by (auto elim!: ok_elims annotate_OkE split: prod.splits)
  have "ledger ?f w1 m"
    using led frameD [OF content_frames(1) w1] by (simp add: ledger_def)
  then have own: "owners pool = m" "wf_pool pool"
    using DecodeAll_Ok [OF pool] by auto
  have "ledger ?f w2 (owners pool')"
    using ledger_EncodeAndOverwrite [OF wr] AcquireOne_Inr(3) [OF acq] own by blast
  then show "ledger ?f w' (m(p \<mapsto> h))"
    using frameD [OF content_frames(4) close] AcquireOne_Inr(2) [OF acq] own by (simp add: ledger_def)
  show "m p = None" "\<exists>k < Capacity (pa_Tracker pa). p = StartPort (pa_Tracker pa) + k"
    using AcquireOne_Inr(1,4) [OF acq] own by auto
qed

lemma ReleaseAllPorts_drops:
  assumes led: "ledger (pa_Locker pa) w m" and ok: "ReleaseAllPorts pa h w = (Ok u, w')"
  shows "ledger (pa_Locker pa) w' (\<lambda>p. if m p = Some h then None else m p)"
proof -
  let ?f = "pa_Locker pa"
  obtain w1 w2 w3 pool q where w1: "Lock_Open ?f w = (Ok (), w1)"
    and pool: "DecodeAll ?f zero_Pool w1 = (Ok pool, w2)"
    and wr: "EncodeAndOverwrite ?f (ReleaseAll (pa_Tracker pa) pool h) w2 = (Ok (), w3)"
    and close: "file_Close ?f w3 = (q, w')"
    using ok unfolding ReleaseAllPorts_def by (auto elim!: ok_elims annotate_OkE)
  have "ledger ?f w1 m"
    using led frameD [OF content_frames(1) w1] by (simp add: ledger_def)
  then have own: "owners pool = m" "wf_pool pool"
    using DecodeAll_Ok [OF pool] by auto
  have "ledger ?f w3 (owners (ReleaseAll (pa_Tracker pa) pool h))"
    using ledger_EncodeAndOverwrite [OF wr wf_ReleaseAll [OF own(2)]] .
  then show ?thesis
    using frameD [OF content_frames(4) close] own by (simp add: ledger_def owners_ReleaseAll cong: if_cong)
qed

text \<open>When writes to the state file succeed, a failed request leaves the ledger alone.\<close>

definition writes_succeed :: "string \<Rightarrow> env \<Rightarrow> bool" where
  "writes_succeed file e \<longleftrightarrow> (\<forall>h d. o_OsFault (e_os e) h (OWrite file d) = None)"

lemma EncodeAndOverwrite_Err:
  "EncodeAndOverwrite p pool w = (Err e, w') \<Longrightarrow> writes_succeed p (w_env w) \<Longrightarrow>
   content_of w' p = content_of w p"
  by (auto simp: EncodeAndOverwrite_def file_Seek0_def file_Truncate0_def file_Write_def os_op_def
      bind_def map_order_def content_of_def writes_succeed_def split: option.splits)

lemma env_files [frame_intros]:
  "frame w_env (Lock_Open p)" "frame w_env (file_Seek0 p)" "frame w_env (file_ReadRest p)"
  "frame w_env (file_Truncate0 p)" "frame w_env (file_Write p d)" "frame w_env (file_Close p)"
  by (auto simp: frame_def Lock_Open_def file_Seek0_def file_ReadRest_def file_Truncate0_def
      file_Write_def write_bytes_def file_Close_def os_op_def split: option.splits if_splits)

lemma env_DecodeAll [frame_intros]: "frame w_env (DecodeAll p pool)"
  unfolding DecodeAll_def by (intro frame_intros)

lemma env_EncodeAndOverwrite [frame_intros]: "frame w_env (EncodeAndOverwrite p pool)"
  unfolding EncodeAndOverwrite_def by (intro frame_intros)

lemma env_AllocatePort [frame_intros]: "frame w_env (AllocatePort pa h port)"
  unfolding AllocatePort_def by (intro frame_intros)

lemma env_ReleaseAllPorts [frame_intros]: "frame w_env (ReleaseAllPorts pa h)"
  unfolding ReleaseAllPorts_def by (intro frame_intros)

text \<open>What a computation leaves alone when it returns an error.\<close>

definition err_keeps :: "(world \<Rightarrow> bool) \<Rightarrow> (world \<Rightarrow> 'v) \<Rightarrow> 'a op \<Rightarrow> bool" where
  "err_keeps Q f m \<longleftrightarrow> (\<forall>w e w'. Q w \<longrightarrow> m w = (Err e, w') \<longrightarrow> f w' = f w)"

lemma err_keepsD: "err_keeps Q f m \<Longrightarrow> m w = (Err e, w') \<Longrightarrow> Q w \<Longrightarrow> f w' = f w"
  by (simp add: err_keeps_def)

lemma err_keeps_frame: "frame f m \<Longrightarrow> err_keeps Q f m"
  by (simp add: err_keeps_def frame_def)

lemma err_keeps_bind:
  assumes "frame f m" "preserves Q m" "\<And>x. err_keeps Q f (g x)"
  shows "err_keeps Q f (bind m g)"
  unfolding err_keeps_def
proof (intro allI impI)
  fix w e w' assume Q: "Q w" and run: "bind m g w = (Err e, w')"
  from run show "f w' = f w"
  proof (cases rule: bind_cases)
    case (Ok x w1)
    then have "Q w1" "f w1 = f w"
      using assms Q by (auto dest: preservesD frameD)
    then show ?thesis
      using Ok assms(3) unfolding err_keeps_def by metis
  qed (use assms(1) in \<open>auto dest: frameD\<close>)
qed

lemma err_keeps_bind_ret:
  assumes "err_keeps Q f m"
  shows "err_keeps Q f (bind m (\<lambda>x. ret (g x)))"
proof -
  have "m w = (Err e, w')" if "bind m (\<lambda>x. ret (g x)) w = (Err e, w')" for w e w'
    using that by (cases rule: bind_cases) auto
  then show ?thesis
    using assms unfolding err_keeps_def by blast
qed

lemma err_keeps_annotate:
  assumes "err_keeps Q f m"
  shows "err_keeps Q f (annotate msg m)"
proof -
  have "\<exists>e'. m w = (Err e', w')" if "annotate msg m w = (Err e, w')" for w e w'
    using that by (cases rule: annotate_cases) auto
  then show ?thesis
    using assms unfolding err_keeps_def by blast
qed

lemma err_keeps_deferring:
  assumes "frame f d" "err_keeps Q f m"
  shows "err_keeps Q f (deferring d m)"
proof -
  have "\<exists>w1. m w = (Err e, w1) \<and> f w' = f w1" if "deferring d m w = (Err e, w')" for w e w'
    using that assms(1) by (cases rule: deferring_cases) (auto dest: frameD)
  then show ?thesis
    using assms(2) unfolding err_keeps_def by metis
qed

lemmas err_keeps_intros = err_keeps_bind_ret err_keeps_annotate err_keeps_deferring

lemma err_keeps_EncodeAndOverwrite:
  "err_keeps (\<lambda>w. writes_succeed p (w_env w)) (\<lambda>w. content_of w p) (EncodeAndOverwrite p pool)"
  by (simp add: err_keeps_def EncodeAndOverwrite_Err)

lemma err_keeps_AllocatePort:
  "err_keeps (\<lambda>w. writes_succeed (pa_Locker pa) (w_env w)) (\<lambda>w. content_of w (pa_Locker pa))
     (AllocatePort pa h port)"
proof (cases "port = 0")
  case True
  show ?thesis
    unfolding AllocatePort_def True
    by (auto intro!: err_keeps_bind err_keeps_intros err_keeps_EncodeAndOverwrite frame_intros
        preserves_frame [where f = w_env] split: prod.splits)
qed (auto simp: AllocatePort_def intro!: err_keeps_frame frame_intros)

lemma err_keeps_ReleaseAllPorts:
  "err_keeps (\<lambda>w. writes_succeed (pa_Locker pa) (w_env w)) (\<lambda>w. content_of w (pa_Locker pa))
     (ReleaseAllPorts pa h)"
  unfolding ReleaseAllPorts_def
  by (auto intro!: err_keeps_bind err_keeps_intros err_keeps_EncodeAndOverwrite frame_intros
      preserves_frame [where f = w_env])

section \<open>The contract of a port service\<close>

text \<open>
  What the clients of the allocator rely on: a ledger that says who owns which port, a set
  of ports that only the service hands out, and what the two requests do to the ledger.
\<close>

locale port_service =
  fixes alloc :: "string \<Rightarrow> u16 \<Rightarrow> ('w, error, u16) go"
    and release :: "string \<Rightarrow> ('w, error, unit) go"
    and led :: "'w \<Rightarrow> (u16 \<rightharpoonup> string) \<Rightarrow> bool"
    and managed :: "u16 \<Rightarrow> bool"
  assumes alloc_given_ok: "port \<noteq> 0 \<Longrightarrow> \<not> managed port \<Longrightarrow> alloc h port w = (Ok port, w)"
    and alloc_given_err: "port \<noteq> 0 \<Longrightarrow> managed port \<Longrightarrow> \<exists>e. alloc h port w = (Err e, w)"
    and alloc_fresh: "led w m \<Longrightarrow> alloc h 0 w = (Ok p, w') \<Longrightarrow>
          m p = None \<and> managed p \<and> led w' (m(p \<mapsto> h))"
    and release_drops: "led w m \<Longrightarrow> release h w = (Ok u, w') \<Longrightarrow>
          led w' (\<lambda>p. if m p = Some h then None else m p)"
begin

lemma alloc_given:
  assumes "port \<noteq> 0" "alloc h port w = (Ok p, w')"
  shows "p = port \<and> \<not> managed p \<and> w' = w"
  using assms alloc_given_ok [of port h w] alloc_given_err [of port h w] by (cases "managed port") auto

text \<open>Asking for one port per handle gives pairwise different, previously free ports.\<close>

lemma alloc_many:
  "led w m \<Longrightarrow> mapM (\<lambda>h. alloc h 0) hs w = (Ok ps, w') \<Longrightarrow>
   distinct ps \<and> length ps = length hs \<and> set ps \<inter> dom m = {} \<and> list_all managed ps \<and> led w' (m(ps [\<mapsto>] hs))"
proof (induction hs arbitrary: w m ps)
  case (Cons h hs)
  obtain p w1 ps' where p: "alloc h 0 w = (Ok p, w1)" and ps': "mapM (\<lambda>h. alloc h 0) hs w1 = (Ok ps', w')"
    and ps: "ps = p # ps'"
    using Cons.prems(2) by (auto elim!: bind_OkE)
  have fresh: "m p = None" "managed p" "led w1 (m(p \<mapsto> h))"
    using alloc_fresh [OF Cons.prems(1) p] by auto
  show ?case
    using Cons.IH [OF fresh(3) ps'] fresh(1,2) by (auto simp: ps fun_upd_def)
qed auto

text \<open>Releasing a handle gives back exactly what it was given since it owned nothing.\<close>

lemma alloc_release:
  assumes "led w m" "h \<notin> ran m" "mapM (\<lambda>h. alloc h 0) (replicate n h) w = (Ok ps, w1)"
    "release h w1 = (Ok u, w')"
  shows "led w' m"
proof -
  have many: "set ps \<inter> dom m = {}" "length ps = n" "led w1 (m(ps [\<mapsto>] replicate n h))"
    using alloc_many [OF assms(1,3)] by auto
  have upd: "(m(ps [\<mapsto>] replicate n h)) p = (if p \<in> set ps then Some h else m p)" for p
    using many(2)
  proof (induction ps arbitrary: m n)
    case (Cons q qs)
    then show ?case by (cases n) auto
  qed simp
  have "(if (m(ps [\<mapsto>] replicate n h)) p = Some h then None else (m(ps [\<mapsto>] replicate n h)) p) = m p" for p
    using many(1) assms(2) by (cases "m p") (auto simp: upd ran_def)
  then show ?thesis
    using release_drops [OF many(3) assms(4)] by simp
qed

end

section \<open>The allocator of winc-network\<close>

definition winc_ports :: PortAllocator where
  "winc_ports = \<lparr>pa_Tracker = \<lparr>StartPort = 40000, Capacity = 5000\<rparr>,
     pa_Locker = join [CHR 0x5C] [''C:'', ''var'', ''vcap'', ''data'', ''winc-network'', ''port-state.json'']\<rparr>"

lemma InRange_exact:
  assumes "unat (StartPort t) + unat (Capacity t) < 2 ^ 16"
  shows "InRange t p \<longleftrightarrow> (\<exists>k < Capacity t. p = StartPort t + k)"
proof -
  have top: "unat (StartPort t + Capacity t) = unat (StartPort t) + unat (Capacity t)"
    using assms by (simp add: unat_word_ariths)
  show ?thesis
  proof
    assume "InRange t p"
    then have "unat (StartPort t) \<le> unat p" "unat p < unat (StartPort t) + unat (Capacity t)"
      by (auto simp: InRange_def word_le_nat_alt word_less_nat_alt top)
    then have "p - StartPort t < Capacity t"
      by (simp add: word_less_nat_alt unat_sub word_le_nat_alt)
    then show "\<exists>k < Capacity t. p = StartPort t + k"
      by (intro exI [of _ "p - StartPort t"]) simp
  next
    assume "\<exists>k < Capacity t. p = StartPort t + k"
    then obtain k where k: "k < Capacity t" "p = StartPort t + k" by blast
    then have "unat p = unat (StartPort t) + unat k"
      using assms by (simp add: unat_word_ariths word_less_nat_alt)
    then show "InRange t p"
      using k by (simp add: InRange_def word_le_nat_alt word_less_nat_alt top)
  qed
qed

lemma managed_winc: "InRange (pa_Tracker winc_ports) p \<longleftrightarrow>
   (\<exists>k < Capacity (pa_Tracker winc_ports). p = StartPort (pa_Tracker winc_ports) + k)"
  by (rule InRange_exact) (simp add: winc_ports_def)

interpretation ports: port_service "AllocatePort winc_ports" "ReleaseAllPorts winc_ports"
  "ledger (pa_Locker winc_ports)" "InRange (pa_Tracker winc_ports)"
proof unfold_locales
  show "port \<noteq> 0 \<Longrightarrow> \<not> InRange (pa_Tracker winc_ports) port \<Longrightarrow>
        AllocatePort winc_ports h port w = (Ok port, w)" for port h w
    by (simp add: AllocatePort_def)
  show "port \<noteq> 0 \<Longrightarrow> InRange (pa_Tracker winc_ports) port \<Longrightarrow>
        \<exists>e. AllocatePort winc_ports h port w = (Err e, w)" for port h w
    by (simp add: AllocatePort_def)
  show "ledger (pa_Locker winc_ports) w m \<Longrightarrow> AllocatePort winc_ports h 0 w = (Ok p, w') \<Longrightarrow>
        m p = None \<and> InRange (pa_Tracker winc_ports) p \<and> ledger (pa_Locker winc_ports) w' (m(p \<mapsto> h))"
    for w m h p w'
    using AllocatePort_fresh [of winc_ports] managed_winc by blast
qed (rule ReleaseAllPorts_drops)

section \<open>Leases under interleaved requests\<close>

text \<open>
  Requests of any number of processes against one state file. The lock is held from \<open>Open\<close>
  to \<open>Close\<close>, so a request is one step; between two requests the rest of the system may
  change anything but the state file. The second component is the record of the leases
  granted and not yet released.
\<close>

inductive serves :: "PortAllocator \<Rightarrow> world \<times> (u16 \<rightharpoonup> string) \<Rightarrow> world \<times> (u16 \<rightharpoonup> string) \<Rightarrow> bool"
  for pa :: PortAllocator where
  granted: "AllocatePort pa h 0 w = (Ok p, w') \<Longrightarrow> serves pa (w, L) (w', L(p \<mapsto> h))"
| refused: "AllocatePort pa h port w = (Err e, w') \<Longrightarrow> serves pa (w, L) (w', L)"
| released: "ReleaseAllPorts pa h w = (Ok u, w') \<Longrightarrow>
    serves pa (w, L) (w', \<lambda>p. if L p = Some h then None else L p)"
| kept: "ReleaseAllPorts pa h w = (Err e, w') \<Longrightarrow> serves pa (w, L) (w', L)"
| elsewhere: "content_of w' (pa_Locker pa) = content_of w (pa_Locker pa) \<Longrightarrow> w_env w' = w_env w \<Longrightarrow>
    serves pa (w, L) (w', L)"

definition leases_inv :: "PortAllocator \<Rightarrow> world \<times> (u16 \<rightharpoonup> string) \<Rightarrow> bool" where
  "leases_inv pa s \<longleftrightarrow> writes_succeed (pa_Locker pa) (w_env (fst s)) \<and> ledger (pa_Locker pa) (fst s) (snd s)"

lemma leases_inv_step: "serves pa s s' \<Longrightarrow> leases_inv pa s \<Longrightarrow> leases_inv pa s'"
proof (induction rule: serves.induct)
  case (granted h w p w' L)
  then show ?case
    using AllocatePort_fresh(3) [OF _ granted(1)] frameD [OF env_AllocatePort granted(1)]
    by (simp add: leases_inv_def)
next
  case (refused h port w e w' L)
  then show ?case
    using err_keepsD [OF err_keeps_AllocatePort refused(1)] frameD [OF env_AllocatePort refused(1)]
    by (simp add: leases_inv_def ledger_def)
next
  case (released h w u w' L)
  then show ?case
    using ReleaseAllPorts_drops [OF _ released(1)] frameD [OF env_ReleaseAllPorts released(1)]
    by (simp add: leases_inv_def)
next
  case (kept h w e w' L)
  then show ?case
    using err_keepsD [OF err_keeps_ReleaseAllPorts kept(1)] frameD [OF env_ReleaseAllPorts kept(1)]
    by (simp add: leases_inv_def ledger_def)
qed (simp add: leases_inv_def ledger_def)

lemma leases_inv_run: "(serves pa)\<^sup>*\<^sup>* s s' \<Longrightarrow> leases_inv pa s \<Longrightarrow> leases_inv pa s'"
  by (induction rule: rtranclp_induct) (auto intro: leases_inv_step)

lemma leases_inv_start:
  "skip_ws (content_of w (pa_Locker pa)) = [] \<Longrightarrow> writes_succeed (pa_Locker pa) (w_env w) \<Longrightarrow>
   leases_inv pa (w, Map.empty)"
  by (simp add: leases_inv_def ledger_def pool_text_def)

text \<open>
  C1: starting from an empty state file, and as long as writes to it succeed, a port that
  is handed out is not leased to anyone, whatever requests were served or refused before
  and in whatever order; and the state file records exactly the open leases.
\<close>

theorem port_leases_exclusive:
  assumes "skip_ws (content_of w0 (pa_Locker pa)) = []" and "writes_succeed (pa_Locker pa) (w_env w0)"
    and "(serves pa)\<^sup>*\<^sup>* (w0, Map.empty) (w, L)"
    and "AllocatePort pa h 0 w = (Ok p, w')"
  shows "L p = None \<and> ledger (pa_Locker pa) w L \<and> ledger (pa_Locker pa) w' (L(p \<mapsto> h))"
proof -
  have "leases_inv pa (w, L)"
    using leases_inv_run [OF assms(3)] leases_inv_start [OF assms(1,2)] by blast
  then show ?thesis
    using AllocatePort_fresh [OF _ assms(4)] by (simp add: leases_inv_def)
qed

lemmas allocator_run =
  AllocatePort_def Lock_Open_def file_Seek0_def file_ReadRest_def file_Truncate0_def file_Write_def write_bytes_def
  file_Close_def DecodeAll_def EncodeAndOverwrite_def AcquireOne_def content_of_def os_op_def
  bind_def annotate_def attempt_def deferring_def map_order_def asks_def

section \<open>Progress\<close>

text \<open>No operation on a file fails, writes apart.\<close>

definition only_writes_fail :: "env \<Rightarrow> bool" where
  "only_writes_fail e \<longleftrightarrow> (\<forall>h c. (\<nexists>p d. c = OWrite p d) \<longrightarrow> o_OsFault (e_os e) h c = None)"

lemma calm_only_writes [simp]: "os_calm e \<Longrightarrow> only_writes_fail e"
  by (simp add: os_calm_def only_writes_fail_def)

lemma calm_files:
  assumes "only_writes_fail (w_env w)"
  shows "\<exists>w'. Lock_Open p w = (Ok (), w')" "\<exists>w'. file_Close p w = (Ok (), w')"
  using assms by (simp_all add: only_writes_fail_def Lock_Open_def file_Close_def os_op_def)

lemma calm_EncodeAndOverwrite:
  assumes "os_calm (w_env w)"
  shows "\<exists>w'. EncodeAndOverwrite p pool w = (Ok (), w')"
  using assms
  by (simp add: os_calm_def EncodeAndOverwrite_def file_Seek0_def file_Truncate0_def file_Write_def
      write_bytes_def os_op_def bind_def map_order_def)

lemma calm_DecodeAll:
  assumes "only_writes_fail (w_env w)" and "ledger p w m"
  shows "\<exists>pool w'. DecodeAll p zero_Pool w = (Ok pool, w')"
proof (cases "skip_ws (content_of w p) = []")
  case True
  then show ?thesis
    using assms(1) by (simp add: DecodeAll_def only_writes_fail_def file_Seek0_def file_ReadRest_def os_op_def
        bind_def map_order_def asks_def content_of_def)
next
  case False
  then obtain j r g where j: "decode_json (content_of w p) = Some (j, r)"
    and g: "dec_struct pool_fields [] j = Some g" "\<And>p h. m p = Some h \<longleftrightarrow> (p, h) \<in> port_pairs g"
    using assms(2) by (auto simp: ledger_def pool_text_def)
  have "\<exists>pool. Pool_UnmarshalJSON order j = Some pool" for order
    using UnmarshalJSON_owners [OF g, of order] by blast
  then show ?thesis
    using assms(1) False j by (auto simp: DecodeAll_def only_writes_fail_def file_Seek0_def file_ReadRest_def os_op_def
        bind_def map_order_def asks_def content_of_def split: option.splits)
qed

text \<open>A write that fails before its first byte leaves the truncated file.\<close>

lemma torn_EncodeAndOverwrite:
  assumes "only_writes_fail (w_env w)" "\<forall>h p d. o_OsFault (e_os (w_env w)) h (OWrite p d) = Some err"
    and "\<forall>h p. o_Written (e_os (w_env w)) h p = 0"
  shows "\<exists>w'. EncodeAndOverwrite f pool w = (Err err, w') \<and> content_of w' f = []"
  using assms
  by (simp add: EncodeAndOverwrite_def only_writes_fail_def file_Seek0_def file_Truncate0_def file_Write_def
      write_bytes_def os_op_def bind_def map_order_def content_of_def)

text \<open>What a request has when it comes to writing the pool back.\<close>

lemma decoded_pool:
  assumes "only_writes_fail (w_env w)" and "ledger f w m"
  obtains w1 pool w2 where "Lock_Open f w = (Ok (), w1)" "DecodeAll f zero_Pool w1 = (Ok pool, w2)"
    "owners pool = m" "wf_pool pool" "w_env w2 = w_env w"
proof -
  obtain w1 where w1: "Lock_Open f w = (Ok (), w1)"
    using calm_files(1) [OF assms(1)] by blast
  have env: "w_env w1 = w_env w" and l1: "ledger f w1 m"
    using assms(2) frameD [OF env_files(1) w1] frameD [OF content_frames(1) w1] by (auto simp: ledger_def)
  obtain pool w2 where w2: "DecodeAll f zero_Pool w1 = (Ok pool, w2)"
    using calm_DecodeAll [OF _ l1] assms(1) env by auto
  show ?thesis
    using that [OF w1 w2] DecodeAll_Ok [OF w2 l1] frameD [OF env_DecodeAll w2] env by simp
qed

lemma AcquireOne_free:
  assumes "owners pool = m" "k < Capacity t" "m (StartPort t + k) = None"
  obtains p pool' where "AcquireOne t pool h = (Inr p, pool')"
  using AcquireOne_spec [of t pool h] assms by (auto split: prod.splits sum.splits)

text \<open>
  C28: the allocator makes progress. When no file operation fails and some port of the range
  is free, a request for any port is granted.
\<close>

theorem AllocatePort_progress:
  assumes "os_calm (w_env w)" and "ledger (pa_Locker pa) w m"
    and "k < Capacity (pa_Tracker pa)" and "m (StartPort (pa_Tracker pa) + k) = None"
  shows "\<exists>p w'. AllocatePort pa h 0 w = (Ok p, w')"
proof -
  let ?f = "pa_Locker pa" and ?t = "pa_Tracker pa"
  obtain w1 pool w2 where w1: "Lock_Open ?f w = (Ok (), w1)" "DecodeAll ?f zero_Pool w1 = (Ok pool, w2)"
    and own: "owners pool = m" "w_env w2 = w_env w"
    using decoded_pool [OF calm_only_writes [OF assms(1)] assms(2)] by metis
  obtain p pool' where acq: "AcquireOne ?t pool h = (Inr p, pool')"
    using AcquireOne_free [OF own(1) assms(3,4)] .
  obtain w3 where w3: "EncodeAndOverwrite ?f pool' w2 = (Ok (), w3)"
    using calm_EncodeAndOverwrite [of w2] assms(1) own(2) by auto
  obtain w4 where "file_Close ?f w3 = (Ok (), w4)"
    using calm_files(2) [of w3] frameD [OF env_EncodeAndOverwrite w3] assms(1) own(2) by auto
  then show ?thesis
    using w1 w3 by (simp add: AllocatePort_def bind_def annotate_def attempt_def deferring_def acq)
qed

lemma ReleaseAllPorts_progress:
  assumes "os_calm (w_env w)" and "ledger (pa_Locker pa) w m"
  shows "\<exists>w'. ReleaseAllPorts pa h w = (Ok (), w')"
proof -
  let ?f = "pa_Locker pa"
  obtain w1 pool w2 where w1: "Lock_Open ?f w = (Ok (), w1)" "DecodeAll ?f zero_Pool w1 = (Ok pool, w2)"
    and own: "w_env w2 = w_env w"
    using decoded_pool [OF calm_only_writes [OF assms(1)] assms(2)] by metis
  obtain w3 where w3: "EncodeAndOverwrite ?f (ReleaseAll (pa_Tracker pa) pool h) w2 = (Ok (), w3)"
    using calm_EncodeAndOverwrite [of w2] assms(1) own by auto
  obtain w4 where "file_Close ?f w3 = (Ok (), w4)"
    using calm_files(2) [of w3] frameD [OF env_EncodeAndOverwrite w3] assms(1) own by auto
  then show ?thesis
    using w1 w3 by (simp add: ReleaseAllPorts_def bind_def annotate_def attempt_def deferring_def)
qed

lemma quiet_writes: "writes_succeed f (w_env quiet_world)"
  by (simp add: writes_succeed_def quiet_defs)

lemma quiet_ledger: "content_of quiet_world f = []" "ledger f quiet_world Map.empty"
  by (simp_all add: content_of_def quiet_defs ledger_def pool_text_def)

lemma winc_range [simp]:
  "Capacity (pa_Tracker winc_ports) = 5000" "StartPort (pa_Tracker winc_ports) = 40000"
  by (simp_all add: winc_ports_def)

theorem AllocatePort_progress_witness:
  "\<exists>p w'. AllocatePort winc_ports ''a'' 0 quiet_world = (Ok p, w')"
  using AllocatePort_progress [of quiet_world winc_ports Map.empty 0 "''a''"]
  by (simp add: quiet_calm quiet_ledger)

lemma quiet_first_request:
  "AllocatePort winc_ports ''a'' 0 quiet_world = (Ok 40000, snd (AllocatePort winc_ports ''a'' 0 quiet_world))"
  by (simp add: prod_eq_iff)
     (simp add: allocator_run winc_ports_def quiet_defs acquire_from.simps contains_def)

theorem port_leases_exclusive_witness:
  "\<exists>w. (serves winc_ports)\<^sup>*\<^sup>* (quiet_world, Map.empty) (w, [40000 \<mapsto> ''a''])
     \<and> (\<forall>h p w'. AllocatePort winc_ports h 0 w = (Ok p, w') \<longrightarrow> p \<noteq> 40000)"
proof (intro exI conjI allI impI)
  let ?w = "snd (AllocatePort winc_ports ''a'' 0 quiet_world)"
  show run: "(serves winc_ports)\<^sup>*\<^sup>* (quiet_world, Map.empty) (?w, [40000 \<mapsto> ''a''])"
    using serves.granted [OF quiet_first_request] by blast
  show "p \<noteq> 40000" if "AllocatePort winc_ports h 0 ?w = (Ok p, w')" for h p w'
    using port_leases_exclusive [of quiet_world winc_ports, OF _ _ run that]
    by (auto simp: quiet_ledger quiet_writes)
qed

text \<open>
  C29: what the allocator of winc-network promises for one request, on every branch: a port
  of 40000 to 44999 that nobody owned is recorded for the handle, a refused request leaves
  the file's ledger as it was when writes succeed, and there is no panic.
\<close>

theorem AllocatePort_winc:
  assumes "ledger (pa_Locker winc_ports) w m"
  shows "case AllocatePort winc_ports h 0 w of
      (Ok p, w') \<Rightarrow> 40000 \<le> p \<and> p < 45000 \<and> m p = None \<and> ledger (pa_Locker winc_ports) w' (m(p \<mapsto> h))
    | (Err e, w') \<Rightarrow> writes_succeed (pa_Locker winc_ports) (w_env w) \<longrightarrow> ledger (pa_Locker winc_ports) w' m
    | (Panic s, w') \<Rightarrow> False"
proof (cases "AllocatePort winc_ports h 0 w")
  case (Pair r w')
  have rng: "40000 \<le> p \<and> p < 45000" if "InRange (pa_Tracker winc_ports) p" for p
    using that by (simp add: InRange_def)
  show ?thesis
  proof (cases r)
    case (Ok p)
    then show ?thesis
      using ports.alloc_fresh [OF assms] rng Pair by simp
  next
    case (Err e)
    then show ?thesis
      using err_keepsD [OF err_keeps_AllocatePort] Pair assms by (auto simp: ledger_def)
  next
    case (Panic s)
    then show ?thesis
      using no_panicD [OF no_panic_AllocatePort] Pair by simp
  qed
qed

theorem AllocatePort_winc_witness:
  "\<exists>w'. AllocatePort winc_ports ''a'' 0 quiet_world = (Ok 40000, w')
      \<and> ledger (pa_Locker winc_ports) w' [40000 \<mapsto> ''a'']"
  using AllocatePort_winc [OF quiet_ledger(2), of "''a''"] quiet_first_request by auto

text \<open>
  Allocating any number of ports for a handle that owns none and then releasing the
  handle leaves the ledger as it was.
\<close>

theorem allocate_release_restores:
  assumes "ledger (pa_Locker winc_ports) w m" and "h \<notin> ran m"
    and "mapM (\<lambda>h. AllocatePort winc_ports h 0) (replicate n h) w = (Ok ps, w1)"
    and "ReleaseAllPorts winc_ports h w1 = (Ok u, w')"
  shows "ledger (pa_Locker winc_ports) w' m"
  by (rule ports.alloc_release [OF assms])

theorem allocate_release_restores_witness:
  "\<exists>ps w1 w'. mapM (\<lambda>h. AllocatePort winc_ports h 0) (replicate 1 ''a'') quiet_world = (Ok ps, w1)
     \<and> ReleaseAllPorts winc_ports ''a'' w1 = (Ok (), w') \<and> ledger (pa_Locker winc_ports) w' Map.empty"
proof -
  obtain w1 where req: "AllocatePort winc_ports ''a'' 0 quiet_world = (Ok 40000, w1)"
    using quiet_first_request by blast
  have one: "mapM (\<lambda>h. AllocatePort winc_ports h 0) (replicate 1 ''a'') quiet_world = (Ok [40000], w1)"
    by (simp add: bind_def req)
  have "ledger (pa_Locker winc_ports) w1 [40000 \<mapsto> ''a'']" "os_calm (w_env w1)"
    using AllocatePort_fresh(3) [OF quiet_ledger(2) req] quiet_calm frameD [OF env_AllocatePort req]
    by simp_all
  then obtain w' where rel: "ReleaseAllPorts winc_ports ''a'' w1 = (Ok (), w')"
    using ReleaseAllPorts_progress by blast
  show ?thesis
    using one rel allocate_release_restores [OF quiet_ledger(2) _ one rel] by auto
qed

text \<open>
  C35: rewriting the state file is not atomic. When file operations succeed except that
  writes fail before their first byte, an allocation that finds a free port and a release
  both return an error, and both have emptied the state file by then, because they truncate
  it before they write: whatever leases the file recorded, it reads as an empty ledger
  afterwards.
\<close>

theorem torn_write_forgets_leases:
  assumes "only_writes_fail (w_env w)" and "\<forall>h p d. o_OsFault (e_os (w_env w)) h (OWrite p d) = Some err"
    and "\<forall>h p. o_Written (e_os (w_env w)) h p = 0" and "ledger (pa_Locker pa) w L"
    and "k < Capacity (pa_Tracker pa)" and "L (StartPort (pa_Tracker pa) + k) = None"
  shows "(\<exists>e w'. AllocatePort pa h 0 w = (Err e, w') \<and> ledger (pa_Locker pa) w' Map.empty)
    \<and> (\<exists>e w'. ReleaseAllPorts pa h w = (Err e, w') \<and> ledger (pa_Locker pa) w' Map.empty)"
proof -
  let ?f = "pa_Locker pa" and ?t = "pa_Tracker pa"
  obtain w1 pool w2 where w1: "Lock_Open ?f w = (Ok (), w1)" "DecodeAll ?f zero_Pool w1 = (Ok pool, w2)"
    and own: "owners pool = L" "w_env w2 = w_env w"
    using decoded_pool [OF assms(1,4)] by metis
  obtain p pool' where acq: "AcquireOne ?t pool h = (Inr p, pool')"
    using AcquireOne_free [OF own(1) assms(5,6)] .
  have torn: "\<exists>w3 w4. EncodeAndOverwrite ?f pl w2 = (Err err, w3) \<and> file_Close ?f w3 = (Ok (), w4)
      \<and> ledger ?f w4 Map.empty" for pl
  proof -
    obtain w3 where w3: "EncodeAndOverwrite ?f pl w2 = (Err err, w3)" "content_of w3 ?f = []"
      using torn_EncodeAndOverwrite [of w2 err ?f pl] assms(1-3) own(2) by auto
    obtain w4 where w4: "file_Close ?f w3 = (Ok (), w4)"
      using calm_files(2) [of w3] frameD [OF env_EncodeAndOverwrite w3(1)] assms(1) own(2) by auto
    show ?thesis
      using w3 w4 frameD [OF content_frames(4) w4] by (auto simp: ledger_def pool_text_def)
  qed
  show ?thesis
  proof
    show "\<exists>e w'. AllocatePort pa h 0 w = (Err e, w') \<and> ledger ?f w' Map.empty"
      using torn [of pool'] w1 acq
      by (auto simp: AllocatePort_def bind_def annotate_def attempt_def deferring_def)
    show "\<exists>e w'. ReleaseAllPorts pa h w = (Err e, w') \<and> ledger ?f w' Map.empty"
      using torn [of "ReleaseAll ?t pool h"] w1
      by (auto simp: ReleaseAllPorts_def bind_def annotate_def attempt_def deferring_def)
  qed
qed

text \<open>A port was leased while the disk still had room.\<close>

definition torn_env :: env where
  "torn_env = quiet_env\<lparr>e_os := quiet_os\<lparr>
     o_OsFault := (\<lambda>h c. case c of OWrite _ _ \<Rightarrow> Some (PathError ''disk full'') | _ \<Rightarrow> None)\<rparr>\<rparr>"

definition torn_world :: world where
  "torn_world = (snd (AllocatePort winc_ports ''a'' 0 quiet_world))\<lparr>w_env := torn_env\<rparr>"

lemma torn_world_ledger: "ledger (pa_Locker winc_ports) torn_world [40000 \<mapsto> ''a'']"
  using AllocatePort_fresh(3) [OF quiet_ledger(2) quiet_first_request]
  by (simp add: torn_world_def ledger_def content_of_def)

theorem torn_write_forgets_leases_witness:
  "ledger (pa_Locker winc_ports) torn_world [40000 \<mapsto> ''a'']
   \<and> (\<exists>e w'. AllocatePort winc_ports ''b'' 0 torn_world = (Err e, w') \<and> ledger (pa_Locker winc_ports) w' Map.empty)
   \<and> (\<exists>e w'. ReleaseAllPorts winc_ports ''b'' torn_world = (Err e, w') \<and> ledger (pa_Locker winc_ports) w' Map.empty)"
  using torn_write_forgets_leases [of torn_world "PathError ''disk full''" winc_ports "[40000 \<mapsto> ''a'']" 1 "''b''"]
    torn_world_ledger
  by (simp add: torn_world_def torn_env_def only_writes_fail_def quiet_os_def split: os_call.split)

end
