(* ===== verification/Port_Locking.thy ===== *)
theory Port_Locking
  imports Port_Allocator
begin

text \<open>
  The port allocator of several winc-network processes at the grain of single file
  operations. Each request of network/port_allocator/port_allocator.go is cut into the
  operations it makes on the locked file (open, decode, seek, truncate, write, close), and
  the operations of any number of processes interleave. The lock of package filelock is the
  only thing that keeps them apart: it is taken when the file is opened, which waits for it,
  and given back when the file is closed successfully or the process ends.

  Cut up and run without interference a request is the one of Port_Allocator. Every step is
  labelled with what it does to the leases, and every interleaving is a run of the same
  labels over a partial map in which a grant of a leased port is no step, although the file
  passes through an empty state in between. A request that does not come to the close would
  keep the lock, and none does.
\<close>

section \<open>A request in steps\<close>

datatype request = Allocate string | Release string

datatype pc =
    Opening request
  | Decoding request
  | Seeking request Pool "u16 option"
  | Truncating request Pool "u16 option"
  | Writing request Pool "u16 option"
  | Closing "error + u16 option"
  | Finished "error + u16 option"

text \<open>
  The next program counter after an operation; the operations on the file never panic
  (\<open>no_panic_files\<close>).
\<close>

definition continue :: "'a op \<Rightarrow> ('a \<Rightarrow> pc) \<Rightarrow> (error \<Rightarrow> pc) \<Rightarrow> world \<Rightarrow> pc \<times> world" where
  "continue m ok failed w =
     (case m w of
        (Ok x, w') \<Rightarrow> (ok x, w')
      | (Err e, w') \<Rightarrow> (failed e, w')
      | (Panic s, w') \<Rightarrow> (failed (OtherError s), w'))"

definition close_with :: "error \<Rightarrow> pc" where
  "close_with e = Closing (Inl e)"

fun acquire_or_release :: "PortAllocator \<Rightarrow> request \<Rightarrow> Pool \<Rightarrow> pc" where
  "acquire_or_release pa (Allocate h) pool =
     (case AcquireOne (pa_Tracker pa) pool h of
        (Inl e, _) \<Rightarrow> close_with (Errorf (''acquire port'' @ '': '' @ Error e))
      | (Inr newPort, pool') \<Rightarrow> Seeking (Allocate h) pool' (Some newPort))"
| "acquire_or_release pa (Release h) pool = Seeking (Release h) (ReleaseAll (pa_Tracker pa) pool h) None"

fun local_step :: "PortAllocator \<Rightarrow> pc \<Rightarrow> world \<Rightarrow> pc \<times> world" where
  "local_step pa (Opening req) =
     continue (annotate ''open lock'' (Lock_Open (pa_Locker pa))) (\<lambda>_. Decoding req) (\<lambda>e. Finished (Inl e))"
| "local_step pa (Decoding req) =
     continue (annotate ''decoding state file'' (DecodeAll (pa_Locker pa) zero_Pool)) (acquire_or_release pa req) close_with"
| "local_step pa (Seeking req pool port) =
     continue (annotate ''encode and overwrite'' (file_Seek0 (pa_Locker pa))) (\<lambda>_. Truncating req pool port) close_with"
| "local_step pa (Truncating req pool port) =
     continue (annotate ''encode and overwrite'' (file_Truncate0 (pa_Locker pa))) (\<lambda>_. Writing req pool port) close_with"
| "local_step pa (Writing req pool port) =
     continue (annotate ''encode and overwrite''
         (bind map_order (\<lambda>order. file_Write (pa_Locker pa) (encode_json (Pool_MarshalJSON order pool)))))
       (\<lambda>_. Closing (Inr port)) close_with"
| "local_step pa (Closing r) = continue (file_Close (pa_Locker pa)) (\<lambda>_. Finished r) (\<lambda>_. Finished r)"
| "local_step pa (Finished r) = (\<lambda>w. (Finished r, w))"

fun local_run :: "PortAllocator \<Rightarrow> nat \<Rightarrow> pc \<Rightarrow> world \<Rightarrow> pc \<times> world" where
  "local_run pa 0 c w = (c, w)"
| "local_run pa (Suc n) c w = (case local_step pa c w of (c', w') \<Rightarrow> local_run pa n c' w')"

subsection \<open>Without interference\<close>

lemma local_run_Finished [simp]: "local_run pa n (Finished r) w = (Finished r, w)"
  by (induction n) simp_all

lemma continue_Close [simp]:
  "continue (file_Close (pa_Locker pa)) (\<lambda>_. Finished r) (\<lambda>_. Finished r) w
     = (Finished r, snd (file_Close (pa_Locker pa) w))"
  by (simp add: continue_def split: prod.split outcome.split)

lemma local_run_Closing:
  "local_run pa (Suc n) (Closing r) w = (Finished r, snd (file_Close (pa_Locker pa) w))"
  by simp

lemma continue_annotate:
  assumes "no_panic m"
  shows "continue (annotate msg m) ok failed w
     = (case m w of (Ok x, w') \<Rightarrow> (ok x, w') | (Err e, w') \<Rightarrow> (failed (Errorf (msg @ '': '' @ Error e)), w'))"
  using assms by (auto simp: continue_def annotate_run no_panic_def split: prod.split outcome.split)

lemma deferring_file_Close:
  "deferring (file_Close f) m w = (case m w of (r, w') \<Rightarrow> (r, snd (file_Close f w')))"
  using no_panic_files(6) [of f]
  by (auto simp: deferring_def no_panic_def split: prod.split outcome.split)

definition result_of :: "(error, 'a) outcome \<Rightarrow> ('a \<Rightarrow> u16 option) \<Rightarrow> error + u16 option" where
  "result_of out f = (case out of Ok x \<Rightarrow> Inr (f x) | Err e \<Rightarrow> Inl e | Panic s \<Rightarrow> Inl (OtherError s))"

lemma local_run_Seeking:
  assumes "annotate ''encode and overwrite'' (EncodeAndOverwrite (pa_Locker pa) pool) w = (out, w')"
  shows "local_run pa (Suc (Suc (Suc (Suc n)))) (Seeking req pool port) w
    = (Finished (result_of out (\<lambda>_. port)), snd (file_Close (pa_Locker pa) w'))"
proof -
  let ?f = "pa_Locker pa"
  obtain r1 w1 where s: "file_Seek0 ?f w = (r1, w1)" by fastforce
  obtain r2 w2 where t: "file_Truncate0 ?f w1 = (r2, w2)" by fastforce
  obtain r3 w3 where p: "bind map_order (\<lambda>order. file_Write ?f (encode_json (Pool_MarshalJSON order pool))) w2 = (r3, w3)"
    by fastforce
  have np: "no_panic (bind map_order (\<lambda>order. file_Write ?f (encode_json (Pool_MarshalJSON order pool))))"
    by (intro safe_intros)
  have panics: "\<nexists>m. r1 = Panic m" "\<nexists>m. r2 = Panic m" "\<nexists>m. r3 = Panic m"
    using s t p no_panic_files(2,4) np by (auto simp: no_panic_def)
  show ?thesis
    using assms s t p panics
    by (cases r1; cases r2; cases r3)
       (auto simp: EncodeAndOverwrite_def continue_annotate no_panic_files np close_with_def result_of_def annotate_run
         bind_def [of "file_Seek0 ?f"] bind_def [of "file_Truncate0 ?f"]
         simp del: append_Cons append_Nil)
qed

lemma local_run_Decoding:
  assumes "annotate ''decoding state file'' (DecodeAll (pa_Locker pa) zero_Pool) w = (out, w1)"
  shows "local_run pa (Suc (Suc (Suc (Suc (Suc n))))) (Decoding req) w
    = (case out of
         Ok pool \<Rightarrow> local_run pa (Suc (Suc (Suc (Suc n)))) (acquire_or_release pa req pool) w1
       | Err e \<Rightarrow> (Finished (Inl e), snd (file_Close (pa_Locker pa) w1)))"
  using assms no_panic_DecodeAll [of "pa_Locker pa" zero_Pool]
  by (auto simp: continue_annotate no_panic_DecodeAll annotate_run close_with_def no_panic_def simp del: append_Cons append_Nil
      split: prod.splits outcome.splits)

text \<open>What the two requests do after the lock was taken, as operations.\<close>

definition locked_part :: "PortAllocator \<Rightarrow> request \<Rightarrow> u16 option op" where
  "locked_part pa req =
     bind (annotate ''decoding state file'' (DecodeAll (pa_Locker pa) zero_Pool)) (\<lambda>pool.
       case req of
         Allocate h \<Rightarrow>
           (case AcquireOne (pa_Tracker pa) pool h of (r, pool') \<Rightarrow>
            bind (annotate ''acquire port'' (lift_sum r)) (\<lambda>newPort.
            bind (annotate ''encode and overwrite'' (EncodeAndOverwrite (pa_Locker pa) pool')) (\<lambda>_. ret (Some newPort))))
       | Release h \<Rightarrow>
           bind (annotate ''encode and overwrite'' (EncodeAndOverwrite (pa_Locker pa) (ReleaseAll (pa_Tracker pa) pool h)))
             (\<lambda>_. ret None))"

lemma local_run_locked:
  assumes "locked_part pa req w = (out, w')"
  shows "local_run pa (Suc (Suc (Suc (Suc (Suc n))))) (Decoding req) w
    = (Finished (result_of out id), snd (file_Close (pa_Locker pa) w'))"
proof -
  obtain d w1 where d: "annotate ''decoding state file'' (DecodeAll (pa_Locker pa) zero_Pool) w = (d, w1)"
    by fastforce
  have np: "no_panic (annotate ''decoding state file'' (DecodeAll (pa_Locker pa) zero_Pool))" for pool
    by (intro safe_intros)
  show ?thesis
  proof (cases d)
    case (Ok pool)
    have acq: ?thesis if "req = Allocate h" for h
    proof (cases "AcquireOne (pa_Tracker pa) pool h")
      case (Pair r pool')
      obtain e w2 where e: "annotate ''encode and overwrite'' (EncodeAndOverwrite (pa_Locker pa) pool') w1 = (e, w2)"
        by fastforce
      show ?thesis
        using assms d Ok that Pair local_run_Seeking [OF e] e
        by (cases r; cases e)
           (auto simp: locked_part_def local_run_Decoding [OF d] bind_def result_of_def lift_sum_def annotate_run close_with_def local_run_Closing
             simp del: append_Cons append_Nil local_run.simps(2))
    qed
    have rel: ?thesis if "req = Release h" for h
    proof -
      obtain e w2 where e: "annotate ''encode and overwrite''
          (EncodeAndOverwrite (pa_Locker pa) (ReleaseAll (pa_Tracker pa) pool h)) w1 = (e, w2)"
        by fastforce
      show ?thesis
        using assms d Ok that local_run_Seeking [OF e] e
        by (cases e) (auto simp: locked_part_def local_run_Decoding [OF d] bind_def result_of_def simp del: append_Cons append_Nil local_run.simps(2))
    qed
    show ?thesis
      using acq rel by (cases req)
  next
    case (Err e)
    then show ?thesis
      using assms d by (auto simp: locked_part_def local_run_Decoding [OF d] bind_def result_of_def simp del: local_run.simps(2))
  next
    case (Panic s)
    then show ?thesis
      using np d by (auto simp: no_panic_def)
  qed
qed

lemma no_panic_locked: "no_panic (locked_part pa req)"
  by (cases req) (auto simp: locked_part_def intro!: safe_intros)

definition request_op :: "PortAllocator \<Rightarrow> request \<Rightarrow> u16 option op" where
  "request_op pa req =
     bind (annotate ''open lock'' (Lock_Open (pa_Locker pa))) (\<lambda>_.
       deferring (file_Close (pa_Locker pa)) (locked_part pa req))"

lemma local_run_request:
  assumes "request_op pa req w = (out, w')"
  shows "local_run pa 6 (Opening req) w = (Finished (result_of out id), w') \<and> (\<nexists>m. out = Panic m)"
proof -
  obtain q w1 where q: "Lock_Open (pa_Locker pa) w = (q, w1)"
    by fastforce
  obtain r w2 where r: "locked_part pa req w1 = (r, w2)"
    by fastforce
  have "\<nexists>m. q = Panic m" "\<nexists>m. r = Panic m"
    using q r no_panic_files(1) no_panic_locked by (auto simp: no_panic_def)
  then show ?thesis
    using assms q r local_run_locked [OF r, of 0]
    by (cases q)
       (auto simp: request_op_def eval_nat_numeral continue_annotate no_panic_files bind_def annotate_run result_of_def
          deferring_file_Close simp del: append_Cons append_Nil)
qed

lemma bind_deferring_ret: "bind (deferring d m) (\<lambda>x. ret (g x)) = deferring d (bind m (\<lambda>x. ret (g x)))"
  by (auto simp: fun_eq_iff bind_def deferring_def split: prod.split outcome.split)

lemma bind_ret_unit: "bind m (\<lambda>_. ret ()) = m"
  by (auto simp: fun_eq_iff bind_def split: prod.split outcome.split)

lemma request_op_Allocate: "bind (request_op pa (Allocate h)) (\<lambda>p. ret (the p)) = AllocatePort pa h 0"
  by (simp add: request_op_def locked_part_def AllocatePort_def bind_assoc bind_deferring_ret case_prod_unfold del: ret_apply)

lemma request_op_Release: "bind (request_op pa (Release h)) (\<lambda>_. ret ()) = ReleaseAllPorts pa h"
  by (simp add: request_op_def locked_part_def ReleaseAllPorts_def bind_assoc bind_deferring_ret bind_ret_unit del: ret_apply)

text \<open>
  C21: a request that is not interrupted is the request of the allocator. Cut into its six
  operations and run alone, an allocation and a release give the result and leave the world
  that \<open>AllocatePort\<close> and \<open>ReleaseAllPorts\<close> do, on every path.
\<close>

theorem local_run_requests:
  "(\<exists>r w'. local_run pa 6 (Opening (Allocate h)) w = (Finished r, w')
       \<and> AllocatePort pa h 0 w = (case r of Inl e \<Rightarrow> Err e | Inr p \<Rightarrow> Ok (the p), w'))
   \<and> (\<exists>r w'. local_run pa 6 (Opening (Release h)) w = (Finished r, w')
       \<and> ReleaseAllPorts pa h w = (case r of Inl e \<Rightarrow> Err e | Inr _ \<Rightarrow> Ok (), w'))"
proof -
  obtain out w' where a: "request_op pa (Allocate h) w = (out, w')"
    by fastforce
  obtain out' w'' where b: "request_op pa (Release h) w = (out', w'')"
    by fastforce
  show ?thesis
    using local_run_request [OF a] local_run_request [OF b] a b
      request_op_Allocate [of pa h, symmetric] request_op_Release [of pa h, symmetric]
    by (cases out; cases out') (auto simp: result_of_def bind_def)
qed

section \<open>Interleavings\<close>

text \<open>The processes, and the one that has the file locked.\<close>

record 'i system =
  sy_world :: world
  sy_lock :: "'i option"
  sy_procs :: "'i \<Rightarrow> pc option"

text \<open>A process that is inside a request, between the opening and the end of the close.\<close>

fun busy :: "pc \<Rightarrow> bool" where
  "busy (Opening req) = False"
| "busy (Finished r) = False"
| "busy c = True"

text \<open>
  What a step does to the leases. A request takes effect with its write: from there on an
  allocation returns the port that is recorded, and a release returns no error.
\<close>

datatype action = Grant string u16 | Free string | Quiet

fun effect :: "pc \<Rightarrow> pc \<Rightarrow> action" where
  "effect (Writing (Allocate h) pool port) (Closing (Inr (Some p))) = Grant h p"
| "effect (Writing (Release h) pool port) (Closing (Inr r)) = Free h"
| "effect c c' = Quiet"

datatype 'i label = Begin 'i request | Acquire 'i | Work 'i action | Ends 'i | Outside

fun action_of :: "'i label \<Rightarrow> action" where
  "action_of (Work i a) = a"
| "action_of l = Quiet"

text \<open>
  The lock is taken by an opening that succeeds and given back by a close that succeeds: a
  request that does not come to the close, or whose unlocking fails, keeps the file locked
  until its process ends. An opening that finds the file locked waits.
\<close>

definition locks :: "PortAllocator \<Rightarrow> world \<Rightarrow> bool" where
  "locks pa w \<longleftrightarrow> fst (Lock_Open (pa_Locker pa) w) = Ok ()"

definition unlocks :: "PortAllocator \<Rightarrow> pc \<Rightarrow> world \<Rightarrow> bool" where
  "unlocks pa c w \<longleftrightarrow> (case c of Closing r \<Rightarrow> fst (file_Close (pa_Locker pa) w) = Ok () | _ \<Rightarrow> False)"

text \<open>
  A process may end at any point, which gives its lock back, but not between the truncation
  and the write: that loses the leases, as a failed write does (\<open>torn_write_forgets_leases\<close>).
  Other programs and other parts of the processes do not touch the file.
\<close>

inductive port_step :: "PortAllocator \<Rightarrow> 'i label \<Rightarrow> 'i system \<Rightarrow> 'i system \<Rightarrow> bool" for pa where
  begin_request: "sy_procs s i = None \<or> (\<exists>r. sy_procs s i = Some (Finished r)) \<Longrightarrow>
    port_step pa (Begin i req) s (s\<lparr>sy_procs := (sy_procs s)(i \<mapsto> Opening req)\<rparr>)"
| open_file: "sy_procs s i = Some (Opening req) \<Longrightarrow> sy_lock s = None \<Longrightarrow>
    local_step pa (Opening req) (sy_world s) = (c', w') \<Longrightarrow>
    port_step pa (Acquire i) s (s\<lparr>sy_world := w', sy_procs := (sy_procs s)(i \<mapsto> c'),
      sy_lock := (if locks pa (sy_world s) then Some i else None)\<rparr>)"
| work: "sy_procs s i = Some c \<Longrightarrow> busy c \<Longrightarrow> local_step pa c (sy_world s) = (c', w') \<Longrightarrow>
    port_step pa (Work i (effect c c')) s (s\<lparr>sy_world := w', sy_procs := (sy_procs s)(i \<mapsto> c'),
      sy_lock := (if unlocks pa c (sy_world s) then None else sy_lock s)\<rparr>)"
| process_ends: "sy_procs s i = Some c \<Longrightarrow> \<nexists>req pool port. c = Writing req pool port \<Longrightarrow>
    port_step pa (Ends i) s (s\<lparr>sy_procs := (sy_procs s)(i := None),
      sy_lock := (if sy_lock s = Some i then None else sy_lock s)\<rparr>)"
| elsewhere: "content_of w' (pa_Locker pa) = content_of (sy_world s) (pa_Locker pa) \<Longrightarrow>
    offs w' (pa_Locker pa) = offs (sy_world s) (pa_Locker pa) \<Longrightarrow> w_env w' = w_env (sy_world s) \<Longrightarrow>
    port_step pa Outside s (s\<lparr>sy_world := w'\<rparr>)"

definition system_start :: "world \<Rightarrow> 'i system" where
  "system_start w = \<lparr>sy_world = w, sy_lock = None, sy_procs = (\<lambda>_. None)\<rparr>"

subsection \<open>The specification\<close>

text \<open>
  The leases as they should be, with every request atomic: a port is granted only while
  nobody has it, and a release frees the ports of its handle. A grant of a leased port, or
  of one outside the managed range, is no step at all.
\<close>

definition managed_port :: "PortAllocator \<Rightarrow> u16 \<Rightarrow> bool" where
  "managed_port pa p \<longleftrightarrow> (\<exists>k < Capacity (pa_Tracker pa). p = StartPort (pa_Tracker pa) + k)"

inductive lease_step :: "PortAllocator \<Rightarrow> action \<Rightarrow> (u16 \<rightharpoonup> string) \<Rightarrow> (u16 \<rightharpoonup> string) \<Rightarrow> bool" for pa where
  grant: "L p = None \<Longrightarrow> managed_port pa p \<Longrightarrow> lease_step pa (Grant h p) L (L(p \<mapsto> h))"
| free: "lease_step pa (Free h) L (\<lambda>p. if L p = Some h then None else L p)"
| quiet: "lease_step pa Quiet L L"

inductive_simps lease_step_simps [simp]:
  "lease_step pa (Grant h p) L L'" "lease_step pa (Free h) L L'" "lease_step pa Quiet L L'"

subsection \<open>The invariant\<close>

text \<open>What a process that is at work is about to write, and what that makes of the leases.\<close>

fun commit :: "request \<Rightarrow> u16 option \<Rightarrow> (u16 \<rightharpoonup> string) \<Rightarrow> (u16 \<rightharpoonup> string)" where
  "commit (Allocate h) port L = (case port of None \<Rightarrow> L | Some p \<Rightarrow> L(p \<mapsto> h))"
| "commit (Release h) port L = (\<lambda>p. if L p = Some h then None else L p)"

definition planned :: "PortAllocator \<Rightarrow> request \<Rightarrow> Pool \<Rightarrow> u16 option \<Rightarrow> (u16 \<rightharpoonup> string) \<Rightarrow> bool" where
  "planned pa req pool port L \<longleftrightarrow> wf_pool pool \<and> owners pool = commit req port L
     \<and> (case req of Allocate h \<Rightarrow> (\<exists>p. port = Some p \<and> L p = None \<and> managed_port pa p) | Release h \<Rightarrow> True)"

fun consistent :: "PortAllocator \<Rightarrow> pc \<Rightarrow> world \<Rightarrow> (u16 \<rightharpoonup> string) \<Rightarrow> bool" where
  "consistent pa (Seeking req pool port) w L \<longleftrightarrow> ledger (pa_Locker pa) w L \<and> planned pa req pool port L"
| "consistent pa (Truncating req pool port) w L \<longleftrightarrow>
     ledger (pa_Locker pa) w L \<and> planned pa req pool port L \<and> offs w (pa_Locker pa) = 0"
| "consistent pa (Writing req pool port) w L \<longleftrightarrow>
     content_of w (pa_Locker pa) = [] \<and> planned pa req pool port L \<and> offs w (pa_Locker pa) = 0"
| "consistent pa c w L \<longleftrightarrow> ledger (pa_Locker pa) w L"

lemma consistent_content:
  assumes "content_of w' (pa_Locker pa) = content_of w (pa_Locker pa)" "offs w' (pa_Locker pa) = offs w (pa_Locker pa)"
  shows "consistent pa c w' L = consistent pa c w L"
  using assms by (cases c) (simp_all add: ledger_def)

lemma consistent_ledger:
  "consistent pa c w L \<Longrightarrow> \<nexists>req pool port. c = Writing req pool port \<Longrightarrow> ledger (pa_Locker pa) w L"
  by (cases c) auto

lemma planned_acquire:
  assumes "wf_pool pool" "owners pool = L" "ledger (pa_Locker pa) w L"
  shows "consistent pa (acquire_or_release pa req pool) w L"
proof (cases req)
  case (Allocate h)
  then show ?thesis
    using assms AcquireOne_Inr [of "pa_Tracker pa" pool h]
    by (cases "AcquireOne (pa_Tracker pa) pool h"; cases "fst (AcquireOne (pa_Tracker pa) pool h)")
       (auto simp: planned_def managed_port_def close_with_def)
next
  case (Release h)
  then show ?thesis
    using assms by (simp add: planned_def owners_ReleaseAll wf_ReleaseAll cong: if_cong)
qed

lemma planned_effect:
  "planned pa req pool port L \<Longrightarrow>
   lease_step pa (effect (Writing req pool port) (Closing (Inr port))) L (commit req port L)"
  by (cases req) (auto simp: planned_def)

text \<open>
  What one step of a process at work does: the file and what is planned stay consistent
  with leases that made the step of its effect.
\<close>

definition good_step :: "PortAllocator \<Rightarrow> pc \<Rightarrow> (u16 \<rightharpoonup> string) \<Rightarrow> pc \<Rightarrow> world \<Rightarrow> bool" where
  "good_step pa c L c' w' \<longleftrightarrow> (\<exists>L'. lease_step pa (effect c c') L L' \<and> consistent pa c' w' L')"

lemma good_quiet: "effect c c' = Quiet \<Longrightarrow> consistent pa c' w' L \<Longrightarrow> good_step pa c L c' w'"
  by (simp add: good_step_def)

lemma decoding_step:
  assumes led: "ledger (pa_Locker pa) w L" and st: "local_step pa (Decoding req) w = (c', w')"
  shows "good_step pa (Decoding req) L c' w'"
proof (rule good_quiet)
  obtain out w1 where d: "DecodeAll (pa_Locker pa) zero_Pool w = (out, w1)"
    by fastforce
  have "\<nexists>m. out = Panic m"
    using d no_panic_DecodeAll by (auto simp: no_panic_def)
  then have step: "w' = w1" "c' = (case out of Ok pool \<Rightarrow> acquire_or_release pa req pool
      | Err e \<Rightarrow> close_with (Errorf (''decoding state file'' @ '': '' @ Error e)))"
    using st d by (cases out; simp add: continue_annotate no_panic_DecodeAll del: append_Cons append_Nil)+
  have led1: "ledger (pa_Locker pa) w' L"
    using led frameD [OF DecodeAll_frame d] step by (simp add: ledger_def)
  show "consistent pa c' w' L"
  proof (cases out)
    case (Ok pool)
    have "owners pool = L" "wf_pool pool"
      using DecodeAll_Ok [OF _ led] d Ok by auto
    then show ?thesis
      using planned_acquire [OF _ _ led1] Ok step(2) by simp
  qed (use led1 step \<open>\<nexists>m. out = Panic m\<close> in \<open>auto simp: close_with_def\<close>)
qed simp

lemma seeking_step:
  assumes "consistent pa (Seeking req pool port) w L" "local_step pa (Seeking req pool port) w = (c', w')"
  shows "good_step pa (Seeking req pool port) L c' w'"
proof -
  have "(c', w') = (case file_Seek0 (pa_Locker pa) w of (Ok x, w') \<Rightarrow> (Truncating req pool port, w')
      | (Err e, w') \<Rightarrow> (close_with (Errorf (''encode and overwrite'' @ '': '' @ Error e)), w'))"
    using assms(2) by (simp add: continue_annotate no_panic_files del: append_Cons append_Nil)
  then show ?thesis
    using assms(1)
    by (auto simp: file_Seek0_def os_op_def close_with_def ledger_def content_of_def intro!: good_quiet
         simp del: append_Cons append_Nil split: option.splits)
qed

lemma truncating_step:
  assumes "consistent pa (Truncating req pool port) w L" "local_step pa (Truncating req pool port) w = (c', w')"
  shows "good_step pa (Truncating req pool port) L c' w'"
proof -
  have "(c', w') = (case file_Truncate0 (pa_Locker pa) w of (Ok x, w') \<Rightarrow> (Writing req pool port, w')
      | (Err e, w') \<Rightarrow> (close_with (Errorf (''encode and overwrite'' @ '': '' @ Error e)), w'))"
    using assms(2) by (simp add: continue_annotate no_panic_files del: append_Cons append_Nil)
  then show ?thesis
    using assms(1)
    by (auto simp: file_Truncate0_def os_op_def close_with_def ledger_def content_of_def intro!: good_quiet
         simp del: append_Cons append_Nil split: option.splits)
qed

lemma writing_step:
  assumes "consistent pa (Writing req pool port) w L" "writes_succeed (pa_Locker pa) (w_env w)"
    and "local_step pa (Writing req pool port) w = (c', w')"
  shows "good_step pa (Writing req pool port) L c' w'"
proof -
  have pre: "content_of w (pa_Locker pa) = []" "planned pa req pool port L" "offs w (pa_Locker pa) = 0"
    using assms(1) by auto
  let ?text = "encode_json (Pool_MarshalJSON (o_MapOrder (e_os (w_env w)) (hist w)) pool)"
  let ?w = "log_event (Os (OWrite (pa_Locker pa) ?text)) w"
  have "bind map_order (\<lambda>order. file_Write (pa_Locker pa) (encode_json (Pool_MarshalJSON order pool))) w
      = (Ok (), ?w\<lparr>files := (files ?w)(pa_Locker pa := Some ?text), offs := (offs ?w)(pa_Locker pa := length ?text)\<rparr>)"
    using assms(2) pre by (simp add: bind_def map_order_def file_Write_def write_bytes_def os_op_def writes_succeed_def
        write_at_def content_of_def)
  then have step: "c' = Closing (Inr port)" "content_of w' (pa_Locker pa) = ?text"
    using assms(3) by (auto simp: continue_def annotate_run content_of_def)
  have "ledger (pa_Locker pa) w' (commit req port L)"
    using pool_text_encode step(2) pre(2) unfolding ledger_def planned_def by metis
  then show ?thesis
    using step planned_effect [OF pre(2)] by (auto simp: good_step_def)
qed

lemma closing_step:
  assumes "ledger (pa_Locker pa) w L" "local_step pa (Closing r) w = (c', w')"
  shows "good_step pa (Closing r) L c' w'"
proof -
  obtain q w1 where cl: "file_Close (pa_Locker pa) w = (q, w1)"
    by fastforce
  then have "c' = Finished r" "w' = w1"
    using assms(2) by auto
  then show ?thesis
    using assms(1) frameD [OF content_frames(4) cl] by (auto simp: ledger_def intro!: good_quiet)
qed

lemma busy_step:
  assumes "busy c" "consistent pa c w L" "writes_succeed (pa_Locker pa) (w_env w)" "local_step pa c w = (c', w')"
  shows "good_step pa c L c' w'"
  using assms decoding_step seeking_step truncating_step writing_step closing_step by (cases c) (simp_all del: local_step.simps)

text \<open>What the steps make of the environment and of the program counter.\<close>

lemma env_continue: "frame w_env m \<Longrightarrow> continue m ok failed w = (c', w') \<Longrightarrow> w_env w' = w_env w"
  using frameD [of w_env m w "fst (m w)" "snd (m w)"] by (auto simp: continue_def split: prod.splits outcome.splits)

lemma env_local_step:
  assumes "local_step pa c w = (c', w')"
  shows "w_env w' = w_env w"
proof (cases c)
  case (Finished r)
  then show ?thesis
    using assms by simp
qed (use assms in \<open>simp only: local_step.simps; elim env_continue [rotated]; intro frame_intros log_event_simps\<close>)+

lemma env_port_step: "port_step pa l s s' \<Longrightarrow> w_env (sy_world s') = w_env (sy_world s)"
  by (induction rule: port_step.induct) (auto simp del: local_step.simps dest: env_local_step)

lemma env_port_steps: "runs (port_step pa) ls s s' \<Longrightarrow> w_env (sy_world s') = w_env (sy_world s)"
  by (induction rule: runs.induct) (simp_all add: env_port_step)

lemma busy_acquire: "busy (acquire_or_release pa req pool)"
  by (cases req) (auto simp: close_with_def split: prod.split sum.split)

lemma open_step:
  assumes "local_step pa (Opening req) w = (c', w')"
  shows "busy c' = locks pa w" "c' = Decoding req \<or> (\<exists>r. c' = Finished r)"
    and "content_of w' (pa_Locker pa) = content_of w (pa_Locker pa)"
proof -
  obtain out w1 where o: "Lock_Open (pa_Locker pa) w = (out, w1)"
    by fastforce
  have "\<nexists>m. out = Panic m"
    using o no_panic_files(1) by (auto simp: no_panic_def)
  then show "busy c' = locks pa w" "c' = Decoding req \<or> (\<exists>r. c' = Finished r)"
      "content_of w' (pa_Locker pa) = content_of w (pa_Locker pa)"
    using assms o frameD [OF content_frames(1) o]
    by (cases out; force simp: locks_def continue_annotate no_panic_files)+
qed

lemma unlocks_Closing: "unlocks pa c w \<Longrightarrow> \<exists>r. c = Closing r"
  by (auto simp: unlocks_def split: pc.splits)

text \<open>
  A process that is at work has the lock, and its program counter is consistent with the
  leases; when none is, the file says what the leases are.
\<close>

definition system_inv :: "PortAllocator \<Rightarrow> (u16 \<rightharpoonup> string) \<Rightarrow> 'i system \<Rightarrow> bool" where
  "system_inv pa L s \<longleftrightarrow> writes_succeed (pa_Locker pa) (w_env (sy_world s))
     \<and> (\<forall>i c. sy_procs s i = Some c \<longrightarrow> busy c \<longrightarrow> sy_lock s = Some i \<and> consistent pa c (sy_world s) L)
     \<and> ((\<forall>i c. sy_procs s i = Some c \<longrightarrow> \<not> busy c) \<longrightarrow> ledger (pa_Locker pa) (sy_world s) L)"

lemma system_inv_busy:
  assumes "system_inv pa L s" "sy_procs s i = Some c" "busy c"
  shows "sy_lock s = Some i" "consistent pa c (sy_world s) L"
  using assms by (simp_all add: system_inv_def)

lemma system_inv_ledger:
  assumes "system_inv pa L s" "\<And>i req pool port. sy_procs s i \<noteq> Some (Writing req pool port)"
  shows "ledger (pa_Locker pa) (sy_world s) L"
proof (cases "\<exists>i c. sy_procs s i = Some c \<and> busy c")
  case True
  then show ?thesis
    using system_inv_busy(2) [OF assms(1)] consistent_ledger assms(2) by metis
qed (use assms(1) in \<open>auto simp: system_inv_def\<close>)

text \<open>The process that moves is the only one at work.\<close>

lemma system_inv_moves:
  assumes env: "w_env w' = w_env (sy_world s)" "writes_succeed (pa_Locker pa) (w_env (sy_world s))"
    and others: "\<And>j c. j \<noteq> i \<Longrightarrow> sy_procs s j = Some c \<Longrightarrow> \<not> busy c"
    and con: "consistent pa c' w' L" "\<nexists>req pool port. \<not> busy c' \<and> c' = Writing req pool port" "busy c' \<Longrightarrow> l = Some i"
  shows "system_inv pa L (s\<lparr>sy_world := w', sy_procs := (sy_procs s)(i \<mapsto> c'), sy_lock := l\<rparr>)"
proof -
  have "ledger (pa_Locker pa) w' L" if "\<not> busy c'"
    using consistent_ledger [OF con(1)] con(2) that by auto
  then show ?thesis
    using env others con by (auto simp: system_inv_def)
qed

lemma system_inv_others:
  assumes "system_inv pa L s" "sy_lock s = None \<or> sy_lock s = Some i" "j \<noteq> i" "sy_procs s j = Some c"
  shows "\<not> busy c"
  using system_inv_busy(1) [OF assms(1,4)] assms(2,3) by auto

lemma begin_inv:
  assumes "system_inv pa L s" "sy_procs s i = None \<or> (\<exists>r. sy_procs s i = Some (Finished r))"
  shows "system_inv pa L (s\<lparr>sy_procs := (sy_procs s)(i \<mapsto> Opening req)\<rparr>)" (is "system_inv pa L ?s")
proof -
  have "\<not> busy d" if "sy_procs s i = Some d" for d
    using assms(2) that by auto
  then have "\<not> busy d" if "\<forall>k e. sy_procs ?s k = Some e \<longrightarrow> \<not> busy e" "sy_procs s j = Some d" for j d
    using that(1) [rule_format, of j d] that(2) by (cases "j = i") auto
  then have "ledger (pa_Locker pa) (sy_world s) L" if "\<forall>k e. sy_procs ?s k = Some e \<longrightarrow> \<not> busy e"
    using assms(1) that unfolding system_inv_def by blast
  moreover have "sy_lock ?s = Some j \<and> consistent pa d (sy_world s) L" if "sy_procs ?s j = Some d" "busy d" for j d
    using that system_inv_busy [OF assms(1), of j d] by (auto split: if_splits)
  ultimately show ?thesis
    using assms(1) unfolding system_inv_def by simp
qed

lemma ends_inv:
  assumes inv: "system_inv pa L s" and proc: "sy_procs s i = Some c" and wr: "\<nexists>req pool port. c = Writing req pool port"
  shows "system_inv pa L (s\<lparr>sy_procs := (sy_procs s)(i := None),
      sy_lock := (if sy_lock s = Some i then None else sy_lock s)\<rparr>)" (is "system_inv pa L ?s")
proof -
  have "ledger (pa_Locker pa) (sy_world s) L" if "\<forall>j d. sy_procs ?s j = Some d \<longrightarrow> \<not> busy d"
  proof (rule system_inv_ledger [OF inv])
    fix j req pool port
    show "sy_procs s j \<noteq> Some (Writing req pool port)"
      using that [rule_format, of j] proc wr by (cases "j = i") auto
  qed
  moreover have "sy_lock ?s = Some j \<and> consistent pa d (sy_world s) L" if "sy_procs ?s j = Some d" "busy d" for j d
    using that system_inv_busy [OF inv, of j d] by (auto split: if_splits)
  ultimately show ?thesis
    using inv by (simp add: system_inv_def)
qed

lemma elsewhere_inv:
  assumes "system_inv pa L s" "content_of w' (pa_Locker pa) = content_of (sy_world s) (pa_Locker pa)"
    "offs w' (pa_Locker pa) = offs (sy_world s) (pa_Locker pa)" "w_env w' = w_env (sy_world s)"
  shows "system_inv pa L (s\<lparr>sy_world := w'\<rparr>)"
proof -
  have "ledger (pa_Locker pa) w' L = ledger (pa_Locker pa) (sy_world s) L" for L
    using assms(2) by (simp add: ledger_def)
  then show ?thesis
    using assms(1,4) by (simp add: system_inv_def consistent_content [OF assms(2,3)])
qed

lemma port_step_inv:
  assumes "port_step pa l s s'" "system_inv pa L s"
  shows "\<exists>L'. lease_step pa (action_of l) L L' \<and> system_inv pa L' s'"
  using assms
proof (induction rule: port_step.induct)
  case (begin_request s i req)
  then show ?case
    using begin_inv by simp
next
  case (open_file s i req c' w')
  note others = system_inv_others [OF open_file(4) disjI1 [OF open_file(2)]]
  have "ledger (pa_Locker pa) (sy_world s) L"
    using system_inv_ledger [OF open_file(4)] system_inv_busy(1) [OF open_file(4)] open_file(2) by force
  then have "consistent pa c' w' L"
    using open_step(2,3) [OF open_file(3)] by (auto simp: ledger_def)
  then have "system_inv pa L (s\<lparr>sy_world := w', sy_procs := (sy_procs s)(i \<mapsto> c'),
      sy_lock := (if locks pa (sy_world s) then Some i else None)\<rparr>)"
    using env_local_step [OF open_file(3)] open_step(1,2) [OF open_file(3)] open_file(4) others [of _ i]
    by (intro system_inv_moves) (auto simp: system_inv_def)
  then show ?case
    by simp
next
  case (work s i c c' w')
  note lock = system_inv_busy [OF work(4,1,2)]
  have wr: "writes_succeed (pa_Locker pa) (w_env (sy_world s))"
    using work(4) by (simp add: system_inv_def)
  obtain L' where L': "lease_step pa (effect c c') L L'" "consistent pa c' w' L'"
    using busy_step [OF work(2) lock(2) wr work(3)] by (auto simp: good_step_def)
  have "busy c' \<Longrightarrow> \<not> unlocks pa c (sy_world s)"
    using unlocks_Closing work(3) by fastforce
  then have "system_inv pa L' (s\<lparr>sy_world := w', sy_procs := (sy_procs s)(i \<mapsto> c'),
      sy_lock := (if unlocks pa c (sy_world s) then None else sy_lock s)\<rparr>)"
    using env_local_step [OF work(3)] wr L'(2) lock(1) system_inv_others [OF work(4) disjI2 [OF lock(1)]]
    by (intro system_inv_moves) auto
  then show ?case
    using L'(1) by auto
next
  case (process_ends s i c)
  show ?case
    using ends_inv [OF process_ends(3,1,2)] by simp
next
  case (elsewhere w' s)
  then show ?case
    using elsewhere_inv by simp
qed

lemma system_start_inv:
  assumes "writes_succeed (pa_Locker pa) (w_env w)" "ledger (pa_Locker pa) w L"
  shows "system_inv pa L (system_start w)"
  using assms by (simp add: system_inv_def system_start_def)

lemma port_steps_inv:
  assumes "runs (port_step pa) ls s s'" "system_inv pa L s"
  shows "\<exists>L'. runs (lease_step pa) (map action_of ls) L L' \<and> system_inv pa L' s'"
  using assms
proof (induction arbitrary: L rule: runs.induct)
  case (2 l s s1 ls s2)
  obtain L1 where "lease_step pa (action_of l) L L1" "system_inv pa L1 s1"
    using port_step_inv [OF 2(1,4)] by blast
  moreover obtain L2 where "runs (lease_step pa) (map action_of ls) L1 L2" "system_inv pa L2 s2"
    using 2(3) [OF calculation(2)] by blast
  ultimately show ?case
    by (auto simp: runs_Cons)
qed auto

subsection \<open>What every interleaving keeps\<close>

text \<open>
  C6: any interleaving of the allocator's file operations, by any number of winc-network
  processes that start on a file with any leases, is step by step an interleaving of atomic
  requests: the write of an allocation grants the port it then returns, and at that point
  nobody has it and it lies in the managed range; the write of a release frees the ports of
  its handle; no other operation changes a lease. The file says what the leases are at
  every point except between a truncation and the write that follows.
\<close>

theorem ports_refine_leases:
  assumes "writes_succeed (pa_Locker pa) (w_env w)" and "ledger (pa_Locker pa) w L0"
    and "runs (port_step pa) ls (system_start w) s"
  shows "\<exists>L. runs (lease_step pa) (map action_of ls) L0 L
    \<and> ((\<forall>i req pool port. sy_procs s i \<noteq> Some (Writing req pool port)) \<longrightarrow> ledger (pa_Locker pa) (sy_world s) L)"
  using port_steps_inv [OF assms(3) system_start_inv [OF assms(1,2)]] system_inv_ledger by blast

subsection \<open>The lock is given back\<close>

definition closes_succeed :: "string \<Rightarrow> env \<Rightarrow> bool" where
  "closes_succeed file e \<longleftrightarrow> (\<forall>h. o_OsFault (e_os e) h (OClose file) = None)"

text \<open>When closing succeeds, the lock is held by exactly the process that is at work.\<close>

definition lock_inv :: "PortAllocator \<Rightarrow> 'i system \<Rightarrow> bool" where
  "lock_inv pa s \<longleftrightarrow> closes_succeed (pa_Locker pa) (w_env (sy_world s))
     \<and> (\<forall>i. sy_lock s = Some i \<longleftrightarrow> (\<exists>c. sy_procs s i = Some c \<and> busy c))"

fun remaining :: "pc \<Rightarrow> nat" where
  "remaining (Opening req) = 6"
| "remaining (Decoding req) = 5"
| "remaining (Seeking req pool port) = 4"
| "remaining (Truncating req pool port) = 3"
| "remaining (Writing req pool port) = 2"
| "remaining (Closing r) = 1"
| "remaining (Finished r) = 0"

lemma remaining_acquire: "remaining (acquire_or_release pa req pool) \<le> 4"
  by (cases req) (auto simp: close_with_def split: prod.split sum.split)

text \<open>
  An operation of a process at work is one of at most five, on every error path too, and
  the process leaves its request only through a close that gives the lock back.
\<close>

lemma local_step_remaining:
  assumes "busy c" "local_step pa c w = (c', w')" "closes_succeed (pa_Locker pa) (w_env w)"
  shows "remaining c' < remaining c"
    and "if unlocks pa c w then \<exists>r. c' = Finished r else busy c'"
proof -
  show "remaining c' < remaining c"
    using assms(1,2) remaining_acquire
    by (cases c)
       (auto simp: continue_def close_with_def less_Suc_eq_le eval_nat_numeral split: prod.splits outcome.splits)
  show "if unlocks pa c w then \<exists>r. c' = Finished r else busy c'"
    using assms busy_acquire
    by (cases c)
       (auto simp: continue_def unlocks_def closes_succeed_def file_Close_def os_op_def close_with_def
        split: prod.splits outcome.splits)
qed

lemma lock_inv_step:
  assumes "port_step pa l s s'" "lock_inv pa s"
  shows "lock_inv pa s'"
  using assms
proof (induction rule: port_step.induct)
  case (begin_request s i req)
  then show ?case
    by (auto simp: lock_inv_def)
next
  case (open_file s i req c' w')
  have "\<not> busy c" if "sy_procs s j = Some c" for j c
    using open_file(2,4) that unfolding lock_inv_def by (metis option.distinct(1))
  then show ?case
    using open_file(4) env_local_step [OF open_file(3)] open_step(1) [OF open_file(3)]
    by (auto simp: lock_inv_def)
next
  case (work s i c c' w')
  have lock: "sy_lock s = Some i" "closes_succeed (pa_Locker pa) (w_env (sy_world s))"
    using work(1,2,4) by (auto simp: lock_inv_def)
  have "\<not> busy d" if "sy_procs s j = Some d" "j \<noteq> i" for j d
    using work(4) lock(1) that by (auto simp: lock_inv_def)
  then show ?case
    using lock local_step_remaining(2) [OF work(2,3) lock(2)] env_local_step [OF work(3)]
    by (auto simp: lock_inv_def split: if_splits)
next
  case (process_ends s i c)
  have "j = k" if "sy_lock s = Some j" "sy_procs s k = Some d" "busy d" for j k d
    using process_ends(3) that unfolding lock_inv_def by (metis option.inject)
  then show ?case
    using process_ends(3) by (auto simp: lock_inv_def)
next
  case (elsewhere w' s)
  then show ?case
    by (simp add: lock_inv_def)
qed

lemma lock_inv_run: "runs (port_step pa) ls s s' \<Longrightarrow> lock_inv pa s \<Longrightarrow> lock_inv pa s'"
  by (induction rule: runs.induct) (simp_all add: lock_inv_step)

lemma busy_finishes:
  assumes "sy_procs s i = Some c" "busy c" "closes_succeed (pa_Locker pa) (w_env (sy_world s))"
  shows "\<exists>as s' r. length as \<le> remaining c \<and> runs (port_step pa) (map (Work i) as) s s'
    \<and> sy_lock s' = None \<and> sy_procs s' = (sy_procs s)(i \<mapsto> Finished r)"
  using assms
proof (induction "remaining c" arbitrary: s c rule: less_induct)
  case less
  obtain c' w' where st: "local_step pa c (sy_world s) = (c', w')"
    by fastforce
  let ?s = "s\<lparr>sy_world := w', sy_procs := (sy_procs s)(i \<mapsto> c'),
      sy_lock := (if unlocks pa c (sy_world s) then None else sy_lock s)\<rparr>"
  have one: "port_step pa (Work i (effect c c')) s ?s"
    using port_step.work [OF less(2,3) st] .
  note smaller = local_step_remaining [OF less(3) st less(4)]
  show ?case
  proof (cases "unlocks pa c (sy_world s)")
    case True
    then obtain r where "c' = Finished r"
      using smaller(2) by auto
    then have "length [effect c c'] \<le> remaining c \<and> runs (port_step pa) (map (Work i) [effect c c']) s ?s
        \<and> sy_lock ?s = None \<and> sy_procs ?s = (sy_procs s)(i \<mapsto> Finished r)"
      using one True smaller(1) by (simp add: runs_Cons)
    then show ?thesis
      by blast
  next
    case False
    then have "\<exists>as s' r. length as \<le> remaining c' \<and> runs (port_step pa) (map (Work i) as) ?s s'
        \<and> sy_lock s' = None \<and> sy_procs s' = (sy_procs ?s)(i \<mapsto> Finished r)"
      using smaller less(4) env_local_step [OF st] by (intro less(1)) auto
    then obtain as s' r where "length as \<le> remaining c'" "runs (port_step pa) (map (Work i) as) ?s s'"
        "sy_lock s' = None" "sy_procs s' = (sy_procs s)(i \<mapsto> Finished r)"
      by auto
    moreover from this(2) have "runs (port_step pa) (map (Work i) (effect c c' # as)) s s'"
      using one by (auto simp: runs_Cons)
    moreover have "length (effect c c' # as) \<le> remaining c"
      using calculation(1) smaller(1) by simp
    ultimately show ?thesis
      by blast
  qed
qed

text \<open>
  C22: the lock is always given back. When closing the file succeeds, then whatever other
  operations failed and whatever happened before, the process that has the file locked can
  finish its request in at most five operations of its own, the last of which is the close
  that unlocks the file, and a process that waits for the file finds it free.
\<close>

theorem lock_is_released:
  assumes "closes_succeed (pa_Locker pa) (w_env w)"
    and "runs (port_step pa) ls (system_start w) s"
    and "sy_lock s = Some i" and "sy_procs s j = Some (Opening req)"
  shows "\<exists>as s'. length as \<le> 5 \<and> runs (port_step pa) (map (Work i) as) s s' \<and> sy_lock s' = None
    \<and> sy_procs s' j = Some (Opening req) \<and> (\<exists>r. sy_procs s' i = Some (Finished r))"
proof -
  have inv: "lock_inv pa s"
    using lock_inv_run [OF assms(2)] assms(1) by (simp add: lock_inv_def system_start_def)
  then obtain c where c: "sy_procs s i = Some c" "busy c"
    using assms(3) by (auto simp: lock_inv_def)
  have "i \<noteq> j" "remaining c \<le> 5"
    using c assms(4) by (auto, cases c) auto
  obtain as s' r where "length as \<le> 5" "runs (port_step pa) (map (Work i) as) s s'" "sy_lock s' = None"
      and procs: "sy_procs s' = (sy_procs s)(i \<mapsto> Finished r)"
    using busy_finishes [OF c, of pa] inv \<open>remaining c \<le> 5\<close> unfolding lock_inv_def by (meson order_trans)
  moreover have "sy_procs s' j = Some (Opening req)" "sy_procs s' i = Some (Finished r)"
    using procs \<open>i \<noteq> j\<close> assms(4) by simp_all
  ultimately show ?thesis
    by blast
qed

subsection \<open>The file between requests\<close>

lemma leases_managed:
  "runs (lease_step pa) as L L' \<Longrightarrow> (\<And>p h. L p = Some h \<Longrightarrow> managed_port pa p) \<Longrightarrow> L' p = Some h \<Longrightarrow> managed_port pa p"
proof (induction arbitrary: p h rule: runs.induct)
  case (2 a L L1 as L2)
  have "managed_port pa q" if "L1 q = Some k" for q k
    using 2(1,4) that by (cases rule: lease_step.cases) (auto split: if_splits)
  with 2(3,5) show ?case
    by blast
qed blast

text \<open>
  C23: the state file always has the form that the allocator reads. When file operations
  succeed, then whenever no process has it locked the file decodes into a pool in which no
  port occurs twice and every port lies in the range of the tracker.
\<close>

theorem port_file_well_formed:
  assumes "os_calm (w_env w)" and "ledger (pa_Locker pa) w Map.empty"
    and "runs (port_step pa) ls (system_start w) s" and "sy_lock s = None"
  shows "\<exists>pool w'. DecodeAll (pa_Locker pa) zero_Pool (sy_world s) = (Ok pool, w') \<and> wf_pool pool
    \<and> list_all (\<lambda>(p, h). managed_port pa p) (acquired pool)"
proof -
  have "writes_succeed (pa_Locker pa) (w_env w)"
    using assms(1) by (simp add: os_calm_def writes_succeed_def)
  from port_steps_inv [OF assms(3) system_start_inv [OF this assms(2)]]
  obtain L where run: "runs (lease_step pa) (map action_of ls) Map.empty L" and inv: "system_inv pa L s"
    by blast
  have led: "ledger (pa_Locker pa) (sy_world s) L"
    using system_inv_ledger [OF inv] system_inv_busy(1) [OF inv] assms(4) by force
  moreover have "os_calm (w_env (sy_world s))"
    using env_port_steps [OF assms(3)] assms(1) by (simp add: system_start_def)
  ultimately obtain pool w' where pool: "DecodeAll (pa_Locker pa) zero_Pool (sy_world s) = (Ok pool, w')"
    using calm_DecodeAll by fastforce
  have own: "owners pool = L" and wf: "wf_pool pool"
    using DecodeAll_Ok [OF pool led] by auto
  have "managed_port pa p" if "(p, h) \<in> set (acquired pool)" for p h
  proof -
    have "L p = Some h"
      using that wf own by (simp add: owners_def wf_pool_def flip: own)
    then show ?thesis
      using leases_managed [OF run, of p h] by simp
  qed
  then show ?thesis
    using pool wf by (auto simp: list_all_iff)
qed

subsection \<open>One request, and two processes\<close>

text \<open>A request that runs alone on the new system is granted the first port.\<close>

lemma continue_Ok: "m w = (Ok x, w') \<Longrightarrow> continue (annotate msg m) ok failed w = (ok x, w')"
  by (simp add: continue_def annotate_def attempt_def bind_def)

lemma calm_single_ops:
  assumes "os_calm (w_env w)"
  shows "\<exists>w'. file_Seek0 f w = (Ok (), w')" "\<exists>w'. file_Truncate0 f w = (Ok (), w')"
    "\<exists>w'. bind map_order (\<lambda>order. file_Write f (d order)) w = (Ok (), w')"
  using assms by (simp_all add: os_calm_def file_Seek0_def file_Truncate0_def file_Write_def os_op_def bind_def map_order_def)

lemma calm_local_steps:
  assumes "os_calm (w_env w)"
  shows "\<exists>w'. local_step pa (Seeking req pool port) w = (Truncating req pool port, w')"
    "\<exists>w'. local_step pa (Truncating req pool port) w = (Writing req pool port, w')"
    "\<exists>w'. local_step pa (Writing req pool port) w = (Closing (Inr port), w')"
  using calm_single_ops(1,2) [OF assms, of "pa_Locker pa"]
    calm_single_ops(3) [OF assms, of "pa_Locker pa" "\<lambda>order. encode_json (Pool_MarshalJSON order pool)"]
  by (auto simp: continue_Ok)

lemma first_acquire:
  assumes "owners pool = Map.empty"
  shows "\<exists>pool'. acquire_or_release winc_ports (Allocate h) pool = Seeking (Allocate h) pool' (Some 40000)"
proof -
  have "\<exists>k :: u16. k < 5000"
    by (rule exI [of _ 0]) simp
  moreover have "\<not> 0 < k \<Longrightarrow> k = 0" for k :: u16
    by (simp add: word_gt_0)
  ultimately show ?thesis
    using AcquireOne_spec [of "pa_Tracker winc_ports" pool h] assms by (auto split: prod.splits sum.splits)
qed

lemma work_on:
  assumes "\<exists>w'. local_step pa c w = (c', w')" "busy c"
  shows "\<exists>w' l'. port_step pa (Work i (effect c c')) \<lparr>sy_world = w, sy_lock = l, sy_procs = ps(i \<mapsto> c)\<rparr>
      \<lparr>sy_world = w', sy_lock = l', sy_procs = ps(i \<mapsto> c')\<rparr> \<and> w_env w' = w_env w"
proof -
  obtain w' where st: "local_step pa c w = (c', w')"
    using assms(1) by blast
  show ?thesis
    using port_step.work [of "\<lparr>sy_world = w, sy_lock = l, sy_procs = ps(i \<mapsto> c)\<rparr>" i c pa c' w'] st assms(2)
      env_local_step [OF st] by auto
qed

lemma first_request_runs:
  "\<exists>s :: nat system. runs (port_step winc_ports)
     [Begin 0 (Allocate ''a''), Acquire 0, Work 0 Quiet, Work 0 Quiet, Work 0 Quiet, Work 0 (Grant ''a'' 40000)]
     (system_start quiet_world) s \<and> (\<forall>i req pool port. sy_procs s i \<noteq> Some (Writing req pool port))"
proof -
  let ?sys = "\<lambda>w l c. \<lparr>sy_world = w, sy_lock = l, sy_procs = [0 \<mapsto> c]\<rparr> :: nat system"
  let ?req = "Allocate ''a''"
  obtain w1 pool w2 where w1: "Lock_Open (pa_Locker winc_ports) quiet_world = (Ok (), w1)"
    and w2: "DecodeAll (pa_Locker winc_ports) zero_Pool w1 = (Ok pool, w2)"
    and pool: "owners pool = Map.empty" "w_env w2 = w_env quiet_world"
    using decoded_pool [OF calm_only_writes [OF quiet_calm] quiet_ledger(2)] by metis
  obtain pool' where acq: "acquire_or_release winc_ports ?req pool = Seeking ?req pool' (Some 40000)"
    using first_acquire [OF pool(1)] by blast
  have "local_step winc_ports (Opening ?req) quiet_world = (Decoding ?req, w1)"
    and dec: "local_step winc_ports (Decoding ?req) w1 = (Seeking ?req pool' (Some 40000), w2)"
    using w1 w2 acq by (simp_all add: continue_Ok [of "Lock_Open (pa_Locker winc_ports)"]
        continue_Ok [of "DecodeAll (pa_Locker winc_ports) zero_Pool"])
  then have p1: "port_step winc_ports (Acquire 0) (?sys quiet_world None (Opening ?req)) (?sys w1 (Some 0) (Decoding ?req))"
    using port_step.open_file [of "?sys quiet_world None (Opening ?req)" 0 ?req winc_ports] w1 by (auto simp: locks_def)
  have p0: "port_step winc_ports (Begin 0 ?req) (system_start quiet_world) (?sys quiet_world None (Opening ?req))"
    using port_step.begin_request [of "system_start quiet_world" 0 winc_ports ?req] by (auto simp: system_start_def)
  have p2: "port_step winc_ports (Work 0 Quiet) (?sys w1 (Some 0) (Decoding ?req)) (?sys w2 (Some 0) (Seeking ?req pool' (Some 40000)))"
    using port_step.work [of "?sys w1 (Some 0) (Decoding ?req)" 0 "Decoding ?req" winc_ports, OF _ _ ] dec
    by (auto simp: unlocks_def)
  note calm = calm_local_steps [of _ winc_ports ?req pool' "Some 40000"]
  obtain w3 l3 where p3: "port_step winc_ports (Work 0 Quiet) (?sys w2 (Some 0) (Seeking ?req pool' (Some 40000)))
      (?sys w3 l3 (Truncating ?req pool' (Some 40000)))" "w_env w3 = w_env w2"
    using work_on [OF calm(1) [of w2], where i = 0 and ps = Map.empty] quiet_calm pool(2) by fastforce
  obtain w4 l4 where p4: "port_step winc_ports (Work 0 Quiet) (?sys w3 l3 (Truncating ?req pool' (Some 40000)))
      (?sys w4 l4 (Writing ?req pool' (Some 40000)))" "w_env w4 = w_env w3"
    using work_on [OF calm(2) [of w3], where i = 0 and ps = Map.empty] quiet_calm pool(2) p3(2) by fastforce
  obtain w5 l5 where p5: "port_step winc_ports (Work 0 (Grant ''a'' 40000)) (?sys w4 l4 (Writing ?req pool' (Some 40000)))
      (?sys w5 l5 (Closing (Inr (Some 40000))))"
    using work_on [OF calm(3) [of w4], where i = 0 and ps = Map.empty] quiet_calm pool(2) p3(2) p4(2) by fastforce
  have "\<forall>i req pl port. sy_procs (?sys w5 l5 (Closing (Inr (Some 40000)))) i \<noteq> Some (Writing req pl port)"
    by simp
  with p0 p1 p2 p3(1) p4(1) p5 show ?thesis
    unfolding runs_Cons runs_Nil by blast
qed

theorem ports_refine_leases_witness:
  "\<exists>(s :: nat system) as. runs (port_step winc_ports)
       [Begin 0 (Allocate ''a''), Acquire 0, Work 0 Quiet, Work 0 Quiet, Work 0 Quiet, Work 0 (Grant ''a'' 40000)]
       (system_start quiet_world) s
     \<and> as = [Quiet, Quiet, Quiet, Quiet, Quiet, Grant ''a'' 40000]
     \<and> runs (lease_step winc_ports) as Map.empty [40000 \<mapsto> ''a'']
     \<and> ledger (pa_Locker winc_ports) (sy_world s) [40000 \<mapsto> ''a'']"
proof -
  obtain s :: "nat system" where s: "runs (port_step winc_ports)
       [Begin 0 (Allocate ''a''), Acquire 0, Work 0 Quiet, Work 0 Quiet, Work 0 Quiet, Work 0 (Grant ''a'' 40000)]
       (system_start quiet_world) s" "\<forall>i req pool port. sy_procs s i \<noteq> Some (Writing req pool port)"
    using first_request_runs by blast
  from ports_refine_leases [OF quiet_writes quiet_ledger(2) s(1)] s(2)
  obtain L where L: "runs (lease_step winc_ports) [Quiet, Quiet, Quiet, Quiet, Quiet, Grant ''a'' 40000] Map.empty L"
      "ledger (pa_Locker winc_ports) (sy_world s) L"
    by auto
  then have "L = [40000 \<mapsto> ''a'']"
    by (simp add: runs_Cons)
  then show ?thesis
    using s(1) L by blast
qed

text \<open>Two processes: the first opens the file of the new system, the second waits for it.\<close>

lemma two_processes_contend:
  "\<exists>s :: nat system. runs (port_step winc_ports)
       [Begin 0 (Allocate ''a''), Begin 1 (Allocate ''b''), Acquire 0] (system_start quiet_world) s
     \<and> sy_lock s = Some 0 \<and> sy_procs s 1 = Some (Opening (Allocate ''b''))"
proof -
  let ?s0 = "system_start quiet_world :: nat system"
  let ?s1 = "?s0\<lparr>sy_procs := (sy_procs ?s0)(0 \<mapsto> Opening (Allocate ''a''))\<rparr>"
  let ?s2 = "?s1\<lparr>sy_procs := (sy_procs ?s1)(1 \<mapsto> Opening (Allocate ''b''))\<rparr>"
  obtain w' where w': "Lock_Open (pa_Locker winc_ports) quiet_world = (Ok (), w')"
    using calm_files(1) quiet_calm calm_only_writes by blast
  let ?s3 = "?s2\<lparr>sy_world := w', sy_procs := (sy_procs ?s2)(0 \<mapsto> Decoding (Allocate ''a'')), sy_lock := Some 0\<rparr>"
  have "port_step winc_ports (Begin 0 (Allocate ''a'')) ?s0 ?s1" "port_step winc_ports (Begin 1 (Allocate ''b'')) ?s1 ?s2"
    by (rule port_step.begin_request; simp add: system_start_def)+
  moreover have "local_step winc_ports (Opening (Allocate ''a'')) (sy_world ?s2) = (Decoding (Allocate ''a''), w')"
    using w' by (simp add: system_start_def continue_Ok [of "Lock_Open (pa_Locker winc_ports)"])
  then have "port_step winc_ports (Acquire 0) ?s2 ?s3"
    using port_step.open_file [of ?s2 0 "Allocate ''a''" winc_ports] w' by (auto simp: system_start_def locks_def)
  ultimately have "runs (port_step winc_ports) [Begin 0 (Allocate ''a''), Begin 1 (Allocate ''b''), Acquire 0] ?s0 ?s3"
    unfolding runs_Cons runs_Nil by blast
  then show ?thesis
    by (rule_tac exI) (auto simp: system_start_def)
qed

lemma quiet_closes: "closes_succeed f (w_env quiet_world)"
  by (simp add: closes_succeed_def quiet_defs)

theorem lock_is_released_witness:
  "\<exists>(s :: nat system) as s'. runs (port_step winc_ports)
       [Begin 0 (Allocate ''a''), Begin 1 (Allocate ''b''), Acquire 0] (system_start quiet_world) s \<and> sy_lock s = Some 0
     \<and> length as \<le> 5 \<and> runs (port_step winc_ports) (map (Work 0) as) s s' \<and> sy_lock s' = None
     \<and> sy_procs s' 1 = Some (Opening (Allocate ''b''))"
proof -
  obtain s :: "nat system" where s: "runs (port_step winc_ports)
       [Begin 0 (Allocate ''a''), Begin 1 (Allocate ''b''), Acquire 0] (system_start quiet_world) s" "sy_lock s = Some 0"
      "sy_procs s 1 = Some (Opening (Allocate ''b''))"
    using two_processes_contend by blast
  show ?thesis
    using s lock_is_released [OF quiet_closes s] by blast
qed

theorem port_file_well_formed_witness:
  "\<exists>pool w'. DecodeAll (pa_Locker winc_ports) zero_Pool quiet_world = (Ok pool, w') \<and> wf_pool pool
    \<and> list_all (\<lambda>(p, h). managed_port winc_ports p) (acquired pool)"
  using port_file_well_formed [of quiet_world winc_ports "[Begin 0 (Allocate ''a'')]"
      "(system_start quiet_world)\<lparr>sy_procs := [0 \<mapsto> Opening (Allocate ''a'')]\<rparr> :: nat system"]
    port_step.begin_request [of "system_start quiet_world :: nat system" 0 winc_ports "Allocate ''a''"] quiet_calm quiet_ledger(2)
  by (simp add: system_start_def runs_Cons)

end
