(* ===== verification/Hcs_Client.thy ===== *)
theory Hcs_Client
  imports Winc_World
begin

text \<open>
  hcs/client.go, and the container and process handles of hcs/container.go and
  hcs/process.go: the calls winc makes to hcsshim, with the retries, the waits and the
  error values the client adds to them.
\<close>

section \<open>Containers\<close>

definition GetContainers :: "ComputeSystemQuery \<Rightarrow> ContainerProperties list op" where
  "GetContainers q = ask (Hcs (CGetContainers q)) (\<lambda>e h. o_GetContainers (e_hcs e) h q)"

definition NameToGuid :: "string \<Rightarrow> string op" where
  "NameToGuid name = ask (Hcs (CNameToGuid name)) (\<lambda>e h. o_NameToGuid (e_hcs e) h name)"

text \<open>\<open>hcsshim.DriverInfo\<close>\<close>

record DriverInfo =
  di_Flavour :: int
  di_HomeDir :: string

definition GetLayerMountPath :: "DriverInfo \<Rightarrow> string \<Rightarrow> string op" where
  "GetLayerMountPath info i =
     ask (Hcs (CGetLayerMountPath (di_Flavour info) (di_HomeDir info) i))
       (\<lambda>e h. o_GetLayerMountPath (e_hcs e) h (di_Flavour info) (di_HomeDir info) i)"

definition CreateContainer :: "string \<Rightarrow> ContainerConfig \<Rightarrow> Container op" where
  "CreateContainer i config =
     ask (Hcs (CCreateContainer i config)) (\<lambda>e h. o_CreateContainer (e_hcs e) h i config)"

definition OpenContainer :: "string \<Rightarrow> Container op" where
  "OpenContainer i = ask (Hcs (COpenContainer i)) (\<lambda>e h. o_OpenContainer (e_hcs e) h i)"

definition IsPending :: "error \<Rightarrow> bool op" where
  "IsPending err = asks (\<lambda>e. o_IsPending (e_hcs e) err)"

definition GetContainerProperties :: "string \<Rightarrow> ContainerProperties op" where
  "GetContainerProperties i =
     bind (GetContainers \<lparr>q_IDs = [i], q_Owners = []\<rparr>) (\<lambda>cps.
       case cps of
         [] \<Rightarrow> throw (HcsError (NotFoundError i))
       | [cp] \<Rightarrow> ret cp
       | _ \<Rightarrow> throw (HcsError (DuplicateError i)))"

text \<open>The methods of a container handle.\<close>

definition container_call :: "hcs_call \<Rightarrow> unit op" where
  "container_call c = ask (Hcs c) (\<lambda>e h. o_ContainerCall (e_hcs e) h c)"

definition Container_Start :: "Container \<Rightarrow> unit op" where
  "Container_Start c = container_call (CStart c)"

definition Container_Shutdown :: "Container \<Rightarrow> unit op" where
  "Container_Shutdown c = container_call (CShutdown c)"

definition Container_Terminate :: "Container \<Rightarrow> unit op" where
  "Container_Terminate c = container_call (CTerminate c)"

definition Container_WaitTimeout :: "Container \<Rightarrow> nat \<Rightarrow> unit op" where
  "Container_WaitTimeout c ms = container_call (CWaitTimeout c ms)"

definition Container_Statistics :: "Container \<Rightarrow> ShimStatistics op" where
  "Container_Statistics c = ask (Hcs (CStatistics c)) (\<lambda>e h. o_Statistics (e_hcs e) h c)"

text \<open>\<open>ProcessList\<close>: winc looks only at the number of processes.\<close>

definition Container_ProcessList :: "Container \<Rightarrow> nat op" where
  "Container_ProcessList c = ask (Hcs (CProcessList c)) (\<lambda>e h. o_ProcessList (e_hcs e) h c)"

definition Container_CreateProcess :: "Container \<Rightarrow> ProcessConfig \<Rightarrow> Process op" where
  "Container_CreateProcess c pc =
     ask (Hcs (CCreateProcess c pc)) (\<lambda>e h. o_CreateProcess (e_hcs e) h c pc)"

definition Container_Close :: "Container \<Rightarrow> unit op" where
  "Container_Close c = container_call (CCloseContainer c)"

text \<open>The methods of a process handle; a timeout is in nanoseconds, as \<open>time.Duration\<close> is.\<close>

definition Process_Wait :: "Process \<Rightarrow> unit op" where
  "Process_Wait p = container_call (CProcessWait (p_Handle p))"

definition Process_WaitTimeout :: "Process \<Rightarrow> int \<Rightarrow> unit op" where
  "Process_WaitTimeout p d = container_call (CProcessWaitTimeout (p_Handle p) d)"

definition Process_ExitCode :: "Process \<Rightarrow> int op" where
  "Process_ExitCode p = ask (Hcs (CExitCode (p_Handle p))) (\<lambda>e h. o_ExitCode (e_hcs e) h (p_Handle p))"

definition Process_Kill :: "Process \<Rightarrow> unit op" where
  "Process_Kill p = container_call (CKill (p_Handle p))"

definition Process_Stdio :: "Process \<Rightarrow> unit op" where
  "Process_Stdio p = container_call (CStdio (p_Handle p))"

definition Process_CloseStdin :: "Process \<Rightarrow> unit op" where
  "Process_CloseStdin p = container_call (CCloseStdin (p_Handle p))"

definition Process_Close :: "Process \<Rightarrow> unit op" where
  "Process_Close p = container_call (CCloseProcess (p_Handle p))"

section \<open>Networks and endpoints\<close>

definition CreateEndpoint :: "HNSEndpoint \<Rightarrow> HNSEndpoint op" where
  "CreateEndpoint endpoint = ask (Hns (NCreateEndpoint endpoint)) (\<lambda>e h. o_CreateEndpoint (e_hns e) h endpoint)"

definition UpdateEndpoint :: "HNSEndpoint \<Rightarrow> HNSEndpoint op" where
  "UpdateEndpoint endpoint = ask (Hns (NUpdateEndpoint endpoint)) (\<lambda>e h. o_UpdateEndpoint (e_hns e) h endpoint)"

definition DeleteEndpoint :: "HNSEndpoint \<Rightarrow> HNSEndpoint op" where
  "DeleteEndpoint endpoint = ask (Hns (NDeleteEndpoint endpoint)) (\<lambda>e h. o_DeleteEndpoint (e_hns e) h endpoint)"

definition network_Create :: "HNSNetwork \<Rightarrow> HNSNetwork op" where
  "network_Create network = ask (Hns (NCreateNetwork network)) (\<lambda>e h. o_CreateNetwork (e_hns e) h network)"

definition errElmNotFound :: string where
  "errElmNotFound = ''network create: HNS failed with error : Element not found. ''"

text \<open>The creation loop with \<open>k\<close> tries left and the error of the previous one.\<close>

fun create_network_tries :: "nat \<Rightarrow> HNSNetwork \<Rightarrow> error \<Rightarrow> HNSNetwork op" where
  "create_network_tries 0 network err = throw err"
| "create_network_tries (Suc k) network err =
     bind (attempt (network_Create network)) (\<lambda>r. case r of
       Inr net \<Rightarrow> ret net
     | Inl e \<Rightarrow> if Error e \<noteq> errElmNotFound then throw e else create_network_tries k network e)"

text \<open>The readiness loop from round \<open>i\<close> with \<open>k\<close> rounds left.\<close>

fun await_network :: "bool op \<Rightarrow> nat \<Rightarrow> nat \<Rightarrow> bool op" where
  "await_network ready i 0 = ret False"
| "await_network ready i (Suc k) =
     bind (sleep (200 * i)) (\<lambda>_.
     bind ready (\<lambda>up. if up then ret True else await_network ready (Suc i) k))"

definition CreateNetwork :: "HNSNetwork \<Rightarrow> bool op \<Rightarrow> HNSNetwork op" where
  "CreateNetwork network networkReady =
     bind (create_network_tries 3 network (Errorf [])) (\<lambda>net.
     bind (await_network networkReady 0 10) (\<lambda>networkUp.
       if \<not> networkUp then throw (Errorf (''network '' @ nw_Name net @ '' not ready in time''))
       else ret net))"

definition DeleteNetwork :: "HNSNetwork \<Rightarrow> HNSNetwork op" where
  "DeleteNetwork network = ask (Hns (NDeleteNetwork network)) (\<lambda>e h. o_DeleteNetwork (e_hns e) h network)"

definition HNSListNetworkRequest :: "HNSNetwork list op" where
  "HNSListNetworkRequest = ask (Hns NListNetworks) (\<lambda>e h. o_ListNetworks (e_hns e) h)"

definition GetHNSEndpointByID :: "string \<Rightarrow> HNSEndpoint op" where
  "GetHNSEndpointByID i = ask (Hns (NGetEndpointByID i)) (\<lambda>e h. o_GetEndpointByID (e_hns e) h i)"

definition GetHNSEndpointByName :: "string \<Rightarrow> HNSEndpoint op" where
  "GetHNSEndpointByName n = ask (Hns (NGetEndpointByName n)) (\<lambda>e h. o_GetEndpointByName (e_hns e) h n)"

definition GetHNSNetworkByName :: "string \<Rightarrow> HNSNetwork op" where
  "GetHNSNetworkByName n = ask (Hns (NGetNetworkByName n)) (\<lambda>e h. o_GetNetworkByName (e_hns e) h n)"

fun await_endpoint :: "bool op \<Rightarrow> nat \<Rightarrow> bool op" where
  "await_endpoint ready 0 = ret False"
| "await_endpoint ready (Suc k) =
     bind ready (\<lambda>up. if up then ret True
       else bind (sleep 200) (\<lambda>_. await_endpoint ready k))"

definition HotAttachEndpoint :: "string \<Rightarrow> string \<Rightarrow> bool op \<Rightarrow> unit op" where
  "HotAttachEndpoint containerID endpointID endpointReady =
     bind (ask (Hns (NHotAttach containerID endpointID)) (\<lambda>e h. o_HotAttach (e_hns e) h containerID endpointID)) (\<lambda>_.
     bind (await_endpoint endpointReady 10) (\<lambda>endpointUp.
       if \<not> endpointUp then throw (Errorf (''endpoint '' @ endpointID @ '' not ready in time''))
       else ret ()))"

definition HotDetachEndpoint :: "string \<Rightarrow> string \<Rightarrow> unit op" where
  "HotDetachEndpoint containerID endpointID =
     ask (Hns (NHotDetach containerID endpointID)) (\<lambda>e h. o_HotDetach (e_hns e) h containerID endpointID)"

lemmas hcs_call_defs =
  GetContainers_def NameToGuid_def GetLayerMountPath_def CreateContainer_def OpenContainer_def IsPending_def
  container_call_def Container_Start_def Container_Shutdown_def Container_Terminate_def
  Container_WaitTimeout_def Container_Statistics_def Container_ProcessList_def
  Container_CreateProcess_def Container_Close_def Process_Wait_def Process_WaitTimeout_def
  Process_ExitCode_def Process_Kill_def Process_Stdio_def Process_CloseStdin_def Process_Close_def
lemmas hns_call_defs =
  CreateEndpoint_def UpdateEndpoint_def DeleteEndpoint_def network_Create_def DeleteNetwork_def
  HNSListNetworkRequest_def GetHNSEndpointByID_def GetHNSEndpointByName_def GetHNSNetworkByName_def
  HotDetachEndpoint_def

section \<open>What the calls leave alone\<close>

lemma frame_hcs_calls [frame_intros]:
  assumes "\<And>c w. f (log_event (Hcs c) w) = f w"
  shows "frame f (GetContainers q)" "frame f (NameToGuid n)" "frame f (CreateContainer i cc)"
    "frame f (OpenContainer i)" "frame f (IsPending err)" "frame f (container_call c)"
    "frame f (Container_Start ct)" "frame f (Container_Shutdown ct)" "frame f (Container_Terminate ct)"
    "frame f (Container_WaitTimeout ct ms)" "frame f (Container_Statistics ct)" "frame f (Container_ProcessList ct)"
    "frame f (Container_CreateProcess ct pc)" "frame f (Container_Close ct)"
    "frame f (Process_Wait p)" "frame f (Process_WaitTimeout p d)" "frame f (Process_ExitCode p)"
    "frame f (Process_Kill p)" "frame f (Process_Stdio p)" "frame f (Process_CloseStdin p)" "frame f (Process_Close p)"
  unfolding hcs_call_defs by (intro frame_ask frame_asks assms)+

lemma frame_hns_calls [frame_intros]:
  assumes "\<And>c w. f (log_event (Hns c) w) = f w"
  shows "frame f (CreateEndpoint ep)" "frame f (UpdateEndpoint ep)" "frame f (DeleteEndpoint ep)"
    "frame f (network_Create nw)" "frame f (DeleteNetwork nw)" "frame f HNSListNetworkRequest"
    "frame f (GetHNSEndpointByID i)" "frame f (GetHNSEndpointByName i)" "frame f (GetHNSNetworkByName i)"
    "frame f (HotDetachEndpoint i j)"
  unfolding hns_call_defs by (intro frame_ask assms)+

lemma frame_GetContainerProperties [frame_intros]:
  assumes "\<And>c w. f (log_event (Hcs c) w) = f w"
  shows "frame f (GetContainerProperties i)"
  unfolding GetContainerProperties_def by (intro frame_intros assms)

lemma frame_create_network_tries [frame_intros]:
  assumes "\<And>c w. f (log_event (Hns c) w) = f w"
  shows "frame f (create_network_tries k nw err)"
  by (induction k arbitrary: err) (auto intro!: frame_intros assms)

lemma frame_await [frame_intros]:
  assumes "\<And>c w. f (log_event (Os c) w) = f w" "frame f ready"
  shows "frame f (await_network ready i k)" "frame f (await_endpoint ready k)"
proof -
  show "frame f (await_network ready i k)"
    by (induction k arbitrary: i; simp only: await_network.simps; (intro frame_intros assms; assumption?)+)
  show "frame f (await_endpoint ready k)"
    by (induction k; simp only: await_endpoint.simps; (intro frame_intros assms; assumption?)+)
qed

lemma frame_CreateNetwork [frame_intros]:
  assumes "\<And>ev w. f (log_event ev w) = f w" "frame f ready"
  shows "frame f (CreateNetwork nw ready)" "frame f (HotAttachEndpoint i j ready)"
  unfolding CreateNetwork_def HotAttachEndpoint_def by (intro frame_intros assms)+

lemma no_panic_hcs_calls [safe_intros]:
  "no_panic (GetContainers q)" "no_panic (NameToGuid n)" "no_panic (CreateContainer i cc)"
  "no_panic (OpenContainer i)" "no_panic (IsPending err)" "no_panic (container_call c)"
  "no_panic (Container_Start ct)" "no_panic (Container_Shutdown ct)" "no_panic (Container_Terminate ct)"
  "no_panic (Container_WaitTimeout ct ms)" "no_panic (Container_Statistics ct)" "no_panic (Container_ProcessList ct)"
  "no_panic (Container_CreateProcess ct pc)" "no_panic (Container_Close ct)"
  "no_panic (Process_Wait p)" "no_panic (Process_WaitTimeout p d)" "no_panic (Process_ExitCode p)"
  "no_panic (Process_Kill p)" "no_panic (Process_Stdio p)" "no_panic (Process_CloseStdin p)" "no_panic (Process_Close p)"
  unfolding hcs_call_defs by (intro safe_intros)+

lemma no_panic_hns_calls [safe_intros]:
  "no_panic (CreateEndpoint ep)" "no_panic (UpdateEndpoint ep)" "no_panic (DeleteEndpoint ep)"
  "no_panic (network_Create nw)" "no_panic (DeleteNetwork nw)" "no_panic HNSListNetworkRequest"
  "no_panic (GetHNSEndpointByID i)" "no_panic (GetHNSEndpointByName i)" "no_panic (GetHNSNetworkByName i)"
  "no_panic (HotDetachEndpoint i j)"
  unfolding hns_call_defs by (intro safe_intros)+

lemma no_panic_GetContainerProperties [safe_intros]: "no_panic (GetContainerProperties i)"
  unfolding GetContainerProperties_def by (intro safe_intros)

lemma no_panic_create_network_tries [safe_intros]: "no_panic (create_network_tries k nw err)"
  by (induction k arbitrary: err) (auto intro!: safe_intros)

lemma no_panic_await [safe_intros]:
  assumes "no_panic ready"
  shows "no_panic (await_network ready i k)" "no_panic (await_endpoint ready k)"
proof -
  show "no_panic (await_network ready i k)"
    by (induction k arbitrary: i; simp only: await_network.simps; (intro safe_intros assms; assumption?)+)
  show "no_panic (await_endpoint ready k)"
    by (induction k; simp only: await_endpoint.simps; (intro safe_intros assms; assumption?)+)
qed

lemma no_panic_CreateNetwork [safe_intros]:
  "no_panic ready \<Longrightarrow> no_panic (CreateNetwork nw ready)"
  "no_panic ready \<Longrightarrow> no_panic (HotAttachEndpoint i j ready)"
  unfolding CreateNetwork_def HotAttachEndpoint_def by (intro safe_intros | assumption)+

end
