(* ===== verification/Net_Applier.thy ===== *)
theory Net_Applier
  imports Net_Rules Port_Allocator Hcs_Client
begin

text \<open>
  The rule applier of winc-network: the firewall constants (network/firewall), the runner of
  netsh commands inside the container (network/netsh/netsh.go) and the applier that turns
  rules into HNS policies (network/netrules/applier.go). The lemmas say which remote
  addresses an outbound policy opens and that mapped ports come from the port service.
\<close>

section \<open>Firewall constants\<close>

definition NET_FW_IP_PROTOCOL_ICMP :: int where "NET_FW_IP_PROTOCOL_ICMP = 1"
definition NET_FW_IP_PROTOCOL_TCP :: int where "NET_FW_IP_PROTOCOL_TCP = 6"
definition NET_FW_IP_PROTOCOL_UDP :: int where "NET_FW_IP_PROTOCOL_UDP = 17"
definition NET_FW_IP_PROTOCOL_ANY :: int where "NET_FW_IP_PROTOCOL_ANY = 256"

section \<open>Running netsh in the container\<close>

record Runner =
  nr_id :: string
  nr_cmdTimeout :: int

text \<open>A \<open>time.Duration\<close> is a 64-bit count of nanoseconds; the product wraps.\<close>

definition seconds :: "int \<Rightarrow> int" where
  "seconds s = sint (word_of_int (s * 1000000000) :: 64 word)"

definition NewRunner :: "string \<Rightarrow> int \<Rightarrow> Runner" where
  "NewRunner containerId cmdTimeoutInSeconds =
     \<lparr>nr_id = containerId, nr_cmdTimeout = seconds cmdTimeoutInSeconds\<rparr>"

definition bare_process :: "string \<Rightarrow> ProcessConfig" where
  "bare_process cmd = \<lparr>pc_CommandLine = cmd, pc_CreateStdInPipe = False, pc_CreateStdOutPipe = False,
     pc_CreateStdErrPipe = False, pc_WorkingDirectory = [], pc_User = [], pc_Environment = []\<rparr>"

definition RunContainer :: "Runner \<Rightarrow> string list \<Rightarrow> unit op" where
  "RunContainer nr args =
     (let commandLine = ''netsh '' @ join '' '' args in
      bind (OpenContainer (nr_id nr)) (\<lambda>container.
      deferring (Container_Close container)
        (bind (attempt (Container_CreateProcess container (bare_process commandLine))) (\<lambda>r. case r of
           Inl err \<Rightarrow> throw (CleanError err)
         | Inr p \<Rightarrow>
             bind (Process_WaitTimeout p (nr_cmdTimeout nr)) (\<lambda>_.
             bind (Process_ExitCode p) (\<lambda>exitCode.
               if exitCode \<noteq> 0
               then throw (Errorf (''running '' @ [CHR 0x27] @ commandLine @ [CHR 0x27] @ '' in '' @ nr_id nr
                                   @ '' failed: exit code '' @ itoa exitCode))
               else ret ()))))))"

section \<open>The applier\<close>

text \<open>\<open>hcsshim.NatPolicy\<close> and \<open>hcsshim.ACLPolicy\<close>: the fields winc sets.\<close>

record NatPolicy =
  nat_Type :: string
  nat_Protocol :: string
  nat_InternalPort :: u16
  nat_ExternalPort :: u16

record ACLPolicy =
  acl_Type :: string
  acl_Protocol :: u16
  acl_Action :: string
  acl_Direction :: string
  acl_LocalAddresses :: string
  acl_RemoteAddresses :: string
  acl_LocalPorts :: string
  acl_RemotePorts :: string

record Applier =
  ap_netSh :: Runner
  ap_containerId :: string
  ap_portAllocator :: PortAllocator

definition NewApplier :: "Runner \<Rightarrow> string \<Rightarrow> PortAllocator \<Rightarrow> Applier" where
  "NewApplier netSh containerId portAllocator =
     \<lparr>ap_netSh = netSh, ap_containerId = containerId, ap_portAllocator = portAllocator\<rparr>"

definition Applier_In :: "Applier \<Rightarrow> NetIn \<Rightarrow> string \<Rightarrow> (NatPolicy \<times> ACLPolicy) op" where
  "Applier_In a rule containerIP =
     bind (if ni_HostPort rule = 0 then AllocatePort (ap_portAllocator a) (ap_containerId a) 0
           else ret (ni_HostPort rule)) (\<lambda>externalPort.
     ret (\<lparr>nat_Type = ''NAT'', nat_Protocol = ''TCP'',
           nat_InternalPort = ni_ContainerPort rule, nat_ExternalPort = externalPort\<rparr>,
          \<lparr>acl_Type = ''ACL'', acl_Protocol = word_of_int NET_FW_IP_PROTOCOL_TCP,
           acl_Action = ''Allow'', acl_Direction = ''In'', acl_LocalAddresses = containerIP,
           acl_RemoteAddresses = [], acl_LocalPorts = format_uint (ni_ContainerPort rule),
           acl_RemotePorts = []\<rparr>))"

text \<open>The CIDR blocks of the networks of a rule; a panic of the conversion ends the loop.\<close>

fun remote_cidrs :: "IPRange list \<Rightarrow> ('e, string list) outcome" where
  "remote_cidrs [] = Ok []"
| "remote_cidrs (ipr # iprs) =
     (case IPRangeToCIDRs ipr of
        Ok cs \<Rightarrow> (case remote_cidrs iprs of Ok ds \<Rightarrow> Ok (cs @ ds) | Err e \<Rightarrow> Err e | Panic s \<Rightarrow> Panic s)
      | Err e \<Rightarrow> Err e
      | Panic s \<Rightarrow> Panic s)"

definition outbound :: "string \<Rightarrow> string list \<Rightarrow> ACLPolicy" where
  "outbound containerIP rAddrs =
     \<lparr>acl_Type = ''ACL'', acl_Protocol = 0, acl_Action = ''Allow'', acl_Direction = ''Out'',
      acl_LocalAddresses = containerIP, acl_RemoteAddresses = join '','' rAddrs,
      acl_LocalPorts = [], acl_RemotePorts = []\<rparr>"

definition Applier_Out :: "Applier \<Rightarrow> NetOut \<Rightarrow> string \<Rightarrow> ACLPolicy op" where
  "Applier_Out a rule containerIP =
     bind (\<lambda>w. (remote_cidrs (no_Networks rule), w)) (\<lambda>rAddrs.
     let rAddrs' = (if ''0.0.0.0/0'' \<in> set rAddrs then [] else rAddrs);
         acl = outbound containerIP rAddrs'
     in if no_Protocol rule = ProtocolTCP then
          ret (acl\<lparr>acl_RemotePorts := FirewallRulePortRange (no_Ports rule),
                   acl_Protocol := word_of_int NET_FW_IP_PROTOCOL_TCP\<rparr>)
        else if no_Protocol rule = ProtocolUDP then
          ret (acl\<lparr>acl_RemotePorts := FirewallRulePortRange (no_Ports rule),
                   acl_Protocol := word_of_int NET_FW_IP_PROTOCOL_UDP\<rparr>)
        else if no_Protocol rule = ProtocolICMP then
          ret (acl\<lparr>acl_Protocol := word_of_int NET_FW_IP_PROTOCOL_ICMP\<rparr>)
        else if no_Protocol rule = ProtocolAll then
          ret (acl\<lparr>acl_Protocol := word_of_int NET_FW_IP_PROTOCOL_ANY\<rparr>)
        else throw (Errorf (''invalid protocol: '' @ format_uint (no_Protocol rule))))"

definition Applier_OpenPort :: "Applier \<Rightarrow> u32 \<Rightarrow> unit op" where
  "Applier_OpenPort a port =
     RunContainer (ap_netSh a)
       [''http'', ''add'', ''urlacl'', ''url=http://*:'' @ format_uint port @ ''/'', ''user=Users'']"

definition Applier_Cleanup :: "Applier \<Rightarrow> unit op" where
  "Applier_Cleanup a = ReleaseAllPorts (ap_portAllocator a) (ap_containerId a)"

section \<open>Which remote addresses a policy opens\<close>

definition v4_range :: "IPRange \<Rightarrow> (u32 \<times> u32) option" where
  "v4_range r =
     (case (ipToUint (ipr_Start r) :: (unit, u32) outcome, ipToUint (ipr_End r) :: (unit, u32) outcome) of
        (Ok a, Ok b) \<Rightarrow> Some (a, b)
      | _ \<Rightarrow> None)"

lemma ipToUint_any: "ipToUint a = (Ok v :: ('e, u32) outcome) \<Longrightarrow> ipToUint a = (Ok v :: ('f, u32) outcome)"
  by (auto simp: ipToUint_def Let_def split: list.splits if_splits)

lemma IPRangeToCIDRs_v4:
  assumes "v4_range r = Some (a, b)"
  shows "IPRangeToCIDRs r = (Ok (cidr_loop a b []) :: ('e, string list) outcome)"
proof -
  have "ipToUint (ipr_Start r) = (Ok a :: (unit, u32) outcome)" "ipToUint (ipr_End r) = (Ok b :: (unit, u32) outcome)"
    using assms by (auto simp: v4_range_def split: outcome.splits)
  then have "ipToUint (ipr_Start r) = (Ok a :: ('e, u32) outcome)" "ipToUint (ipr_End r) = (Ok b :: ('e, u32) outcome)"
    by (auto dest: ipToUint_any)
  then show ?thesis
    by (simp add: IPRangeToCIDRs_def)
qed

text \<open>The blocks of a list of ranges, and the addresses the ranges span.\<close>

definition range_cidrs :: "IPRange list \<Rightarrow> string list" where
  "range_cidrs rs = concat (map (\<lambda>r. case v4_range r of Some (a, b) \<Rightarrow> cidr_loop a b [] | None \<Rightarrow> []) rs)"

definition range_addrs :: "IPRange list \<Rightarrow> u32 set" where
  "range_addrs rs = (\<Union>r \<in> set rs. case v4_range r of Some (a, b) \<Rightarrow> {a .. b} | None \<Rightarrow> {})"

lemma remote_cidrs_v4:
  "\<forall>r \<in> set rs. v4_range r \<noteq> None \<Longrightarrow> remote_cidrs rs = (Ok (range_cidrs rs) :: ('e, string list) outcome)"
proof (induction rs)
  case (Cons r rs)
  then obtain a b where "v4_range r = Some (a, b)" by auto
  then show ?case
    using Cons by (simp add: IPRangeToCIDRs_v4 range_cidrs_def)
qed (simp add: range_cidrs_def)

lemma cidr_loop_addrs: "\<Union> (cidr_addrs ` set (cidr_loop a b [])) = {a .. b}"
proof -
  have "cidr_addrs (cidrFromIntMask (fst g) (snd g)) = block_set g" if "g \<in> set (cidr_blocks a b)" for g
    using that cidr_blocks_maximal [of "fst g" "snd g" a b] cidr_addrs_text by simp
  then show ?thesis
    using cidr_blocks_cover [of a b] by (simp add: cidr_loop_blocks case_prod_unfold)
qed

lemma range_cidrs_addrs: "\<Union> (cidr_addrs ` set (range_cidrs rs)) = range_addrs rs"
proof (induction rs)
  case (Cons r rs)
  then show ?case
    using cidr_loop_addrs by (simp add: range_cidrs_def range_addrs_def split: option.splits)
qed (simp add: range_cidrs_def range_addrs_def)

lemma cidr_loop_empty: "cidr_loop a b [] = [] \<longleftrightarrow> b < a"
  unfolding cidr_loop_blocks by (subst cidr_blocks.simps) (auto simp: Let_def)

lemma range_cidrs_empty: "range_cidrs rs = [] \<longleftrightarrow> range_addrs rs = {}"
proof (induction rs)
  case (Cons r rs)
  then show ?case
    using cidr_loop_empty by (auto simp: range_cidrs_def range_addrs_def split: option.splits)
qed (simp add: range_cidrs_def range_addrs_def)

lemma range_cidrs_all:
  "''0.0.0.0/0'' \<in> set (range_cidrs rs) \<longleftrightarrow> (\<exists>r \<in> set rs. v4_range r = Some (0, 0xffffffff))"
  using all_addresses_iff by (auto simp: range_cidrs_def split: option.splits) (metis)

lemma cidr_loop_text: "c \<in> set (cidr_loop a b []) \<Longrightarrow> c \<noteq> [] \<and> CHR '','' \<notin> set c"
proof -
  assume "c \<in> set (cidr_loop a b [])"
  then obtain s and m :: u32 where c: "c = dotted (addr_bytes s) @ ''/'' @ format_uint m"
    by (auto simp: cidr_loop_blocks cidrFromIntMask_eq)
  have no: "CHR '','' \<notin> set (format_uint x)" for x :: "'a::len word"
    by (simp add: format_uint_def sep_notin_dec is_digit_def)
  have "CHR '','' \<notin> set (join ''.'' (map format_uint bs))" for bs :: ip
  proof (induction bs)
    case (Cons b bs)
    then show ?case by (cases bs) (auto simp: no)
  qed simp
  then show ?thesis
    using no by (simp add: c dotted_def)
qed

lemma range_cidrs_text: "c \<in> set (range_cidrs rs) \<Longrightarrow> c \<noteq> [] \<and> CHR '','' \<notin> set c"
  by (auto simp: range_cidrs_def dest: cidr_loop_text split: option.splits)

lemma join_empty_iff: "\<forall>x \<in> set xs. x \<noteq> [] \<Longrightarrow> join sep xs = [] \<longleftrightarrow> xs = []"
  by (cases xs; cases "tl xs") auto

lemma Applier_Out_remote:
  assumes "\<forall>r \<in> set (no_Networks rule). v4_range r \<noteq> None" and "Applier_Out a rule containerIP w = (Ok acl, w')"
  shows "acl_RemoteAddresses acl =
    join '','' (if ''0.0.0.0/0'' \<in> set (range_cidrs (no_Networks rule)) then [] else range_cidrs (no_Networks rule))"
    and "acl_Direction acl = ''Out'' \<and> acl_Action acl = ''Allow'' \<and> acl_LocalAddresses acl = containerIP"
  using assms by (auto simp: Applier_Out_def remote_cidrs_v4 bind_def outbound_def Let_def split: if_splits)

text \<open>
  C25: what an outbound policy opens. For networks that are IPv4 ranges, a policy that names
  remote addresses names exactly the addresses of the ranges. A policy that names none,
  which HNS reads as every destination, is made when one range is the whole address space,
  and also when no range contains an address (a start after its end, or no network at all).
\<close>

theorem Applier_Out_scope:
  assumes "\<forall>r \<in> set (no_Networks rule). v4_range r \<noteq> None" and "Applier_Out a rule containerIP w = (Ok acl, w')"
  shows "(acl_RemoteAddresses acl = [] \<longleftrightarrow>
            (\<exists>r \<in> set (no_Networks rule). v4_range r = Some (0, 0xffffffff)) \<or> range_addrs (no_Networks rule) = {})
       \<and> (acl_RemoteAddresses acl \<noteq> [] \<longrightarrow>
            \<Union> (cidr_addrs ` set (split_on (CHR '','') (acl_RemoteAddresses acl))) = range_addrs (no_Networks rule))"
proof -
  let ?cs = "range_cidrs (no_Networks rule)"
  have txts: "\<forall>c \<in> set ?cs. c \<noteq> []" "\<forall>c \<in> set ?cs. CHR '','' \<notin> set c"
    using range_cidrs_text by blast+
  note remote = Applier_Out_remote(1) [OF assms]
  show ?thesis
  proof (cases "''0.0.0.0/0'' \<in> set ?cs")
    case True
    then show ?thesis
      using remote range_cidrs_all by simp
  next
    case False
    then have ra: "acl_RemoteAddresses acl = join '','' ?cs"
      using remote by simp
    then have "split_on (CHR '','') (acl_RemoteAddresses acl) = ?cs" if "acl_RemoteAddresses acl \<noteq> []"
      using that split_on_join [of ?cs "CHR '',''"] txts(2) by (cases "?cs = []") auto
    then show ?thesis
      using False ra join_empty_iff [OF txts(1)] range_cidrs_all range_cidrs_empty range_cidrs_addrs by auto
  qed
qed

theorem Applier_Out_scope_witness:
  "let rule = \<lparr>no_Protocol = 1, no_Networks = [\<lparr>ipr_Start = [10, 0, 0, 9], ipr_End = [10, 0, 0, 1]\<rparr>], no_Ports = []\<rparr>;
       a = NewApplier (NewRunner ''c'' 10) ''c'' winc_ports
   in \<exists>acl. Applier_Out a rule ''172.30.0.2'' quiet_world = (Ok acl, quiet_world) \<and> acl_RemoteAddresses acl = []"
proof -
  let ?r = "\<lparr>ipr_Start = [10, 0, 0, 9], ipr_End = [10, 0, 0, 1]\<rparr>"
  let ?rule = "\<lparr>no_Protocol = 1, no_Networks = [?r], no_Ports = []\<rparr>"
  let ?a = "NewApplier (NewRunner ''c'' 10) ''c'' winc_ports"
  have v4: "v4_range ?r = Some (0x0a000009, 0x0a000001)"
    by (simp add: v4_range_def ipToUint_def To4_def)
  have run: "\<exists>acl. Applier_Out ?a ?rule ''172.30.0.2'' quiet_world = (Ok acl, quiet_world)"
    by (simp add: Applier_Out_def bind_def Let_def protocol_defs IPRangeToCIDRs_v4 [OF v4])
  moreover have "range_addrs [?r] = {}"
    by (simp add: range_addrs_def v4)
  ultimately show ?thesis
    using Applier_Out_scope [of ?rule ?a "''172.30.0.2''"] v4 by (fastforce simp: Let_def)
qed

section \<open>Ports\<close>

lemma content_log [simp]: "content_of (log_event ev w) q = content_of w q"
  by (simp add: content_of_def)

lemma frame_RunContainer [frame_intros]:
  "(\<And>c w. f (log_event (Hcs c) w) = f w) \<Longrightarrow> frame f (RunContainer nr args)"
  unfolding RunContainer_def by (intro frame_intros)

lemma no_panic_RunContainer [safe_intros]: "no_panic (RunContainer nr args)"
  unfolding RunContainer_def by (intro safe_intros)

lemma frame_Applier_Out [frame_intros]: "frame f (Applier_Out a rule ip)"
  unfolding Applier_Out_def by (intro frame_intros) (simp add: frame_def)

lemma frame_Applier_OpenPort [frame_intros]:
  "(\<And>c w. f (log_event (Hcs c) w) = f w) \<Longrightarrow> frame f (Applier_OpenPort a port)"
  unfolding Applier_OpenPort_def by (rule frame_RunContainer)

lemma env_Applier_In [frame_intros]: "frame w_env (Applier_In a rule ip)"
  unfolding Applier_In_def by (intro frame_intros)

lemma env_Applier_Cleanup [frame_intros]: "frame w_env (Applier_Cleanup a)"
  unfolding Applier_Cleanup_def by (rule env_ReleaseAllPorts)

lemma no_panic_Applier [safe_intros]:
  "no_panic (Applier_In a rule ip)" "no_panic (Applier_OpenPort a port)" "no_panic (Applier_Cleanup a)"
  unfolding Applier_In_def Applier_OpenPort_def Applier_Cleanup_def by (intro safe_intros)+

lemma Applier_In_cases:
  assumes "Applier_In a rule ip w = (Ok (n, acl), w')"
  shows "nat_InternalPort n = ni_ContainerPort rule"
    and "ni_HostPort rule \<noteq> 0 \<Longrightarrow> nat_ExternalPort n = ni_HostPort rule \<and> w' = w"
    and "ni_HostPort rule = 0 \<Longrightarrow> AllocatePort (ap_portAllocator a) (ap_containerId a) 0 w = (Ok (nat_ExternalPort n), w')"
  using assms unfolding Applier_In_def by (auto elim!: bind_OkE split: if_splits)

text \<open>The external ports of the rules that left the choice to winc.\<close>

definition chosen_ports :: "NetIn list \<Rightarrow> (NatPolicy \<times> ACLPolicy) list \<Rightarrow> u16 list" where
  "chosen_ports rules ps = map (\<lambda>(r, p). nat_ExternalPort (fst p)) (filter (\<lambda>(r, p). ni_HostPort r = 0) (zip rules ps))"

lemma map_upds_replicate: "m(ps [\<mapsto>] replicate (length ps) h) = (\<lambda>p. if p \<in> set ps then Some h else m p)"
  by (induction ps arbitrary: m) auto

text \<open>
  The rules of one container that leave the host port open are given pairwise different
  ports of the managed range, none of which anybody owned, and the ledger afterwards
  records exactly these for the container on top of what it held.
\<close>

theorem Applier_In_ports:
  assumes "ap_portAllocator a = winc_ports" and "ledger (pa_Locker winc_ports) w m"
    and "mapM (\<lambda>r. Applier_In a r ip) rules w = (Ok ps, w')"
  shows "distinct (chosen_ports rules ps) \<and> set (chosen_ports rules ps) \<inter> dom m = {}
    \<and> (\<forall>p \<in> set (chosen_ports rules ps). InRange (pa_Tracker winc_ports) p)
    \<and> ledger (pa_Locker winc_ports) w' (\<lambda>p. if p \<in> set (chosen_ports rules ps) then Some (ap_containerId a) else m p)"
  using assms(2,3)
proof (induction rules arbitrary: w m ps)
  case (Cons r rules)
  obtain n acl w1 ps' where p: "Applier_In a r ip w = (Ok (n, acl), w1)"
    and rest: "mapM (\<lambda>r. Applier_In a r ip) rules w1 = (Ok ps', w')" and ps: "ps = (n, acl) # ps'"
    using Cons.prems(2) by (auto elim!: bind_OkE)
  show ?case
  proof (cases "ni_HostPort r = 0")
    case True
    have fresh: "m (nat_ExternalPort n) = None" "InRange (pa_Tracker winc_ports) (nat_ExternalPort n)"
      "ledger (pa_Locker winc_ports) w1 (m(nat_ExternalPort n \<mapsto> ap_containerId a))"
      using ports.alloc_fresh [OF Cons.prems(1)] Applier_In_cases(3) [OF p True] assms(1) by auto
    have upd: "(\<lambda>q. if q \<in> set (chosen_ports rules ps') then Some (ap_containerId a)
                else (m(nat_ExternalPort n \<mapsto> ap_containerId a)) q)
        = (\<lambda>q. if q \<in> set (chosen_ports (r # rules) ps) then Some (ap_containerId a) else m q)"
      using True by (auto simp: chosen_ports_def ps fun_eq_iff)
    have "set (chosen_ports rules ps') \<inter> dom (m(nat_ExternalPort n \<mapsto> ap_containerId a)) = {}"
      "distinct (chosen_ports rules ps')" "\<forall>p \<in> set (chosen_ports rules ps'). InRange (pa_Tracker winc_ports) p"
      and led: "ledger (pa_Locker winc_ports) w' (\<lambda>q. if q \<in> set (chosen_ports (r # rules) ps) then Some (ap_containerId a) else m q)"
      using Cons.IH [OF fresh(3) rest] unfolding upd by auto
    moreover have "chosen_ports (r # rules) ps = nat_ExternalPort n # chosen_ports rules ps'"
      using True by (simp add: chosen_ports_def ps)
    ultimately show ?thesis
      using fresh(1,2) by auto
  next
    case False
    then show ?thesis
      using Cons.IH [OF _ rest] Cons.prems(1) Applier_In_cases(2) [OF p]
      by (simp add: ps chosen_ports_def)
  qed
qed (simp add: chosen_ports_def)

text \<open>
  A host port that is named in the rule is taken as it is, also one of the managed
  range, where \<open>AllocatePort\<close> itself would refuse it: two rules of one container can end up
  on the same host port.
\<close>

theorem Applier_In_collision:
  "let a = NewApplier (NewRunner ''c'' 10) ''c'' winc_ports;
       rules = [\<lparr>ni_HostPort = 0, ni_ContainerPort = 8080\<rparr>, \<lparr>ni_HostPort = 40000, ni_ContainerPort = 9090\<rparr>]
   in \<exists>ps w'. mapM (\<lambda>r. Applier_In a r ''172.30.0.2'') rules quiet_world = (Ok ps, w')
        \<and> map (\<lambda>p. nat_ExternalPort (fst p)) ps = [40000, 40000]
        \<and> fst (AllocatePort winc_ports ''c'' 40000 quiet_world) = Err (Errorf ''cannot specify port from allocation range'')"
proof -
  have "fst (AllocatePort winc_ports ''c'' 0 quiet_world) = Ok 40000"
    by (simp add: allocator_run winc_ports_def quiet_defs acquire_from.simps contains_def)
  then obtain w' where "AllocatePort winc_ports ''c'' 0 quiet_world = (Ok 40000, w')"
    by (metis prod.collapse)
  moreover have "fst (AllocatePort winc_ports ''c'' 40000 quiet_world) = Err (Errorf ''cannot specify port from allocation range'')"
    by (simp add: AllocatePort_def InRange_def)
  ultimately show ?thesis
    by (simp add: Let_def NewApplier_def Applier_In_def bind_def)
qed

theorem Applier_In_ports_witness:
  "let a = NewApplier (NewRunner ''c'' 10) ''c'' winc_ports; rules = [\<lparr>ni_HostPort = 0, ni_ContainerPort = 8080\<rparr>]
   in \<exists>ps w'. mapM (\<lambda>r. Applier_In a r ''172.30.0.2'') rules quiet_world = (Ok ps, w')
        \<and> distinct (chosen_ports rules ps) \<and> length (chosen_ports rules ps) = 1"
proof -
  let ?a = "NewApplier (NewRunner ''c'' 10) ''c'' winc_ports" and ?rules = "[\<lparr>ni_HostPort = 0, ni_ContainerPort = 8080\<rparr>]"
  have "fst (AllocatePort winc_ports ''c'' 0 quiet_world) = Ok 40000"
    by (simp add: allocator_run winc_ports_def quiet_defs acquire_from.simps contains_def)
  then obtain w' where "AllocatePort winc_ports ''c'' 0 quiet_world = (Ok 40000, w')"
    by (metis prod.collapse)
  then have run: "\<exists>p. mapM (\<lambda>r. Applier_In ?a r ''172.30.0.2'') ?rules quiet_world = (Ok [p], w')"
    by (simp add: NewApplier_def Applier_In_def bind_def)
  then obtain p where p: "mapM (\<lambda>r. Applier_In ?a r ''172.30.0.2'') ?rules quiet_world = (Ok [p], w')" ..
  show ?thesis
    using p Applier_In_ports [OF _ quiet_ledger(2) p] by (auto simp: Let_def chosen_ports_def NewApplier_def)
qed

end
