(* ===== verification/Go_Path.thy ===== *)
theory Go_Path
  imports Go_Strings
begin

text \<open>
  Go's \<open>path/filepath\<close> for Windows, as winc calls it: \<open>VolumeName\<close>, \<open>Clean\<close>, \<open>Join\<close>, \<open>Base\<close>,
  \<open>Dir\<close>, \<open>IsAbs\<close>. \<open>Clean\<close> follows the library's algorithm element by element, with the flag
  that says whether its output has left the input (the library then guards against making
  an absolute path). The lemmas compute these functions on rooted paths of plain elements,
  the paths winc builds under its root directory.
\<close>

abbreviation bs :: char where "bs \<equiv> CHR 0x5C"

definition is_sep :: "char \<Rightarrow> bool" where
  "is_sep c \<longleftrightarrow> c = bs \<or> c = CHR ''/''"

definition FromSlash :: "string \<Rightarrow> string" where
  "FromSlash s = map (\<lambda>c. if c = CHR ''/'' then bs else c) s"

definition upper_char :: "char \<Rightarrow> char" where
  "upper_char c = (let n = (of_char c :: nat) in if 97 \<le> n \<and> n \<le> 122 then char_of (n - 32) else c)"

section \<open>Volumes\<close>

definition pathHasPrefixFold :: "string \<Rightarrow> string \<Rightarrow> bool" where
  "pathHasPrefixFold s prefix \<longleftrightarrow>
     length prefix \<le> length s
     \<and> list_all2 (\<lambda>p c. if is_sep p then is_sep c else upper_char p = upper_char c)
         prefix (take (length prefix) s)
     \<and> (length prefix < length s \<longrightarrow> is_sep (s ! length prefix))"

text \<open>The position of the second separator at or after a position, or the end.\<close>

definition uncLen :: "string \<Rightarrow> nat \<Rightarrow> nat" where
  "uncLen path k =
     (let host = takeWhile (\<lambda>c. \<not> is_sep c) (drop k path);
          i = k + length host;
          share = takeWhile (\<lambda>c. \<not> is_sep c) (drop (Suc i) path)
      in min (length path) (if i < length path then Suc i + length share else i))"

definition volumeNameLen :: "string \<Rightarrow> nat" where
  "volumeNameLen path =
     (if 2 \<le> length path \<and> path ! 1 = CHR '':'' then 2
      else if path = [] \<or> \<not> is_sep (hd path) then 0
      else if pathHasPrefixFold path ([bs, bs, CHR ''.'', bs] @ ''UNC'') then uncLen path 8
      else if pathHasPrefixFold path [bs, bs, CHR ''.''] \<or> pathHasPrefixFold path [bs, bs, CHR ''?'']
              \<or> pathHasPrefixFold path [bs, CHR ''?'', CHR ''?''] then
        (if length path = 3 then 3
         else 4 + length (takeWhile (\<lambda>c. \<not> is_sep c) (drop 4 path)))
      else if 2 \<le> length path \<and> is_sep (path ! 1) then uncLen path 2
      else 0)"

definition VolumeName :: "string \<Rightarrow> string" where
  "VolumeName path = FromSlash (take (volumeNameLen path) path)"

section \<open>Clean\<close>

text \<open>The elements between separators, empty ones included.\<close>

definition elements :: "string \<Rightarrow> string list" where
  "elements s = split_on bs (FromSlash s)"

text \<open>What \<open>..\<close> leaves of the output: back to the previous separator, not below \<open>dotdot\<close>.\<close>

function back_up :: "nat \<Rightarrow> string \<Rightarrow> nat \<Rightarrow> nat" where
  "back_up dotdot out w =
     (if dotdot < w \<and> \<not> is_sep (out ! w) then back_up dotdot out (w - 1) else w)"
  by pat_completeness auto
termination by (relation "measure (\<lambda>(d, out, w). w)") auto

record clean_state =
  cl_out :: string
  cl_dotdot :: nat
  cl_changed :: bool

definition clean_append :: "string \<Rightarrow> string \<Rightarrow> clean_state \<Rightarrow> clean_state" where
  "clean_append path s st =
     st\<lparr>cl_out := cl_out st @ s,
        cl_changed := cl_changed st \<or> take (length s) (drop (length (cl_out st)) path) \<noteq> s\<rparr>"

definition clean_elem :: "bool \<Rightarrow> string \<Rightarrow> string \<Rightarrow> clean_state \<Rightarrow> clean_state" where
  "clean_elem rooted path e st =
     (let w = length (cl_out st) in
      if e = [] \<or> e = ''.'' then st
      else if e = ''..'' then
        (if cl_dotdot st < w
         then st\<lparr>cl_out := take (back_up (cl_dotdot st) (cl_out st) (w - 1)) (cl_out st)\<rparr>
         else if \<not> rooted then
           (let st' = clean_append path ((if 0 < w then [bs] else []) @ ''..'') st
            in st'\<lparr>cl_dotdot := length (cl_out st')\<rparr>)
         else st)
      else clean_append path
             ((if rooted \<and> w \<noteq> 1 \<or> \<not> rooted \<and> w \<noteq> 0 then [bs] else []) @ e) st)"

definition post_clean :: "nat \<Rightarrow> clean_state \<Rightarrow> string" where
  "post_clean volLen st =
     (let out = cl_out st in
      if volLen \<noteq> 0 \<or> \<not> cl_changed st then out
      else if CHR '':'' \<in> set (takeWhile (\<lambda>c. \<not> is_sep c) out) then [CHR ''.'', bs] @ out
      else if 3 \<le> length out \<and> is_sep (out ! 0) \<and> out ! 1 = CHR ''?'' \<and> out ! 2 = CHR ''?''
        then [bs, CHR ''.''] @ out
      else out)"

definition Clean :: "string \<Rightarrow> string" where
  "Clean originalPath =
     (let volLen = volumeNameLen originalPath; path = drop volLen originalPath in
      if path = [] then
        (if 1 < volLen \<and> is_sep (originalPath ! 0) \<and> is_sep (originalPath ! 1)
         then FromSlash originalPath else originalPath @ ''.'')
      else
        (let rooted = is_sep (hd path);
             st0 = \<lparr>cl_out = [], cl_dotdot = 0, cl_changed = False\<rparr>;
             st1 = (if rooted then (clean_append path [bs] st0)\<lparr>cl_dotdot := 1\<rparr> else st0);
             st2 = fold (clean_elem rooted path) (elements path) st1;
             st3 = (if cl_out st2 = [] then clean_append path ''.'' st2 else st2)
         in FromSlash (take volLen originalPath @ post_clean volLen st3)))"

section \<open>Join, Base, Dir, IsAbs\<close>

fun join_loop :: "string list \<Rightarrow> string \<Rightarrow> string" where
  "join_loop [] b = b"
| "join_loop (e # es) b =
     (if b = [] then join_loop es e
      else if is_sep (last b) then
        (let e' = dropWhile is_sep e;
             b' = (if length b = 1 \<and> take 2 e' = ''??'' \<and> (length e' = 2 \<or> is_sep (e' ! 2))
                   then b @ [CHR ''.'', bs] else b)
         in join_loop es (b' @ e'))
      else if last b = CHR '':'' then join_loop es (b @ e)
      else join_loop es (b @ [bs] @ e))"

definition Join :: "string list \<Rightarrow> string" where
  "Join es = (let b = join_loop es [] in if b = [] then [] else Clean b)"

definition IsAbs :: "string \<Rightarrow> bool" where
  "IsAbs path =
     (let l = volumeNameLen path; rest = drop l path in
      l \<noteq> 0 \<and> (is_sep (path ! 0) \<and> is_sep (path ! 1) \<or> rest \<noteq> [] \<and> is_sep (hd rest)))"

definition Base :: "string \<Rightarrow> string" where
  "Base path =
     (if path = [] then ''.''
      else
        (let p1 = rev (dropWhile is_sep (rev path));
             p2 = drop (length (VolumeName p1)) p1;
             p3 = rev (takeWhile (\<lambda>c. \<not> is_sep c) (rev p2))
         in if p3 = [] then [bs] else p3))"

definition Dir :: "string \<Rightarrow> string" where
  "Dir path =
     (let vol = VolumeName path;
          rest = drop (length vol) path;
          dir = Clean (rev (dropWhile (\<lambda>c. \<not> is_sep c) (rev rest)))
      in if dir = ''.'' \<and> 2 < length vol then vol else vol @ dir)"

section \<open>Rooted paths of plain elements\<close>

definition plain :: "string \<Rightarrow> bool" where
  "plain e \<longleftrightarrow> e \<noteq> [] \<and> e \<noteq> ''.'' \<and> e \<noteq> ''..'' \<and> list_all (\<lambda>c. \<not> is_sep c) e"

text \<open>\<open>C:\\a\\b\<close> for the drive \<open>C\<close> and the elements \<open>a\<close>, \<open>b\<close>.\<close>

definition rooted_path :: "char \<Rightarrow> string list \<Rightarrow> string" where
  "rooted_path d es = [d, CHR '':''] @ concat (map (\<lambda>e. bs # e) es)"

lemma is_sep_bs [simp]: "is_sep bs"
  by (simp add: is_sep_def)

lemma plain_no_bs: "plain e \<Longrightarrow> bs \<notin> set e" "plain e \<Longrightarrow> CHR ''/'' \<notin> set e"
  by (auto simp: plain_def list_all_iff is_sep_def)

lemma FromSlash_id: "CHR ''/'' \<notin> set s \<Longrightarrow> FromSlash s = s"
  by (induction s) (auto simp: FromSlash_def)

lemma volume_rooted [simp]: "volumeNameLen (d # CHR '':'' # s) = 2"
  by (simp add: volumeNameLen_def)

lemma no_slash_concat: "list_all plain es \<Longrightarrow> CHR ''/'' \<notin> set (concat (map (\<lambda>e. bs # e) es))"
  by (auto simp: list_all_iff dest: plain_no_bs)

lemma split_concat:
  "list_all plain es \<Longrightarrow> split_on bs (concat (map (\<lambda>e. bs # e) es)) = [] # es"
proof (induction es)
  case (Cons e es)
  have e: "bs \<notin> set e" and es: "list_all plain es"
    using Cons.prems plain_no_bs by auto
  show ?case
  proof (cases es)
    case Nil
    then show ?thesis using e by (simp add: split_on_no_sep)
  next
    case (Cons e' es')
    have "split_on bs (e @ bs # (e' @ concat (map (\<lambda>e. bs # e) es'))) = e # tl ([] # es)"
      using e Cons.IH es Cons by (simp add: split_on_append)
    then show ?thesis
      using Cons by simp
  qed
qed simp

lemma plain_long: "plain e \<Longrightarrow> 0 < length e"
  by (simp add: plain_def)

lemma concat_long: "list_all plain es \<Longrightarrow> es \<noteq> [] \<Longrightarrow> 2 \<le> length (concat (map (\<lambda>e. bs # e) es))"
  by (cases es) (auto dest!: plain_long simp: Suc_le_eq)

lemma clean_elem_plain:
  assumes "plain e" "path = pre @ [bs] @ e @ post" "2 \<le> length pre"
  shows "clean_elem True path e \<lparr>cl_out = pre, cl_dotdot = 1, cl_changed = False\<rparr>
         = \<lparr>cl_out = pre @ bs # e, cl_dotdot = 1, cl_changed = False\<rparr>"
  using assms by (auto simp: clean_elem_def Let_def clean_append_def plain_def)

lemma clean_fold_plain:
  "list_all plain es \<Longrightarrow> path = pre @ concat (map (\<lambda>e. bs # e) es) \<Longrightarrow> 2 \<le> length pre \<Longrightarrow>
   fold (clean_elem True path) es \<lparr>cl_out = pre, cl_dotdot = 1, cl_changed = False\<rparr>
   = \<lparr>cl_out = path, cl_dotdot = 1, cl_changed = False\<rparr>"
proof (induction es arbitrary: pre)
  case (Cons e es)
  have "clean_elem True path e \<lparr>cl_out = pre, cl_dotdot = 1, cl_changed = False\<rparr>
         = \<lparr>cl_out = pre @ bs # e, cl_dotdot = 1, cl_changed = False\<rparr>"
    using Cons.prems by (intro clean_elem_plain [where post = "concat (map (\<lambda>e. bs # e) es)"]) auto
  then show ?case
    using Cons.IH [of "pre @ bs # e"] Cons.prems by simp
qed simp

lemma clean_fold_rooted:
  assumes "list_all plain es" "es \<noteq> []" "path = concat (map (\<lambda>e. bs # e) es)"
  shows "fold (clean_elem True path) es \<lparr>cl_out = [bs], cl_dotdot = 1, cl_changed = False\<rparr>
         = \<lparr>cl_out = path, cl_dotdot = 1, cl_changed = False\<rparr>"
proof -
  obtain e es' where es: "es = e # es'"
    using assms(2) by (cases es) auto
  have "clean_elem True path e \<lparr>cl_out = [bs], cl_dotdot = 1, cl_changed = False\<rparr>
        = \<lparr>cl_out = bs # e, cl_dotdot = 1, cl_changed = False\<rparr>"
    using assms by (auto simp: es clean_elem_def Let_def clean_append_def plain_def)
  then show ?thesis
    using clean_fold_plain [of es' path "bs # e"] assms plain_long [of e] by (simp add: es Suc_le_eq)
qed

lemma Clean_rooted [simp]:
  assumes "list_all plain es" "es \<noteq> []" "d \<noteq> CHR ''/''"
  shows "Clean (rooted_path d es) = rooted_path d es"
proof -
  let ?p = "concat (map (\<lambda>e. bs # e) es)"
  have p: "?p \<noteq> []" "hd ?p = bs"
    using assms(2) by (cases es; simp)+
  have el: "elements ?p = [] # es"
    unfolding elements_def FromSlash_id [OF no_slash_concat [OF assms(1)]] by (rule split_concat [OF assms(1)])
  have st1: "(clean_append ?p [bs] \<lparr>cl_out = [], cl_dotdot = 0, cl_changed = False\<rparr>)\<lparr>cl_dotdot := 1\<rparr>
      = \<lparr>cl_out = [bs], cl_dotdot = 1, cl_changed = False\<rparr>"
    using p by (cases ?p) (auto simp: clean_append_def)
  have skip: "clean_elem True ?p [] st = st" for st
    by (simp add: clean_elem_def Let_def)
  have "Clean (rooted_path d es) = FromSlash ([d, CHR '':''] @ post_clean 2 \<lparr>cl_out = ?p, cl_dotdot = 1, cl_changed = False\<rparr>)"
    using p by (simp add: Clean_def rooted_path_def Let_def el st1 [simplified] skip
        clean_fold_rooted [OF assms(1,2) refl, simplified] )
  also have "\<dots> = rooted_path d es"
    using assms no_slash_concat [OF assms(1)]
    by (simp add: post_clean_def rooted_path_def FromSlash_id)
  finally show ?thesis .
qed

lemma rooted_path_append:
  "rooted_path d (es @ [e]) = rooted_path d es @ bs # e"
  by (simp add: rooted_path_def)

lemma last_rooted: "list_all plain es \<Longrightarrow> es \<noteq> [] \<Longrightarrow> \<not> is_sep (last (rooted_path d es))"
proof -
  assume *: "list_all plain es" "es \<noteq> []"
  then obtain es' e where es: "es = es' @ [e]" by (cases es rule: rev_cases) auto
  have "plain e" using * by (simp add: es)
  then show ?thesis
    unfolding es rooted_path_append by (auto simp: plain_def list_all_iff)
qed

lemma Join_rooted [simp]:
  assumes "list_all plain es" "es \<noteq> []" "plain e" "d \<noteq> CHR ''/''" "last (rooted_path d es) \<noteq> CHR '':''"
  shows "Join [rooted_path d es, e] = rooted_path d (es @ [e])"
proof -
  have "join_loop [rooted_path d es, e] [] = rooted_path d (es @ [e])"
    using assms last_rooted [OF assms(1,2), of d] by (simp add: rooted_path_append) (simp add: rooted_path_def)
  moreover have "rooted_path d (es @ [e]) \<noteq> []"
    by (simp add: rooted_path_def)
  ultimately show ?thesis
    using assms by (simp add: Join_def del: join_loop.simps)
qed

lemma IsAbs_rooted [simp]: "es \<noteq> [] \<Longrightarrow> IsAbs (rooted_path d es)"
  by (cases es) (simp_all add: IsAbs_def rooted_path_def Let_def)

lemma Base_rooted:
  assumes "list_all plain es" "plain e" "d \<noteq> CHR ''/''"
  shows "Base (rooted_path d (es @ [e])) = e"
proof -
  have nosep: "\<not> is_sep c" if "c \<in> set e" for c
    using assms(2) that by (auto simp: plain_def list_all_iff)
  have e: "e \<noteq> []" using assms(2) by (simp add: plain_def)
  have strip: "rev (dropWhile is_sep (rev (p @ bs # e))) = p @ bs # e" for p
  proof -
    have "rev (p @ bs # e) = hd (rev e) # tl (rev e @ bs # rev p)"
      using e by (cases "rev e") auto
    moreover have "\<not> is_sep (hd (rev e))"
      using nosep e by (cases e rule: rev_cases) auto
    ultimately show ?thesis
      by (metis dropWhile.simps(2) rev_rev_ident)
  qed
  have tw: "takeWhile (\<lambda>c. \<not> is_sep c) (rev e @ bs # q) = rev e" for q
    using nosep by (subst takeWhile_append2) auto
  have "length (VolumeName (rooted_path d (es @ [e]))) = 2"
    by (simp add: VolumeName_def rooted_path_def FromSlash_def)
  then show ?thesis
    using strip [of "rooted_path d es"] e tw
    by (simp add: Base_def Let_def rooted_path_append) (simp add: rooted_path_def)
qed

end
