(* ===== verification/Firewall_Applier.thy ===== *)
theory Firewall_Applier
  imports Net_Applier Go_Path
begin

text \<open>
  network/firewall/firewall.go, the calls into the firewall DLL, and
  network/netrules/firewallapplier/firewall_applier.go, the applier that opens ports and
  addresses with Windows firewall rules instead of HNS policies.
\<close>

section \<open>The firewall DLL\<close>

definition NET_FW_ACTION_BLOCK :: int where "NET_FW_ACTION_BLOCK = 0"
definition NET_FW_ACTION_ALLOW :: int where "NET_FW_ACTION_ALLOW = 1"
definition NET_FW_RULE_DIR_IN :: int where "NET_FW_RULE_DIR_IN = 1"
definition NET_FW_RULE_DIR_OUT :: int where "NET_FW_RULE_DIR_OUT = 2"

record Rule =
  fr_Name :: string
  fr_Action :: int
  fr_Direction :: int
  fr_Protocol :: int
  fr_LocalAddresses :: string
  fr_LocalPorts :: string
  fr_RemoteAddresses :: string
  fr_RemotePorts :: string

definition CreateRule :: "Rule \<Rightarrow> unit op" where
  "CreateRule rule =
     bind (UTF16PtrFromString (fr_Name rule)) (\<lambda>name.
     bind (UTF16PtrFromString (fr_LocalAddresses rule)) (\<lambda>localAddresses.
     bind (UTF16PtrFromString (fr_LocalPorts rule)) (\<lambda>localPorts.
     bind (UTF16PtrFromString (fr_RemoteAddresses rule)) (\<lambda>remoteAddresses.
     bind (UTF16PtrFromString (fr_RemotePorts rule)) (\<lambda>remotePorts.
     bind (dll_call (WFwCreateRule name (fr_Action rule) (fr_Direction rule) (fr_Protocol rule)
             localAddresses localPorts remoteAddresses remotePorts)) (\<lambda>(r0, err).
       if low32 r0 \<noteq> 0 then throw (Errorf (''error creating rule: '' @ Error err @ [CHR 0x0A]))
       else ret ()))))))"

definition DeleteRule :: "string \<Rightarrow> unit op" where
  "DeleteRule name =
     bind (UTF16PtrFromString name) (\<lambda>n.
     bind (dll_call (WFwDeleteRule n)) (\<lambda>(r0, err).
       if low32 r0 \<noteq> 0 then throw (Errorf (''error deleting rule: '' @ Error err @ [CHR 0x0A]))
       else ret ()))"

definition RuleExists :: "string \<Rightarrow> bool op" where
  "RuleExists name =
     bind (UTF16PtrFromString name) (\<lambda>n.
     bind (dll_call (WFwRuleExists n)) (\<lambda>(r0, err).
       if low32 r0 = -1 then throw (Errorf (''error checking rule exists: '' @ Error err @ [CHR 0x0A]))
       else ret (r0 = 1)))"

definition Firewall_Close :: "unit op" where
  "Firewall_Close = win_status WReleaseDLL"

definition NewFirewall :: "string \<Rightarrow> unit op" where
  "NewFirewall firewallDLL =
     bind (if firewallDLL = [] then
             bind (ask (Os OExecutable) (\<lambda>e h. o_Executable (e_os e) h)) (\<lambda>exeFile.
               ret (Join [Dir exeFile, ''firewall.dll'']))
           else ret firewallDLL) (\<lambda>dll.
     bind (win_status (WLoadDLL dll)) (\<lambda>_.
     bind (win_status (WFindProc ''CreateRule'')) (\<lambda>_.
     bind (win_status (WFindProc ''DeleteRule'')) (\<lambda>_.
       win_status (WFindProc ''RuleExists'')))))"

section \<open>The applier\<close>

record FwApplier =
  fa_netSh :: Runner
  fa_containerId :: string
  fa_portAllocator :: PortAllocator

definition NewFwApplier :: "Runner \<Rightarrow> string \<Rightarrow> PortAllocator \<Rightarrow> FwApplier" where
  "NewFwApplier netSh containerId portAllocator =
     \<lparr>fa_netSh = netSh, fa_containerId = containerId, fa_portAllocator = portAllocator\<rparr>"

definition Fw_OpenPort :: "FwApplier \<Rightarrow> u16 \<Rightarrow> unit op" where
  "Fw_OpenPort a port =
     RunContainer (fa_netSh a)
       [''http'', ''add'', ''urlacl'', ''url=http://*:'' @ format_uint port @ ''/'', ''user=Users'']"

definition Fw_In :: "FwApplier \<Rightarrow> NetIn \<Rightarrow> string \<Rightarrow> (NatPolicy option \<times> ACLPolicy option) op" where
  "Fw_In a rule containerIP =
     bind (if ni_HostPort rule = 0 then AllocatePort (fa_portAllocator a) (fa_containerId a) 0
           else ret (ni_HostPort rule)) (\<lambda>externalPort.
     bind (CreateRule \<lparr>fr_Name = fa_containerId a, fr_Action = NET_FW_ACTION_ALLOW,
             fr_Direction = NET_FW_RULE_DIR_IN, fr_Protocol = NET_FW_IP_PROTOCOL_TCP,
             fr_LocalAddresses = containerIP, fr_LocalPorts = format_uint (ni_ContainerPort rule),
             fr_RemoteAddresses = [], fr_RemotePorts = []\<rparr>) (\<lambda>_.
     bind (Fw_OpenPort a (ni_ContainerPort rule)) (\<lambda>_.
       ret (Some \<lparr>nat_Type = ''NAT'', nat_Protocol = ''TCP'',
                  nat_InternalPort = ni_ContainerPort rule, nat_ExternalPort = externalPort\<rparr>, None))))"

definition Fw_Out :: "FwApplier \<Rightarrow> NetOut \<Rightarrow> string \<Rightarrow> ACLPolicy option op" where
  "Fw_Out a rule containerIP =
     (let fr = \<lparr>fr_Name = fa_containerId a, fr_Action = NET_FW_ACTION_ALLOW,
            fr_Direction = NET_FW_RULE_DIR_OUT, fr_Protocol = 0, fr_LocalAddresses = containerIP,
            fr_LocalPorts = [], fr_RemoteAddresses = FirewallRuleIPRange (no_Networks rule), fr_RemotePorts = []\<rparr>;
          ports = FirewallRulePortRange (no_Ports rule)
      in bind (if no_Protocol rule = ProtocolTCP then
                 ret (fr\<lparr>fr_RemotePorts := ports, fr_Protocol := NET_FW_IP_PROTOCOL_TCP\<rparr>)
               else if no_Protocol rule = ProtocolUDP then
                 ret (fr\<lparr>fr_RemotePorts := ports, fr_Protocol := NET_FW_IP_PROTOCOL_UDP\<rparr>)
               else if no_Protocol rule = ProtocolICMP then
                 ret (fr\<lparr>fr_Protocol := NET_FW_IP_PROTOCOL_ICMP\<rparr>)
               else if no_Protocol rule = ProtocolAll then
                 ret (fr\<lparr>fr_Protocol := NET_FW_IP_PROTOCOL_ANY\<rparr>)
               else throw (Errorf (''invalid protocol: '' @ format_uint (no_Protocol rule)))) (\<lambda>fr'.
         bind (CreateRule fr') (\<lambda>_. ret None)))"

definition Fw_Cleanup :: "FwApplier \<Rightarrow> unit op" where
  "Fw_Cleanup a =
     bind (attempt (ReleaseAllPorts (fa_portAllocator a) (fa_containerId a))) (\<lambda>released.
     bind (attempt (DeleteRule (fa_containerId a))) (\<lambda>deleted.
       case (released, deleted) of
         (Inl e1, Inl e2) \<Rightarrow> throw (Errorf (Error e1 @ '', '' @ Error e2))
       | (Inl e1, Inr _) \<Rightarrow> throw e1
       | (Inr _, Inl e2) \<Rightarrow> throw e2
       | (Inr _, Inr _) \<Rightarrow> ret ()))"

section \<open>Properties\<close>

lemma no_panic_firewall [safe_intros]:
  "no_panic (CreateRule r)" "no_panic (DeleteRule n)"
  unfolding CreateRule_def DeleteRule_def by (intro safe_intros)+

text \<open>
  The clean-up of the firewall applier does both halves of its work whatever happens
  to the first: it always asks the DLL to delete the container's rule (unless the name is
  not a valid string), and it succeeds exactly when both the ports were released and the
  rule was deleted.
\<close>

theorem Fw_Cleanup_both:
  assumes "CHR 0x00 \<notin> set (fa_containerId a)" and "Fw_Cleanup a w = (r, w')"
  shows "Win (WFwDeleteRule (fa_containerId a)) \<in> set (hist w')
     \<and> (r = Ok () \<longleftrightarrow> (\<exists>w1. ReleaseAllPorts (fa_portAllocator a) (fa_containerId a) w = (Ok (), w1)
                           \<and> DeleteRule (fa_containerId a) w1 = (Ok (), w')))"
proof -
  obtain r1 w1 where rel: "ReleaseAllPorts (fa_portAllocator a) (fa_containerId a) w = (r1, w1)"
    by (cases "ReleaseAllPorts (fa_portAllocator a) (fa_containerId a) w")
  obtain r2 w2 where del: "DeleteRule (fa_containerId a) w1 = (r2, w2)"
    by (cases "DeleteRule (fa_containerId a) w1")
  have np: "r1 \<noteq> Panic s" "r2 \<noteq> Panic s" for s
    using no_panicD [OF no_panic_ReleaseAllPorts] no_panicD [OF no_panic_firewall(2)] rel del by blast+
  have "hist w2 = hist w1 @ [Win (WFwDeleteRule (fa_containerId a))]"
    using del assms(1) by (auto simp: DeleteRule_def UTF16PtrFromString_def dll_call_def query_def bind_def
        split: prod.splits if_splits)
  moreover have "w' = w2 \<and> (r = Ok () \<longleftrightarrow> r1 = Ok () \<and> r2 = Ok ())"
    using assms(2) rel del np by (cases r1; cases r2) (auto simp: Fw_Cleanup_def bind_def attempt_def)
  ultimately show ?thesis
    using rel del by auto
qed

theorem Fw_Cleanup_both_witness:
  "let w = quiet_world\<lparr>w_env := torn_env\<rparr>; a = NewFwApplier (NewRunner ''c'' 10) ''c'' winc_ports
   in Win (WFwDeleteRule ''c'') \<in> set (hist (snd (Fw_Cleanup a w))) \<and> fst (Fw_Cleanup a w) \<noteq> Ok ()"
proof -
  let ?a = "NewFwApplier (NewRunner ''c'' 10) ''c'' winc_ports" and ?w = "quiet_world\<lparr>w_env := torn_env\<rparr>"
  have "\<exists>e w1. ReleaseAllPorts winc_ports ''c'' ?w = (Err e, w1)"
    by (simp add: ReleaseAllPorts_def allocator_run winc_ports_def torn_env_def quiet_defs ReleaseAll_def)
  then show ?thesis
    using Fw_Cleanup_both [of ?a ?w] by (cases "Fw_Cleanup ?a ?w") (auto simp: NewFwApplier_def)
qed

end
