(* ===== verification/Winc_Config.thy ===== *)
theory Winc_Config
  imports Winc_World Go_Path
begin

text \<open>
  runtime/config/config.go: reading and validating a bundle's \<open>config.json\<close> and the
  description of a process. The decoders of the OCI structs, the bundle validator and the
  SemVer parser belong to libraries and are answered by the environment; everything else,
  in particular the checks winc adds and the order of the messages, is modelled.
\<close>

section \<open>\<open>utf8.Valid\<close>\<close>

definition is_cont :: "nat \<Rightarrow> bool" where
  "is_cont b \<longleftrightarrow> 0x80 \<le> b \<and> b \<le> 0xBF"

fun utf8_valid :: "nat list \<Rightarrow> bool" where
  "utf8_valid [] = True"
| "utf8_valid (a # xs) =
     (if a < 0x80 then utf8_valid xs
      else case xs of
        b # cs \<Rightarrow>
          if 0xC2 \<le> a \<and> a \<le> 0xDF then is_cont b \<and> utf8_valid cs
          else (case cs of
            c # ds \<Rightarrow>
              if 0xE0 \<le> a \<and> a \<le> 0xEF then
                (if a = 0xE0 then 0xA0 \<le> b \<and> b \<le> 0xBF
                 else if a = 0xED then 0x80 \<le> b \<and> b \<le> 0x9F else is_cont b)
                \<and> is_cont c \<and> utf8_valid ds
              else (case ds of
                d # es \<Rightarrow>
                  0xF0 \<le> a \<and> a \<le> 0xF4
                  \<and> (if a = 0xF0 then 0x90 \<le> b \<and> b \<le> 0xBF
                     else if a = 0xF4 then 0x80 \<le> b \<and> b \<le> 0x8F else is_cont b)
                  \<and> is_cont c \<and> is_cont d \<and> utf8_valid es
              | [] \<Rightarrow> False)
          | [] \<Rightarrow> False)
      | [] \<Rightarrow> False)"

definition utf8_Valid :: "string \<Rightarrow> bool" where
  "utf8_Valid s = utf8_valid (map of_char s)"

section \<open>Bundles\<close>

definition defaultCwd :: string where
  "defaultCwd = ''C:'' @ [bs]"

definition VersionMajor :: u64 where
  "VersionMajor = 1"

definition checkSemVer :: "string \<Rightarrow> string list op" where
  "checkSemVer version =
     bind (asks (\<lambda>e. o_SemverParse (e_lib e) version)) (\<lambda>parsed. ret (case parsed of
       Inl err \<Rightarrow> [quote version @ '' is not a valid SemVer: '' @ err]
     | Inr major \<Rightarrow>
         if major \<noteq> VersionMajor
         then [''validate currently only handles version '' @ format_uint VersionMajor
               @ ''.*, but the supplied configuration targets '' @ version]
         else []))"

definition check_messages :: "check_error option \<Rightarrow> string list" where
  "check_messages r = (case r of None \<Rightarrow> [] | Some (MultiError ms) \<Rightarrow> ms | Some (SingleError m) \<Rightarrow> [m])"

definition checkAll :: "Spec \<Rightarrow> string list op" where
  "checkAll spec =
     bind (asks (\<lambda>e. o_CheckPlatform (e_lib e) spec)) (\<lambda>platform.
     bind (asks (\<lambda>e. o_CheckMandatoryFields (e_lib e) spec)) (\<lambda>mandatory.
     bind (checkSemVer (s_Version spec)) (\<lambda>semver.
       ret (check_messages platform @ check_messages mandatory @ semver
            @ (case s_Root spec of
                 None \<Rightarrow> [[CHR 0x27] @ ''root'' @ [CHR 0x27] @ '' MUST be set when platform is '' @ [CHR 0x60] @ ''windows'' @ [CHR 0x60]]
               | Some path \<Rightarrow> if path = [] then [[CHR 0x27] @ ''Spec.Root.Path'' @ [CHR 0x27] @ '' should not be empty.''] else [])))))"

definition ValidateBundle :: "string \<Rightarrow> Spec op" where
  "ValidateBundle bundlePath =
     bind (attempt (Stat bundlePath)) (\<lambda>st. case st of
       Inl _ \<Rightarrow> throw (ConfigError (MissingBundleError bundlePath))
     | Inr _ \<Rightarrow>
     bind (attempt (ReadFile (Join [bundlePath, SpecConfig]))) (\<lambda>rd. case rd of
       Inl _ \<Rightarrow> throw (ConfigError (MissingBundleConfigError bundlePath))
     | Inr content \<Rightarrow>
       if \<not> utf8_Valid content then throw (ConfigError (BundleConfigInvalidEncodingError bundlePath))
       else
     bind (asks (\<lambda>e. o_UnmarshalSpec (e_lib e) content)) (\<lambda>un. case un of
       Inl err \<Rightarrow> throw (ConfigError (BundleConfigInvalidJSONError bundlePath err))
     | Inr spec \<Rightarrow>
     bind (asks (\<lambda>e. o_NewValidator (e_lib e) spec bundlePath)) (\<lambda>validator. case validator of
       Inl err \<Rightarrow> throw (ConfigError (BundleConfigValidationError bundlePath
                     [''could not create bundle validator: '' @ Error err]))
     | Inr _ \<Rightarrow>
     bind (checkAll spec) (\<lambda>msgs.
       if length msgs \<noteq> 0 then throw (ConfigError (BundleConfigValidationError bundlePath msgs))
       else ret spec)))))"

section \<open>Processes\<close>

definition envValid :: "string \<Rightarrow> bool" where
  "envValid env \<longleftrightarrow> 2 \<le> length (split_on (CHR ''='') env)"

definition toWindowsPath :: "string \<Rightarrow> string" where
  "toWindowsPath input =
     (let input' = (if VolumeName input = [] then Join [''C:'', input] else input) in Clean input')"

definition apply_overrides :: "SpecProcess option \<Rightarrow> SpecProcess \<Rightarrow> SpecProcess" where
  "apply_overrides overrides spec =
     (case overrides of
        None \<Rightarrow> spec
      | Some ov \<Rightarrow>
          \<lparr>sp_Args = (if 0 < length (sp_Args ov) then sp_Args ov else sp_Args spec),
           sp_Cwd = (if sp_Cwd ov \<noteq> [] then sp_Cwd ov else sp_Cwd spec),
           sp_Env = (if 0 < length (sp_Env ov) then sp_Env ov else sp_Env spec),
           sp_Username = (if sp_Username ov \<noteq> [] then sp_Username ov else sp_Username spec)\<rparr>)"

definition process_messages :: "SpecProcess \<Rightarrow> string list" where
  "process_messages spec =
     (if \<not> IsAbs (sp_Cwd spec) then [''cwd '' @ quote (sp_Cwd spec) @ '' is not an absolute path''] else [])
     @ (if length (sp_Args spec) = 0 then [''args must not be empty''] else [])
     @ map (\<lambda>env. ''env '' @ quote env @ '' should be in the form of '' @ [CHR 0x27] @ ''key=value'' @ [CHR 0x27] @ ''.'')
         (filter (\<lambda>env. \<not> envValid env) (sp_Env spec))"

definition ValidateProcess :: "string \<Rightarrow> SpecProcess option \<Rightarrow> SpecProcess op" where
  "ValidateProcess processConfig overrides =
     bind (if processConfig = [] then ret \<lparr>sp_Args = [], sp_Cwd = defaultCwd, sp_Env = [], sp_Username = []\<rparr>
           else
             bind (attempt (ReadFile processConfig)) (\<lambda>rd. case rd of
               Inl _ \<Rightarrow> throw (ConfigError (MissingProcessConfigError processConfig))
             | Inr content \<Rightarrow>
                 if \<not> utf8_Valid content then throw (ConfigError (ProcessConfigInvalidEncodingError processConfig))
                 else bind (asks (\<lambda>e. o_UnmarshalProcess (e_lib e) content)) (\<lambda>un. case un of
                   Inl err \<Rightarrow> throw (ConfigError (ProcessConfigInvalidJSONError processConfig err))
                 | Inr spec \<Rightarrow> ret spec))) (\<lambda>spec0.
     let spec1 = apply_overrides overrides spec0;
         spec = spec1\<lparr>sp_Cwd := toWindowsPath (sp_Cwd spec1)\<rparr>;
         msgs = process_messages spec
     in if 0 < length msgs then throw (ConfigError (ProcessConfigValidationError msgs)) else ret spec)"

section \<open>What the checks leave alone\<close>

lemma frame_config [frame_intros]:
  assumes "\<And>c w. f (log_event (Os c) w) = f w"
  shows "frame f (ValidateBundle b)" "frame f (ValidateProcess pc ov)"
  unfolding ValidateBundle_def ValidateProcess_def checkAll_def checkSemVer_def Let_def
  by (intro frame_intros assms)+

lemma no_panic_config [safe_intros]: "no_panic (ValidateBundle b)" "no_panic (ValidateProcess pc ov)"
  unfolding ValidateBundle_def ValidateProcess_def checkAll_def checkSemVer_def Let_def
  by (intro safe_intros)+

lemma logs_config [logs_intros]:
  assumes "\<And>p. P (Os (OStat p))" "\<And>p. P (Os (OReadFile p))"
  shows "logs P (ValidateBundle b)" "logs P (ValidateProcess pc ov)"
  unfolding ValidateBundle_def ValidateProcess_def checkAll_def checkSemVer_def Let_def
  by (intro logs_intros assms)+

section \<open>Properties\<close>

lemma envValid_iff: "envValid env \<longleftrightarrow> CHR ''='' \<in> set env"
proof -
  have "filter (\<lambda>x. x = CHR ''='') env \<noteq> [] \<longleftrightarrow> CHR ''='' \<in> set env"
    by (simp add: filter_empty_conv)
  then show ?thesis
    by (simp add: envValid_def length_split_on Suc_le_eq)
qed

lemma process_messages_empty:
  "process_messages spec = [] \<longleftrightarrow>
     IsAbs (sp_Cwd spec) \<and> sp_Args spec \<noteq> [] \<and> (\<forall>env \<in> set (sp_Env spec). CHR ''='' \<in> set env)"
  by (auto simp: process_messages_def envValid_iff filter_empty_conv)

text \<open>Cleaning a path that does not start with a separator does not make it start with one.\<close>

definition unrooted :: "string \<Rightarrow> bool" where
  "unrooted s \<longleftrightarrow> s = [] \<or> \<not> is_sep (hd s)"

lemma unrooted_take: "unrooted s \<Longrightarrow> unrooted (take k s)"
  by (cases s; cases k) (auto simp: unrooted_def)

lemma unrooted_append: "unrooted s \<Longrightarrow> s = [] \<longrightarrow> unrooted t \<Longrightarrow> unrooted (s @ t)"
  by (cases s) (auto simp: unrooted_def)

lemma clean_elem_unrooted:
  assumes "unrooted (cl_out st)" "list_all (\<lambda>c. \<not> is_sep c) e"
  shows "unrooted (cl_out (clean_elem False path e st))"
proof -
  have e: "unrooted e" "unrooted ''..''"
    using assms(2) by (cases e; simp add: unrooted_def is_sep_def)+
  have app: "unrooted (cl_out (clean_append path ((if 0 < length (cl_out st) then [bs] else []) @ t) st))"
    if "unrooted t" for t
    using assms(1) that unrooted_append [of "cl_out st"] by (cases "cl_out st = []") (simp_all add: clean_append_def)
  have bk: "unrooted (take k (cl_out st))" for k
    using assms(1) by (rule unrooted_take)
  consider "e = [] \<or> e = ''.''" | "e = ''..''" | "e \<noteq> []" "e \<noteq> ''.''" "e \<noteq> ''..''"
    by blast
  then show ?thesis
  proof cases
    case 2
    then show ?thesis
      using app [OF e(2)] bk by (simp add: clean_elem_def Let_def del: back_up.simps)
  next
    case 3
    then show ?thesis
      using app [OF e(1)] by (simp add: clean_elem_def Let_def)
  qed (use assms(1) in \<open>simp add: clean_elem_def\<close>)
qed

lemma clean_fold_unrooted:
  "unrooted (cl_out st) \<Longrightarrow> \<forall>e \<in> set es. list_all (\<lambda>c. \<not> is_sep c) e \<Longrightarrow>
   unrooted (cl_out (fold (clean_elem False path) es st))"
  by (induction es arbitrary: st) (auto intro: clean_elem_unrooted)

lemma elements_no_sep: "e \<in> set (elements s) \<Longrightarrow> list_all (\<lambda>c. \<not> is_sep c) e"
proof -
  assume e: "e \<in> set (elements s)"
  have "set e \<subseteq> set (FromSlash s)"
  proof -
    have "set e \<subseteq> set (join [bs] (split_on bs t))" if "e \<in> set (split_on bs t)" for t
    proof -
      have "set x \<subseteq> set (join [bs] xs)" if "x \<in> set xs" for x and xs :: "string list"
        using that by (induction xs rule: join.induct [of _ "[bs]"]) auto
      then show ?thesis using that by blast
    qed
    then show ?thesis
      using e unfolding elements_def join_split_on by blast
  qed
  moreover have "CHR ''/'' \<notin> set (FromSlash s)"
    by (auto simp: FromSlash_def)
  moreover have "bs \<notin> set e"
    using e set_split_on_pieces unfolding elements_def by blast
  ultimately show ?thesis
    by (auto simp: list_all_iff is_sep_def)
qed

lemma Clean_drive_unrooted:
  assumes "unrooted p" "p \<noteq> []"
  shows "\<exists>out. Clean (d # CHR '':'' # p) = FromSlash [d, CHR '':''] @ out \<and> unrooted out"
proof -
  let ?st = "fold (clean_elem False p) (elements p) \<lparr>cl_out = [], cl_dotdot = 0, cl_changed = False\<rparr>"
  let ?out = "cl_out (if cl_out ?st = [] then clean_append p ''.'' ?st else ?st)"
  have "unrooted (cl_out ?st)"
    by (rule clean_fold_unrooted) (auto simp: unrooted_def dest: elements_no_sep)
  then have "unrooted ?out"
    by (auto simp: clean_append_def unrooted_def is_sep_def)
  moreover have "Clean (d # CHR '':'' # p) = FromSlash ([d, CHR '':''] @ ?out)"
    using assms by (simp add: Clean_def Let_def unrooted_def post_clean_def)
  moreover have "unrooted (FromSlash s)" if "unrooted s" for s
    using that by (cases s) (auto simp: unrooted_def FromSlash_def is_sep_def)
  ultimately show ?thesis
    by (auto simp: FromSlash_def)
qed

text \<open>Cleaning a path that starts with a separator keeps it so.\<close>

definition rooted_state :: "clean_state \<Rightarrow> bool" where
  "rooted_state st \<longleftrightarrow> cl_dotdot st = 1 \<and> cl_out st \<noteq> [] \<and> is_sep (hd (cl_out st))"

lemma back_up_least: "dotdot \<le> w \<Longrightarrow> dotdot \<le> back_up dotdot out w"
proof (induction dotdot out w rule: back_up.induct)
  case (1 dotdot out w)
  show ?case
  proof (cases "dotdot < w \<and> \<not> is_sep (out ! w)")
    case True
    then have "dotdot \<le> back_up dotdot out (w - 1)"
      by (intro "1.IH") auto
    then show ?thesis
      by (subst back_up.simps) (simp only: True if_True simp_thms)
  next
    case False
    then show ?thesis
      using "1.prems" by (subst back_up.simps) (simp only: if_False)
  qed
qed

lemma clean_elem_rooted:
  assumes "rooted_state st"
  shows "rooted_state (clean_elem True path e st)"
proof -
  have "take k (cl_out st) \<noteq> [] \<and> hd (take k (cl_out st)) = hd (cl_out st)" if "1 \<le> k" for k
    using assms that by (cases "cl_out st"; cases k) (auto simp: rooted_state_def)
  moreover have "1 \<le> back_up 1 (cl_out st) (length (cl_out st) - 1)" if "1 < length (cl_out st)"
    using that by (intro back_up_least) simp
  ultimately show ?thesis
    using assms by (auto simp: clean_elem_def Let_def clean_append_def rooted_state_def simp del: back_up.simps)
qed

lemma clean_fold_keeps_root: "rooted_state st \<Longrightarrow> rooted_state (fold (clean_elem True path) es st)"
  by (induction es arbitrary: st) (auto intro: clean_elem_rooted)

lemma Clean_drive_rooted:
  assumes "p \<noteq> []" "is_sep (hd p)"
  shows "\<exists>out. Clean (d # CHR '':'' # p) = FromSlash [d, CHR '':''] @ bs # out"
proof -
  let ?st = "fold (clean_elem True p) (elements p)
      ((clean_append p [bs] \<lparr>cl_out = [], cl_dotdot = 0, cl_changed = False\<rparr>)\<lparr>cl_dotdot := 1\<rparr>)"
  have st: "rooted_state ?st"
    by (intro clean_fold_keeps_root) (simp add: rooted_state_def clean_append_def)
  then have "Clean (d # CHR '':'' # p) = FromSlash ([d, CHR '':''] @ cl_out ?st)"
    using assms by (simp add: Clean_def Let_def post_clean_def rooted_state_def)
  moreover have "\<exists>out. FromSlash (cl_out ?st) = bs # out"
    using st by (cases "cl_out ?st") (auto simp: rooted_state_def FromSlash_def is_sep_def)
  ultimately show ?thesis
    by (auto simp: FromSlash_def)
qed

text \<open>
  A working directory that is on a volume: it starts with a letter and a colon, or with two
  separators. It is rooted when it starts with a separator, after the drive if it has one.
\<close>

definition on_volume :: "string \<Rightarrow> bool" where
  "on_volume p \<longleftrightarrow> 2 \<le> length p \<and> (p ! 1 = CHR '':'' \<or> is_sep (p ! 0) \<and> is_sep (p ! 1))"

definition rooted_cwd :: "string \<Rightarrow> bool" where
  "rooted_cwd p \<longleftrightarrow>
     (if 2 \<le> length p \<and> p ! 1 = CHR '':'' then 2 < length p \<and> is_sep (p ! 2) else p \<noteq> [] \<and> is_sep (hd p))"

lemma two_chars:
  assumes "2 \<le> length p"
  obtains a b q where "p = a # b # q"
  using assms by (cases p; cases "tl p") auto

lemma on_volumeE:
  assumes "on_volume p"
  obtains a b q where "p = a # b # q"
  using assms two_chars unfolding on_volume_def by metis

lemma IsAbs_drive: "IsAbs (d # CHR '':'' # q) \<longleftrightarrow> is_sep d \<and> is_sep CHR '':'' \<or> q \<noteq> [] \<and> is_sep (hd q)"
  by (simp add: IsAbs_def)

lemma not_sep_colon [simp]: "\<not> is_sep (CHR '':'')"
  by (simp add: is_sep_def)

lemma IsAbs_Clean_drive:
  "IsAbs (Clean (d # CHR '':'' # q)) \<longleftrightarrow> q \<noteq> [] \<and> is_sep (hd q)"
proof (cases "q = []")
  case True
  then show ?thesis
    by (simp add: Clean_def Let_def IsAbs_drive is_sep_def)
next
  case False
  show ?thesis
  proof (cases "is_sep (hd q)")
    case True
    then obtain out where "Clean (d # CHR '':'' # q) = FromSlash [d, CHR '':''] @ bs # out"
      using Clean_drive_rooted False by blast
    then show ?thesis
      using True False by (simp add: FromSlash_def IsAbs_drive)
  next
    case no: False
    then obtain out where "Clean (d # CHR '':'' # q) = FromSlash [d, CHR '':''] @ out" "unrooted out"
      using Clean_drive_unrooted [of q d] False by (auto simp: unrooted_def)
    then show ?thesis
      using no by (auto simp: FromSlash_def IsAbs_drive unrooted_def)
  qed
qed

lemma volume_two_seps:
  assumes "is_sep a" "is_sep b"
  shows "2 \<le> volumeNameLen (a # b # q)"
  using assms by (auto simp: volumeNameLen_def uncLen_def Let_def is_sep_def)

lemma IsAbs_two_seps: "is_sep a \<Longrightarrow> is_sep b \<Longrightarrow> IsAbs (a # b # q)"
  using volume_two_seps [of a b q] by (auto simp: IsAbs_def Let_def)

lemma FromSlash_seps: "is_sep a \<Longrightarrow> is_sep b \<Longrightarrow> \<exists>q'. FromSlash (a # b # q) = bs # bs # q'"
  by (auto simp: FromSlash_def is_sep_def)

lemma IsAbs_Clean_seps:
  assumes "is_sep a" "is_sep b"
  shows "IsAbs (Clean (a # b # q))"
proof -
  have "\<exists>s. Clean (a # b # q) = FromSlash (a # b # s)"
  proof -
    obtain n where n: "volumeNameLen (a # b # q) = Suc (Suc n)"
      using volume_two_seps [OF assms] by (metis add_2_eq_Suc le_Suc_ex)
    then show ?thesis
      using assms by (auto simp: Clean_def Let_def)
  qed
  then obtain s q' where "Clean (a # b # q) = bs # bs # q'"
    using FromSlash_seps [OF assms] by metis
  then show ?thesis
    by (simp add: IsAbs_two_seps)
qed

lemma prefix_second: "pathHasPrefixFold (a # b # q) (bs # bs # zs) \<Longrightarrow> is_sep b"
  by (simp add: pathHasPrefixFold_def)

lemma prefix_short: "length p < length zs \<Longrightarrow> \<not> pathHasPrefixFold p zs"
  by (simp add: pathHasPrefixFold_def)

lemma volume_none:
  assumes "\<not> on_volume p" "\<not> pathHasPrefixFold p [bs, CHR ''?'', CHR ''?'']"
  shows "volumeNameLen p = 0"
proof (cases "2 \<le> length p")
  case True
  then obtain a b q where p: "p = a # b # q"
    by (rule two_chars)
  have b: "b \<noteq> CHR '':''" "is_sep a \<Longrightarrow> \<not> is_sep b"
    using assms(1) by (simp_all add: p on_volume_def)
  show ?thesis
  proof (cases "is_sep a")
    case True
    then have no: "\<not> pathHasPrefixFold p (bs # bs # zs)" for zs
      using b(2) prefix_second unfolding p by blast
    show ?thesis
      using True b no assms(2) by (simp add: volumeNameLen_def) (simp add: p)
  next
    case False
    then show ?thesis
      using b(1) by (simp add: p volumeNameLen_def)
  qed
next
  case False
  then show ?thesis
    by (simp add: volumeNameLen_def prefix_short)
qed

lemma toWindowsPath_volume:
  assumes "\<not> pathHasPrefixFold p [bs, CHR ''?'', CHR ''?'']"
  shows "toWindowsPath p = Clean (if on_volume p then p else Join [''C:'', p])"
proof -
  have "VolumeName p = [] \<longleftrightarrow> \<not> on_volume p"
  proof
    assume "\<not> on_volume p"
    then show "VolumeName p = []"
      using volume_none [OF _ assms] by (simp add: VolumeName_def FromSlash_def)
  next
    assume v: "VolumeName p = []"
    show "\<not> on_volume p"
    proof
      assume on: "on_volume p"
      obtain a b q where p: "p = a # b # q"
        using on by (rule on_volumeE)
      have "0 < volumeNameLen p"
        using on volume_two_seps [of a b q] unfolding p on_volume_def by auto
      then show False
        using v by (simp add: p VolumeName_def FromSlash_def)
    qed
  qed
  then show ?thesis
    by (simp add: toWindowsPath_def)
qed

lemma rooted_cwd_drive [simp]: "rooted_cwd (d # CHR '':'' # q) \<longleftrightarrow> q \<noteq> [] \<and> is_sep (hd q)"
  by (cases q) (simp_all add: rooted_cwd_def)

text \<open>Putting a path on drive C keeps whether it starts with a separator.\<close>

lemma Join_drive:
  "\<exists>out. Join [''C:'', p] = ''C:'' @ out \<and> (out \<noteq> [] \<and> is_sep (hd out) \<longleftrightarrow> p \<noteq> [] \<and> is_sep (hd p))"
proof (cases "p = []")
  case True
  have "Join [''C:'', []] = ''C:'' @ ''.''"
    by code_simp
  then show ?thesis
    by (simp add: True is_sep_def)
next
  case ne: False
  then have join: "Join [''C:'', p] = Clean (CHR ''C'' # CHR '':'' # p)"
    by (simp add: Join_def Let_def is_sep_def)
  show ?thesis
  proof (cases "is_sep (hd p)")
    case True
    then obtain out where "Clean (CHR ''C'' # CHR '':'' # p) = ''C:'' @ bs # out"
      using Clean_drive_rooted [OF ne, of "CHR ''C''"] by (auto simp: FromSlash_def)
    then show ?thesis
      using True ne unfolding join by (intro exI [of _ "bs # out"]) simp
  next
    case unr: False
    then obtain out where "Clean (CHR ''C'' # CHR '':'' # p) = ''C:'' @ out" "unrooted out"
      using Clean_drive_unrooted [of p "CHR ''C''"] ne by (auto simp: unrooted_def FromSlash_def)
    then show ?thesis
      using unr unfolding join unrooted_def by blast
  qed
qed

lemma toWindowsPath_abs:
  assumes "\<not> pathHasPrefixFold p [bs, CHR ''?'', CHR ''?'']"
  shows "IsAbs (toWindowsPath p) \<longleftrightarrow> rooted_cwd p"
proof (cases "on_volume p")
  case True
  then have win: "toWindowsPath p = Clean p"
    using toWindowsPath_volume [OF assms] by simp
  obtain a b q where p: "p = a # b # q"
    using True by (rule on_volumeE)
  show ?thesis
  proof (cases "b = CHR '':''")
    case True
    then show ?thesis
      unfolding win by (simp only: p True IsAbs_Clean_drive rooted_cwd_drive)
  next
    case False
    then have "is_sep a" "is_sep b"
      using \<open>on_volume p\<close> by (simp_all add: p on_volume_def)
    then have "IsAbs (Clean p)" "rooted_cwd p"
      using IsAbs_Clean_seps False by (simp_all add: p rooted_cwd_def)
    then show ?thesis
      unfolding win by simp
  qed
next
  case False
  then have win: "toWindowsPath p = Clean (Join [''C:'', p])" and colon: "\<not> (2 \<le> length p \<and> p ! 1 = CHR '':'')"
    using toWindowsPath_volume [OF assms] by (simp, auto simp: on_volume_def)
  then have root: "rooted_cwd p \<longleftrightarrow> p \<noteq> [] \<and> is_sep (hd p)"
    unfolding rooted_cwd_def by (simp only: if_False)
  obtain out where "Join [''C:'', p] = ''C:'' @ out" "out \<noteq> [] \<and> is_sep (hd out) \<longleftrightarrow> p \<noteq> [] \<and> is_sep (hd p)"
    using Join_drive by blast
  then show ?thesis
    unfolding win root by (simp only: append_Cons append_Nil IsAbs_Clean_drive)
qed

text \<open>What the command line asks for, where it does, and the default otherwise.\<close>

definition asked :: "(SpecProcess \<Rightarrow> 'a list) \<Rightarrow> SpecProcess option \<Rightarrow> SpecProcess \<Rightarrow> 'a list" where
  "asked field overrides spec = (case map_option field overrides of Some (x # xs) \<Rightarrow> x # xs | _ \<Rightarrow> field spec)"

text \<open>The process that \<open>ValidateProcess\<close> starts from, and the world in which it has read it.\<close>

definition process_read :: "string \<Rightarrow> world \<Rightarrow> SpecProcess \<Rightarrow> world \<Rightarrow> bool" where
  "process_read file w spec w1 \<longleftrightarrow>
     (if file = [] then spec = \<lparr>sp_Args = [], sp_Cwd = ''C:'' @ [bs], sp_Env = [], sp_Username = []\<rparr> \<and> w1 = w
      else \<exists>content. ReadFile file w = (Ok content, w1) \<and> utf8_Valid content
             \<and> o_UnmarshalProcess (e_lib (w_env w1)) content = Inr spec)"

lemma apply_overrides_asked:
  "sp_Args (apply_overrides ov spec) = asked sp_Args ov spec" "sp_Env (apply_overrides ov spec) = asked sp_Env ov spec"
  "sp_Cwd (apply_overrides ov spec) = asked sp_Cwd ov spec" "sp_Username (apply_overrides ov spec) = asked sp_Username ov spec"
  by (auto simp: apply_overrides_def asked_def split: option.split list.split)

text \<open>
  C33: which processes are accepted. When the process file is absent, or can be read and
  decoded, the process is the one of the file (or one that has only the working directory
  C:\) with the arguments, environment, user and working directory replaced that the command
  line gives. It is accepted exactly when it has arguments, every environment entry
  contains an equals sign, and its working directory starts with a separator, after the
  drive if it names one; the directory it then runs in is absolute, and on drive C when
  none was named. Otherwise a validation error with at least one message is returned. Device
  paths that start with two question marks after a separator are left out.
\<close>

theorem ValidateProcess_spec:
  assumes "process_read file w spec w1"
    and "\<not> pathHasPrefixFold (asked sp_Cwd ov spec) [bs, CHR ''?'', CHR ''?'']"
  shows "if asked sp_Args ov spec \<noteq> [] \<and> (\<forall>env \<in> set (asked sp_Env ov spec). CHR ''='' \<in> set env)
        \<and> rooted_cwd (asked sp_Cwd ov spec)
      then \<exists>p. ValidateProcess file ov w = (Ok p, w1) \<and> sp_Args p = asked sp_Args ov spec
        \<and> sp_Env p = asked sp_Env ov spec \<and> sp_Username p = asked sp_Username ov spec \<and> IsAbs (sp_Cwd p)
        \<and> sp_Cwd p = Clean (if on_volume (asked sp_Cwd ov spec) then asked sp_Cwd ov spec
                           else Join [''C:'', asked sp_Cwd ov spec])
      else \<exists>ms. ms \<noteq> [] \<and> ValidateProcess file ov w = (Err (ConfigError (ProcessConfigValidationError ms)), w1)"
proof -
  let ?p = "(apply_overrides ov spec)\<lparr>sp_Cwd := toWindowsPath (asked sp_Cwd ov spec)\<rparr>"
  have "ValidateProcess file ov w = (if process_messages ?p = [] then Ok ?p
      else Err (ConfigError (ProcessConfigValidationError (process_messages ?p))), w1)"
    using assms(1)
    by (auto simp: process_read_def ValidateProcess_def Let_def bind_def attempt_def asks_def defaultCwd_def
        apply_overrides_asked split: if_splits)
  moreover have "process_messages ?p = [] \<longleftrightarrow> asked sp_Args ov spec \<noteq> []
      \<and> (\<forall>env \<in> set (asked sp_Env ov spec). CHR ''='' \<in> set env) \<and> rooted_cwd (asked sp_Cwd ov spec)"
    using toWindowsPath_abs [OF assms(2)] by (auto simp: process_messages_empty apply_overrides_asked)
  ultimately show ?thesis
    using toWindowsPath_abs [OF assms(2)] toWindowsPath_volume [OF assms(2)] by (simp add: apply_overrides_asked)
qed

theorem ValidateProcess_spec_witness:
  "let ov = \<lparr>sp_Args = [''app''], sp_Cwd = ''/work'', sp_Env = [''a=b''], sp_Username = []\<rparr>
   in \<exists>p. ValidateProcess [] (Some ov) quiet_world = (Ok p, quiet_world) \<and> sp_Args p = [''app'']
      \<and> sp_Cwd p = ''C:'' @ [bs] @ ''work''"
proof -
  let ?ov = "\<lparr>sp_Args = [''app''], sp_Cwd = ''/work'', sp_Env = [''a=b''], sp_Username = []\<rparr>"
    and ?base = "\<lparr>sp_Args = [], sp_Cwd = ''C:'' @ [bs], sp_Env = [], sp_Username = []\<rparr>"
  have "process_read [] quiet_world ?base quiet_world"
    by (simp add: process_read_def)
  moreover have "\<not> pathHasPrefixFold (asked sp_Cwd (Some ?ov) ?base) [bs, CHR ''?'', CHR ''?'']" "rooted_cwd ''/work''"
    "Clean (if on_volume ''/work'' then ''/work'' else Join [''C:'', ''/work'']) = ''C:'' @ [bs] @ ''work''"
    by (simp add: asked_def) code_simp+
  ultimately show ?thesis
    using ValidateProcess_spec [of "[]" quiet_world ?base quiet_world "Some ?ov"] by (auto simp: asked_def)
qed

text \<open>
  A working directory without a volume that does not start with a separator is always
  rejected: it is put on drive C as a relative path, never silently taken from its root.
\<close>

theorem relative_cwd_rejected:
  assumes "sp_Cwd ov \<noteq> []" and "volumeNameLen (sp_Cwd ov) = 0" and "\<not> is_sep (hd (sp_Cwd ov))"
  shows "\<exists>ms. ValidateProcess [] (Some ov) w = (Err (ConfigError (ProcessConfigValidationError ms)), w)"
proof -
  let ?cwd = "sp_Cwd ov"
  have "Join [''C:'', ?cwd] = Clean (''C:'' @ ?cwd)"
    using assms(1) by (simp add: Join_def Let_def is_sep_def)
  then obtain out where out: "Join [''C:'', ?cwd] = ''C:'' @ out" "unrooted out"
    using Clean_drive_unrooted [of ?cwd "CHR ''C''"] assms by (auto simp: unrooted_def FromSlash_def)
  have "\<not> IsAbs (Clean (''C:'' @ out))"
  proof (cases "out = []")
    case True
    then show ?thesis by (simp add: Clean_def Let_def is_sep_def IsAbs_def)
  next
    case False
    then obtain out' where "Clean (''C:'' @ out) = ''C:'' @ out'" "unrooted out'"
      using Clean_drive_unrooted [of out "CHR ''C''"] out(2) by (auto simp: FromSlash_def)
    then show ?thesis by (auto simp: IsAbs_def Let_def unrooted_def is_sep_def)
  qed
  then have "\<not> IsAbs (toWindowsPath ?cwd)"
    using assms(2) out(1) by (simp add: toWindowsPath_def VolumeName_def FromSlash_def)
  then show ?thesis
    using assms(1) process_messages_empty by (auto simp: ValidateProcess_def Let_def apply_overrides_def)
qed

theorem relative_cwd_rejected_witness:
  "\<exists>ms. ValidateProcess [] (Some \<lparr>sp_Args = [''app''], sp_Cwd = ''work'', sp_Env = [], sp_Username = []\<rparr>) quiet_world
     = (Err (ConfigError (ProcessConfigValidationError ms)), quiet_world)"
  by (rule relative_cwd_rejected) (simp_all add: volumeNameLen_def is_sep_def)

end
