(* ===== verification/Mount_Process.thy ===== *)
theory Mount_Process
  imports Hcs_Client Go_Path
begin

text \<open>
  runtime/mount/mounter.go, which mounts a container's volume under the directory of its
  process, and runtime/hcsprocess/process.go, which waits for an attached process. The
  copying of the standard streams and the handler of the interrupt signal run beside the
  call and do not change its result; their interleavings are in Process_Io.
\<close>

section \<open>Package mount\<close>

definition ensureTrailingBackslash :: "string \<Rightarrow> string" where
  "ensureTrailingBackslash s = (if \<not> has_suffix s [bs] then s @ [bs] else s)"

definition mountPath :: "int \<Rightarrow> string" where
  "mountPath pid = Join [''c:'' @ [bs], ''proc'', itoa pid]"

definition rootPath :: "int \<Rightarrow> string" where
  "rootPath pid = Join [mountPath pid, ''root'']"

definition setPoint :: "string \<Rightarrow> string \<Rightarrow> unit op" where
  "setPoint mountPoint volume =
     bind (win_status (WFindProc ''SetVolumeMountPointW'')) (\<lambda>_.
     bind (UTF16PtrFromString (ensureTrailingBackslash mountPoint)) (\<lambda>mp.
     bind (UTF16PtrFromString (ensureTrailingBackslash volume)) (\<lambda>vol.
     bind (dll_call (WSetVolumeMountPoint mp vol)) (\<lambda>(r0, err).
       if low32 r0 = 0 then throw (Errorf (''error setting mount point: '' @ Error err)) else ret ()))))"

definition deletePoint :: "string \<Rightarrow> unit op" where
  "deletePoint mountPoint =
     bind (win_status (WFindProc ''DeleteVolumeMountPointW'')) (\<lambda>_.
     bind (UTF16PtrFromString (ensureTrailingBackslash mountPoint)) (\<lambda>mp.
     bind (dll_call (WDeleteVolumeMountPoint mp)) (\<lambda>(r0, err).
       if low32 r0 = 0 then throw (Errorf (''error deleting mount point: '' @ Error err)) else ret ())))"

definition Mounter_Mount :: "int \<Rightarrow> string \<Rightarrow> unit op" where
  "Mounter_Mount pid volumePath =
     bind (attempt (Stat (mountPath pid))) (\<lambda>st.
       if \<not> (case st of Inl err \<Rightarrow> IsNotExist err | Inr _ \<Rightarrow> False)
       then throw (Errorf (''mountdir exists: '' @ mountPath pid))
       else
         bind (MkdirAll (rootPath pid)) (\<lambda>_. setPoint (rootPath pid) volumePath))"

definition Mounter_Unmount :: "int \<Rightarrow> unit op" where
  "Mounter_Unmount pid =
     deferring (RemoveAll (mountPath pid))
       (bind (deletePoint (rootPath pid)) (\<lambda>_. RemoveAll (mountPath pid)))"

section \<open>Package hcsprocess\<close>

definition WritePIDFile :: "Process \<Rightarrow> string \<Rightarrow> unit op" where
  "WritePIDFile p pidFile = (if pidFile \<noteq> [] then WriteFile pidFile (itoa (p_Pid p)) else ret ())"

text \<open>Without a reader to attach, the standard input of the process is closed at once.\<close>

definition attach_stdin :: "Process \<Rightarrow> bool \<Rightarrow> unit op" where
  "attach_stdin p attached = (if attached then ret () else ignore (Process_CloseStdin p))"

definition await_exit :: "Process \<Rightarrow> int op" where
  "await_exit p = bind (Process_Wait p) (\<lambda>_. Process_ExitCode p)"

text \<open>
  The exit code of the process; the code that accompanies an error is -1 and is not looked
  at by any caller.
\<close>

definition AttachIO :: "Process \<Rightarrow> bool \<Rightarrow> int op" where
  "AttachIO p attachStdin =
     bind (Process_Stdio p) (\<lambda>_. bind (attach_stdin p attachStdin) (\<lambda>_. await_exit p))"

text \<open>
  \<open>SetInterrupt\<close> registers for the interrupt signal and starts a goroutine that kills the
  process when it arrives. The environment says whether it arrives while the process is
  attached; the kill then stands before the wait that it ends. Process_Io has every order.
\<close>

definition SetInterrupt :: "Process \<Rightarrow> unit op" where
  "SetInterrupt p =
     bind (query (Os OSignalNotify) (\<lambda>e h. o_Interrupted (e_os e) h)) (\<lambda>arrived.
       if arrived then ignore (Process_Kill p) else ret ())"

section \<open>What the operations leave alone\<close>

lemma frame_points [frame_intros]:
  assumes "\<And>c w. f (log_event (Win c) w) = f w"
  shows "frame f (setPoint mp vol)" "frame f (deletePoint mp)"
  unfolding setPoint_def deletePoint_def by (intro frame_intros assms)+

lemma frame_attach [frame_intros]:
  assumes "\<And>c w. f (log_event (Hcs c) w) = f w"
  shows "frame f (AttachIO p b)"
  unfolding AttachIO_def attach_stdin_def await_exit_def by (intro frame_intros assms)

lemma frame_SetInterrupt [frame_intros]:
  assumes "\<And>ev w. f (log_event ev w) = f w"
  shows "frame f (SetInterrupt p)"
  unfolding SetInterrupt_def by (intro frame_intros assms)

lemma env_mount [frame_intros]:
  "frame w_env (Mounter_Mount pid vol)" "frame w_env (Mounter_Unmount pid)" "frame w_env (WritePIDFile p f)"
  unfolding Mounter_Mount_def Mounter_Unmount_def WritePIDFile_def by (intro frame_intros log_event_simps)+

lemma files_Mount [frame_intros]: "frame files (Mounter_Mount pid vol)"
  unfolding Mounter_Mount_def by (intro frame_intros log_event_simps)

lemma no_panic_mount [safe_intros]:
  "no_panic (setPoint mp vol)" "no_panic (deletePoint mp)" "no_panic (Mounter_Mount pid v)"
  "no_panic (Mounter_Unmount pid)" "no_panic (WritePIDFile p f)" "no_panic (AttachIO p b)"
  unfolding setPoint_def deletePoint_def Mounter_Mount_def Mounter_Unmount_def WritePIDFile_def
    AttachIO_def attach_stdin_def await_exit_def
  by (intro safe_intros)+

section \<open>The mount directory\<close>

lemma plain_itoa: "plain (itoa pid)"
proof -
  have digits: "\<not> is_sep c \<and> c \<noteq> CHR ''.''" if "c \<in> set (dec n)" for c n
    using that all_digits_dec [of n] by (auto simp: all_digits_def list_all_iff is_digit_def is_sep_def)
  have "c \<in> set (itoa pid) \<Longrightarrow> \<not> is_sep c \<and> c \<noteq> CHR ''.''" for c
    using digits by (auto simp: itoa_def is_sep_def split: if_splits)
  moreover have "itoa pid \<noteq> []"
    by (simp add: itoa_def)
  ultimately show ?thesis
    unfolding plain_def list_all_iff by (metis list.set_intros(1))
qed

lemma mountPath_rooted: "mountPath pid = rooted_path (CHR ''c'') [''proc'', itoa pid]"
proof -
  have "join_loop [''c:'' @ [bs], ''proc'', itoa pid] [] = rooted_path (CHR ''c'') [''proc'', itoa pid]"
    by (simp add: rooted_path_def is_sep_def Let_def)
  moreover have "list_all plain [''proc'', itoa pid]"
    using plain_itoa by (simp add: plain_def is_sep_def)
  ultimately show ?thesis
    unfolding mountPath_def Join_def by (simp add: Let_def del: join_loop.simps)
qed

lemma last_itoa: "last (itoa pid) \<noteq> CHR '':''"
proof -
  have digit: "is_digit (last (dec n))" for n
    using all_digits_dec [of n] by (simp add: all_digits_def list_all_iff)
  have "last (itoa pid) = last (dec (nat (abs pid)))"
    by (simp add: itoa_def)
  moreover have "\<not> is_digit (CHR '':'')"
    by (simp add: is_digit_def)
  ultimately show ?thesis
    using digit by metis
qed

lemma rootPath_rooted: "rootPath pid = mountPath pid @ bs # ''root''"
proof -
  have "list_all plain [''proc'', itoa pid]" "plain ''root''"
    using plain_itoa by (simp_all add: plain_def is_sep_def)
  moreover have "last (rooted_path (CHR ''c'') [''proc'', itoa pid]) \<noteq> CHR '':''"
    using last_itoa plain_itoa [of pid] by (simp add: rooted_path_def plain_def)
  ultimately have "rootPath pid = rooted_path (CHR ''c'') ([''proc'', itoa pid] @ [''root''])"
    unfolding rootPath_def mountPath_rooted by (intro Join_rooted) simp_all
  then show ?thesis
    unfolding mountPath_rooted by (simp only: rooted_path_append)
qed

lemma under_mount: "under (mountPath pid) (rootPath pid)"
  by (simp add: under_def rootPath_rooted)

lemma Mount_Ok:
  assumes "Mounter_Mount pid vol w = (Ok (), w')"
  shows "dirs w' (mountPath pid)"
proof -
  obtain w1 w2 where mk: "MkdirAll (rootPath pid) w1 = (Ok (), w2)" and point: "setPoint (rootPath pid) vol w2 = (Ok (), w')"
    using assms unfolding Mounter_Mount_def by (auto elim!: bind_OkE split: if_splits)
  have "dirs w2 (mountPath pid)"
    using mk under_mount by (auto simp: MkdirAll_def os_op_def split: option.splits)
  then show ?thesis
    using frameD [OF frame_points(1) point, where f = dirs] by simp
qed

lemma Mount_refused:
  assumes "os_calm (w_env w)" "dirs w (mountPath pid)"
  shows "fst (Mounter_Mount pid vol w) = Err (Errorf (''mountdir exists: '' @ mountPath pid))"
  using assms by (simp add: Mounter_Mount_def Stat_def calm_os_op bind_def attempt_def)

lemma calm_RemoveAll:
  assumes "os_calm (w_env w)" "RemoveAll p w = (r, w')"
  shows "r = Ok ()" "files w' q = (if under p q then None else files w q)" "dirs w' q \<longleftrightarrow> \<not> under p q \<and> dirs w q"
  using assms by (auto simp: RemoveAll_def calm_os_op)

lemma calm_Unmount:
  assumes "os_calm (w_env w)" "Mounter_Unmount pid w = (r, w')"
  shows "files w' q = (if under (mountPath pid) q then None else files w q)"
    and "dirs w' q \<longleftrightarrow> \<not> under (mountPath pid) q \<and> dirs w q"
proof -
  obtain r1 w1 where body: "bind (deletePoint (rootPath pid)) (\<lambda>_. RemoveAll (mountPath pid)) w = (r1, w1)"
    by (cases "bind (deletePoint (rootPath pid)) (\<lambda>_. RemoveAll (mountPath pid)) w")
  obtain r2 where rm: "RemoveAll (mountPath pid) w1 = (r2, w')"
    using assms(2) body unfolding Mounter_Unmount_def by (auto simp: deferring_def split: prod.splits outcome.splits)
  obtain rd wd where del: "deletePoint (rootPath pid) w = (rd, wd)"
    by (cases "deletePoint (rootPath pid) w")
  have wd: "w_env wd = w_env w" "files wd = files w" "dirs wd = dirs w"
    using frameD [OF frame_points(2) del, where f = w_env] frameD [OF frame_points(2) del, where f = files]
      frameD [OF frame_points(2) del, where f = dirs] by simp_all
  have w1: "w_env w1 = w_env w" "\<not> under (mountPath pid) q \<Longrightarrow> files w1 q = files w q \<and> dirs w1 q = dirs w q" for q
  proof -
    have "w1 = wd \<or> RemoveAll (mountPath pid) wd = (r1, w1)"
      using body del by (cases rd) (auto simp: bind_def)
    then show "w_env w1 = w_env w" "\<not> under (mountPath pid) q \<Longrightarrow> files w1 q = files w q \<and> dirs w1 q = dirs w q" for q
      using wd calm_RemoveAll(2,3) [of wd "mountPath pid" r1 w1] assms(1) frameD [OF env_RemoveAll, of "mountPath pid" wd r1 w1]
      by auto
  qed
  show "files w' q = (if under (mountPath pid) q then None else files w q)"
    and "dirs w' q \<longleftrightarrow> \<not> under (mountPath pid) q \<and> dirs w q"
    using calm_RemoveAll(2,3) [OF _ rm, of q] w1 assms(1) by auto
qed

text \<open>
  C38: one mount per process, and it can be taken back. While a volume is mounted for a pid
  a second mount for it is refused; unmounting removes the whole directory of the pid and
  nothing else, also when Windows refuses to delete the mount point, so that a later
  container whose process gets the same pid can be mounted again.
\<close>

theorem mount_unmount:
  assumes "os_calm (w_env w)" and "Mounter_Mount pid vol w = (Ok (), w1)" and "Mounter_Unmount pid w1 = (r, w2)"
  shows "fst (Mounter_Mount pid vol' w1) = Err (Errorf (''mountdir exists: '' @ mountPath pid))
    \<and> files w2 q = (if under (mountPath pid) q then None else files w q)
    \<and> \<not> dirs w2 (mountPath pid)
    \<and> fst (Stat (mountPath pid) w2) = Err (NotExistError (''CreateFile '' @ mountPath pid @ '': The system cannot find the file specified.''))"
proof -
  have env: "os_calm (w_env w1)" "os_calm (w_env w2)"
    using assms frameD [OF env_mount(1) assms(2)] frameD [OF env_mount(2) assms(3)] by simp_all
  have files: "files w1 = files w"
    using frameD [OF files_Mount assms(2)] by simp
  have "under (mountPath pid) (mountPath pid)"
    by (simp add: under_def)
  then have gone: "files w2 (mountPath pid) = None" "\<not> dirs w2 (mountPath pid)"
    using calm_Unmount [OF env(1) assms(3), of "mountPath pid"] by auto
  then have "fst (Stat (mountPath pid) w2) = Err (NotExistError (''CreateFile '' @ mountPath pid @ '': The system cannot find the file specified.''))"
    using env(2) by (simp add: Stat_def calm_os_op)
  then show ?thesis
    using Mount_refused [OF env(1) Mount_Ok [OF assms(2)]] calm_Unmount(1) [OF env(1) assms(3), of q] files gone by simp
qed

definition mounting_world :: world where
  "mounting_world = quiet_world\<lparr>w_env := quiet_env\<lparr>e_win := quiet_win\<lparr>o_ProcCall := (\<lambda>_ _. (1, Errno 0 []))\<rparr>\<rparr>\<rparr>"

theorem mount_unmount_witness:
  "\<exists>w1. Mounter_Mount 42 ''vol'' mounting_world = (Ok (), w1)
     \<and> \<not> dirs (snd (Mounter_Unmount 42 w1)) (mountPath 42)"
proof -
  have calm: "os_calm (w_env mounting_world)"
    by (simp add: mounting_world_def os_calm_def quiet_defs)
  have nul: "CHR 0x00 \<notin> set (mountPath 42)"
    by (simp add: mountPath_rooted rooted_path_def itoa_def) code_simp
  have "Mounter_Mount 42 ''vol'' mounting_world = (Ok (), snd (Mounter_Mount 42 ''vol'' mounting_world))"
    using calm nul
    by (simp add: Mounter_Mount_def Stat_def MkdirAll_def calm_os_op bind_def attempt_def IsNotExist_def setPoint_def
        win_status_def dll_call_def UTF16PtrFromString_def ask_def query_def rootPath_rooted ensureTrailingBackslash_def
        mounting_world_def quiet_defs low32_def)
  then show ?thesis
    using mount_unmount [OF calm, of 42 "''vol''" "snd (Mounter_Mount 42 ''vol'' mounting_world)"]
    by (metis prod.collapse)
qed

end
