(* ===== verification/Process_Io.thy ===== *)
theory Process_Io
  imports Mount_Process "HOL-Library.Sublist"
begin

text \<open>
  The concurrency of runtime/hcsprocess/process.go: \<open>AttachIO\<close> starts a goroutine per
  attached stream, waits for the process and then, for at most eleven seconds, for the
  goroutines that copy the output; \<open>SetInterrupt\<close> starts one that kills the process.

  A state holds the program counter of every goroutine, the pipes between the process and
  winc, the \<open>sync.WaitGroup\<close>, and, to state the theorems, everything the process has
  written so far. One action is one atomic step of one goroutine, of the process or of the
  world outside; any list of actions that are all possible is an interleaving. The lemmas
  show that no output is lost or reordered unless a copy fails or the wait times out, that
  the \<open>WaitGroup\<close> never goes below zero, and that \<open>AttachIO\<close> returns after the process
  ended whatever the other goroutines do. \<open>Mount_Process.AttachIO\<close> is what the caller sees
  of this.
\<close>

section \<open>The state\<close>

datatype std = Stdout | Stderr

text \<open>
  A goroutine that copies an output: not started, inside \<open>io.Copy\<close>, about to close its
  stream, about to call \<open>wg.Done\<close>, gone. Without a writer of the caller there is none, and
  the stream is closed at once.
\<close>

datatype copier = Unlaunched | Copying | Closing | Finishing | Gone

text \<open>
  An output of the process. The process or a child that inherited the stream writes to the
  pipe until the last of them closes it; \<open>buf\<close> is what \<open>io.Copy\<close> has read and not yet
  written, \<open>delivered\<close> what the caller's writer has got.
\<close>

record stream =
  produced :: string
  pipe :: string
  ended :: bool
  buf :: string
  delivered :: string
  attached :: bool
  copier :: copier
  failed :: bool

datatype feeder = Unfed | Feeding | ClosingIn | Fed

text \<open>
  Where \<open>AttachIO\<close> is: about to start the goroutine of the standard input, of one of the
  outputs, waiting for the process, waiting for the group with what \<open>Wait\<close> returned,
  reading the exit code, returned.
\<close>

datatype main_pc =
    LaunchIn
  | Launch std
  | Waiting
  | Selecting "error + unit"
  | Fetching "error + unit" bool
  | Returned "error + int" bool

datatype waiter = NotStarted | Blocked | Sent

datatype handler = NoHandler | Listening | Killed

record attach =
  streams :: "std \<Rightarrow> stream"
  input :: string
  fed :: string
  inBuf :: string
  stdinAttached :: bool
  feeder :: feeder
  stdinClosed :: bool
  group :: int
  waiter :: waiter
  exited :: "int option"
  signalled :: bool
  handler :: handler
  kills :: nat
  main :: main_pc

definition launched :: "std \<Rightarrow> attach \<Rightarrow> attach" where
  "launched x a =
     (if attached (streams a x)
      then a\<lparr>group := group a + 1, streams := (streams a)(x := (streams a x)\<lparr>copier := Copying\<rparr>)\<rparr>
      else a\<lparr>streams := (streams a)(x := (streams a x)\<lparr>copier := Gone\<rparr>)\<rparr>)"

section \<open>Steps\<close>

datatype main_act = Start_in | Start_out | Wait_ok | Wait_fails error | Timeout | Group_empty | Exit_code "error + int"

text \<open>
  The goroutine that called \<open>AttachIO\<close>. \<open>waitWithTimeout\<close> starts its waiting goroutine and
  selects on its channel and on a timer, which may fire at any time; the flag records
  whether the timer won. \<open>ExitCode\<close> may fail, and is the code of the process when it does
  not.
\<close>

fun main_step :: "main_act \<Rightarrow> attach \<Rightarrow> attach option" where
  "main_step Start_in a =
     (if main a = LaunchIn
      then Some (if stdinAttached a then a\<lparr>feeder := Feeding, main := Launch Stdout\<rparr>
                 else a\<lparr>stdinClosed := True, main := Launch Stdout\<rparr>)
      else None)"
| "main_step Start_out a =
     (case main a of
        Launch Stdout \<Rightarrow> Some ((launched Stdout a)\<lparr>main := Launch Stderr\<rparr>)
      | Launch Stderr \<Rightarrow> Some ((launched Stderr a)\<lparr>main := Waiting\<rparr>)
      | _ \<Rightarrow> None)"
| "main_step Wait_ok a =
     (if main a = Waiting \<and> exited a \<noteq> None then Some (a\<lparr>main := Selecting (Inr ()), waiter := Blocked\<rparr>) else None)"
| "main_step (Wait_fails e) a =
     (if main a = Waiting then Some (a\<lparr>main := Selecting (Inl e), waiter := Blocked\<rparr>) else None)"
| "main_step Timeout a =
     (case main a of Selecting err \<Rightarrow> Some (a\<lparr>main := Fetching err True\<rparr>) | _ \<Rightarrow> None)"
| "main_step Group_empty a =
     (case main a of Selecting err \<Rightarrow> if waiter a = Sent then Some (a\<lparr>main := Fetching err False\<rparr>) else None | _ \<Rightarrow> None)"
| "main_step (Exit_code r) a =
     (case main a of
        Fetching (Inl err) late \<Rightarrow> Some (a\<lparr>main := Returned (Inl err) late\<rparr>)
      | Fetching (Inr _) late \<Rightarrow>
          (case r of
             Inl err \<Rightarrow> Some (a\<lparr>main := Returned (Inl err) late\<rparr>)
           | Inr code \<Rightarrow> if exited a = Some code then Some (a\<lparr>main := Returned (Inr code) late\<rparr>) else None)
      | _ \<Rightarrow> None)"

text \<open>The goroutine of \<open>waitWithTimeout\<close>; its channel has room for its only message.\<close>

definition waiter_step :: "attach \<Rightarrow> attach option" where
  "waiter_step a = (if waiter a = Blocked \<and> group a = 0 then Some (a\<lparr>waiter := Sent\<rparr>) else None)"

datatype copy_act = Read nat | Write nat | Copy_fails | End_of_file | Close_stream | Done

text \<open>
  The goroutine of an output. \<open>io.Copy\<close> reads what is there, up to the size of its buffer,
  and writes all of it before it reads again; it ends at the end of the stream, when
  everything was read and the pipe is closed, or when a read or a write fails.
\<close>

fun copier_step :: "copy_act \<Rightarrow> stream \<Rightarrow> stream option" where
  "copier_step (Read n) s =
     (if copier s = Copying \<and> buf s = [] \<and> 0 < n \<and> n \<le> length (pipe s)
      then Some (s\<lparr>buf := take n (pipe s), pipe := drop n (pipe s)\<rparr>) else None)"
| "copier_step (Write n) s =
     (if copier s = Copying \<and> 0 < n \<and> n \<le> length (buf s)
      then Some (s\<lparr>delivered := delivered s @ take n (buf s), buf := drop n (buf s)\<rparr>) else None)"
| "copier_step Copy_fails s =
     (if copier s = Copying then Some (s\<lparr>copier := Closing, failed := True\<rparr>) else None)"
| "copier_step End_of_file s =
     (if copier s = Copying \<and> buf s = [] \<and> pipe s = [] \<and> ended s then Some (s\<lparr>copier := Closing\<rparr>) else None)"
| "copier_step Close_stream s =
     (if copier s = Closing then Some (s\<lparr>copier := Finishing\<rparr>) else None)"
| "copier_step Done s =
     (if copier s = Finishing then Some (s\<lparr>copier := Gone\<rparr>) else None)"

datatype feed_act = Feed_read nat | Feed_write nat | Feed_ends | Feed_close

text \<open>
  The goroutine of the standard input. It is not part of the group: a read of the caller's
  input may block for ever.
\<close>

fun feeder_step :: "feed_act \<Rightarrow> attach \<Rightarrow> attach option" where
  "feeder_step (Feed_read n) a =
     (if feeder a = Feeding \<and> inBuf a = [] \<and> 0 < n \<and> n \<le> length (input a)
      then Some (a\<lparr>inBuf := take n (input a), input := drop n (input a)\<rparr>) else None)"
| "feeder_step (Feed_write n) a =
     (if feeder a = Feeding \<and> 0 < n \<and> n \<le> length (inBuf a)
      then Some (a\<lparr>fed := fed a @ take n (inBuf a), inBuf := drop n (inBuf a)\<rparr>) else None)"
| "feeder_step Feed_ends a = (if feeder a = Feeding then Some (a\<lparr>feeder := ClosingIn\<rparr>) else None)"
| "feeder_step Feed_close a =
     (if feeder a = ClosingIn then Some (a\<lparr>feeder := Fed, stdinClosed := True\<rparr>) else None)"

text \<open>The goroutine of \<open>SetInterrupt\<close> takes one signal and kills the process; it does not loop.\<close>

definition handler_step :: "attach \<Rightarrow> attach option" where
  "handler_step a =
     (if handler a = Listening \<and> signalled a then Some (a\<lparr>handler := Killed, kills := Suc (kills a)\<rparr>) else None)"

text \<open>
  The process and its children write to its streams until they close them, which may be
  before or after the process ends; an interrupt may arrive at any time.
\<close>

datatype outside = Output std string | Closes std | Ends int | Interrupt

fun outside_step :: "outside \<Rightarrow> attach \<Rightarrow> attach option" where
  "outside_step (Output x t) a =
     (if \<not> ended (streams a x)
      then Some (a\<lparr>streams := (streams a)(x := (streams a x)\<lparr>produced := produced (streams a x) @ t,
                                                           pipe := pipe (streams a x) @ t\<rparr>)\<rparr>)
      else None)"
| "outside_step (Closes x) a = Some (a\<lparr>streams := (streams a)(x := (streams a x)\<lparr>ended := True\<rparr>)\<rparr>)"
| "outside_step (Ends code) a = (if exited a = None then Some (a\<lparr>exited := Some code\<rparr>) else None)"
| "outside_step Interrupt a = Some (a\<lparr>signalled := True\<rparr>)"

datatype action = Main main_act | Waiter | Copy std copy_act | Feed feed_act | Handler | Outside outside

definition copy_step :: "std \<Rightarrow> copy_act \<Rightarrow> attach \<Rightarrow> attach option" where
  "copy_step x c a =
     (case copier_step c (streams a x) of
        None \<Rightarrow> None
      | Some s \<Rightarrow> Some (a\<lparr>streams := (streams a)(x := s), group := (if c = Done then group a - 1 else group a)\<rparr>))"

fun step :: "action \<Rightarrow> attach \<Rightarrow> attach option" where
  "step (Main m) a = main_step m a"
| "step Waiter a = waiter_step a"
| "step (Copy x c) a = copy_step x c a"
| "step (Feed f) a = feeder_step f a"
| "step Handler a = handler_step a"
| "step (Outside o') a = outside_step o' a"

fun run_steps :: "action list \<Rightarrow> attach \<Rightarrow> attach option" where
  "run_steps [] a = Some a"
| "run_steps (x # xs) a = (case step x a of None \<Rightarrow> None | Some a' \<Rightarrow> run_steps xs a')"

text \<open>
  The state in which \<open>Stdio\<close> has returned the streams of the process: \<open>ins\<close> and \<open>outs\<close> say
  which of the caller's streams are attached, \<open>listening\<close> whether \<open>SetInterrupt\<close> was called.
\<close>

definition attach_start :: "bool \<Rightarrow> (std \<Rightarrow> bool) \<Rightarrow> bool \<Rightarrow> string \<Rightarrow> attach" where
  "attach_start ins outs listening text0 =
     \<lparr>streams = (\<lambda>x. \<lparr>produced = [], pipe = [], ended = False, buf = [], delivered = [], attached = outs x, copier = Unlaunched, failed = False\<rparr>),
      input = text0, fed = [], inBuf = [], stdinAttached = ins, feeder = Unfed, stdinClosed = False, group = 0,
      waiter = NotStarted, exited = None, signalled = False, handler = (if listening then Listening else NoHandler),
      kills = 0, main = LaunchIn\<rparr>"

section \<open>The invariant\<close>

text \<open>What a copier keeps of its stream.\<close>

definition stream_ok :: "stream \<Rightarrow> bool" where
  "stream_ok s \<longleftrightarrow> produced s = delivered s @ buf s @ pipe s
     \<and> (copier s \<in> {Closing, Finishing, Gone} \<and> attached s \<and> \<not> failed s \<longrightarrow> buf s = [] \<and> pipe s = [] \<and> ended s)"

definition active :: "stream \<Rightarrow> int" where
  "active s = (if copier s \<in> {Copying, Closing, Finishing} then 1 else 0)"

definition unlaunched :: "main_pc \<Rightarrow> std \<Rightarrow> bool" where
  "unlaunched pc x \<longleftrightarrow> (case pc of LaunchIn \<Rightarrow> True | Launch Stdout \<Rightarrow> True | Launch Stderr \<Rightarrow> x = Stderr | _ \<Rightarrow> False)"

definition streams_inv :: "attach \<Rightarrow> bool" where
  "streams_inv a \<longleftrightarrow> (\<forall>x. stream_ok (streams a x) \<and> (copier (streams a x) = Unlaunched \<longleftrightarrow> unlaunched (main a) x))"

definition group_inv :: "attach \<Rightarrow> bool" where
  "group_inv a \<longleftrightarrow> group a = active (streams a Stdout) + active (streams a Stderr)
     \<and> (waiter a = Sent \<longrightarrow> group a = 0)
     \<and> (waiter a \<noteq> NotStarted \<longrightarrow> (\<forall>x. \<not> unlaunched (main a) x))"

definition main_inv :: "attach \<Rightarrow> bool" where
  "main_inv a \<longleftrightarrow> (case main a of
       Fetching err late \<Rightarrow> (\<not> late \<longrightarrow> waiter a = Sent) \<and> (err = Inr () \<longrightarrow> exited a \<noteq> None)
     | Returned r late \<Rightarrow> (\<not> late \<longrightarrow> waiter a = Sent) \<and> (\<forall>code. r = Inr code \<longrightarrow> exited a = Some code)
     | Selecting err \<Rightarrow> err = Inr () \<longrightarrow> exited a \<noteq> None
     | _ \<Rightarrow> True)"

definition signal_inv :: "attach \<Rightarrow> bool" where
  "signal_inv a \<longleftrightarrow> (kills a = (if handler a = Killed then 1 else 0)) \<and> (handler a = Killed \<longrightarrow> signalled a)"

lemma all_std: "(\<forall>x. P x) \<longleftrightarrow> P Stdout \<and> P Stderr"
  by (metis std.exhaust)

lemma active_updates [simp]:
  "active (s\<lparr>produced := p\<rparr>) = active s" "active (s\<lparr>pipe := p\<rparr>) = active s" "active (s\<lparr>ended := e\<rparr>) = active s"
  by (simp_all add: active_def)

lemma copier_stream_ok: "copier_step c s = Some s' \<Longrightarrow> stream_ok s \<Longrightarrow> stream_ok s'"
  by (cases c) (auto simp: stream_ok_def split: if_splits)

lemma copier_active:
  "copier_step c s = Some s' \<Longrightarrow> active s' = (if c = Done then active s - 1 else active s)
     \<and> attached s' = attached s \<and> copier s \<noteq> Unlaunched \<and> copier s' \<noteq> Unlaunched \<and> active s = 1"
  by (cases c) (auto simp: active_def split: if_splits)

lemma stream_ok_updates:
  "stream_ok s \<Longrightarrow> stream_ok (s\<lparr>copier := Copying\<rparr>)"
  "stream_ok s \<Longrightarrow> \<not> attached s \<Longrightarrow> stream_ok (s\<lparr>copier := Gone\<rparr>)"
  "stream_ok s \<Longrightarrow> \<not> ended s \<Longrightarrow> stream_ok (s\<lparr>produced := produced s @ t, pipe := pipe s @ t\<rparr>)"
  "stream_ok s \<Longrightarrow> stream_ok (s\<lparr>ended := True\<rparr>)"
  by (auto simp: stream_ok_def)

text \<open>The only steps of \<open>AttachIO\<close> itself that touch an output are those that launch its copier.\<close>

lemma main_step_cases:
  assumes "main_step m a = Some a'"
  obtains (launch) x where "main a = Launch x" "streams a' = streams (launched x a)" "group a' = group (launched x a)"
      "waiter a' = waiter a" "main a' = (if x = Stdout then Launch Stderr else Waiting)"
  | (other) "streams a' = streams a" "group a' = group a" "unlaunched (main a') = unlaunched (main a)"
      "waiter a' = waiter a \<or> waiter a' = Blocked \<and> main a = Waiting"
proof (cases "\<exists>x. main a = Launch x")
  case True
  then obtain x where x: "main a = Launch x"
    by blast
  show thesis
  proof (rule launch [OF x])
  qed (use assms x in \<open>cases m; cases x; force simp: launched_def split: if_splits\<close>)+
next
  case False
  show thesis
  proof (rule other)
  qed (use assms False in \<open>cases m; cases "main a"; auto simp: unlaunched_def fun_eq_iff split: if_splits sum.splits\<close>)+
qed

lemma main_step_streams:
  assumes "main_step m a = Some a'" "streams_inv a"
  shows "streams_inv a'"
  using assms(1)
proof (cases rule: main_step_cases)
  case (launch x)
  then show ?thesis
    using assms(2)
    by (cases x) (auto simp: streams_inv_def all_std unlaunched_def launched_def stream_ok_updates)
next
  case other
  then show ?thesis
    using assms(2) by (simp add: streams_inv_def)
qed

lemma outside_step_streams: "outside_step o' a = Some a' \<Longrightarrow> streams_inv a \<Longrightarrow> streams_inv a'"
  by (cases o') (auto simp: streams_inv_def stream_ok_updates split: if_splits)

lemma step_streams:
  assumes "step x a = Some a'" "streams_inv a"
  shows "streams_inv a'"
proof (cases x)
  case (Main m)
  then show ?thesis
    using assms main_step_streams by simp
next
  case (Copy y c)
  then obtain s where s: "copier_step c (streams a y) = Some s" "streams a' = (streams a)(y := s)" "main a' = main a"
    using assms(1) by (auto simp: copy_step_def split: option.splits)
  then show ?thesis
    using assms(2) copier_stream_ok [OF s(1)] copier_active [OF s(1)] unfolding streams_inv_def by (metis fun_upd_apply)
next
  case (Feed f)
  then show ?thesis
    using assms by (cases f) (auto simp: streams_inv_def split: if_splits)
next
  case (Outside o')
  then show ?thesis
    using assms outside_step_streams by simp
qed (use assms in \<open>auto simp: streams_inv_def waiter_step_def handler_step_def split: if_splits\<close>)

lemma main_step_group:
  assumes "main_step m a = Some a'" "streams_inv a" "group_inv a"
  shows "group_inv a'"
  using assms(1)
proof (cases rule: main_step_cases)
  case (launch x)
  have "copier (streams a x) = Unlaunched" "waiter a = NotStarted"
    using assms(2,3) launch(1) by (cases x; auto simp: streams_inv_def group_inv_def unlaunched_def)+
  then show ?thesis
    using assms(3) launch by (cases x) (auto simp: group_inv_def active_def launched_def)
next
  case other
  then show ?thesis
    using assms(3) by (auto simp: group_inv_def unlaunched_def)
qed

lemma step_group:
  assumes "step x a = Some a'" "streams_inv a" "group_inv a"
  shows "group_inv a'"
proof (cases x)
  case (Main m)
  then show ?thesis
    using assms main_step_group by simp
next
  case (Copy y c)
  then obtain s where s: "copier_step c (streams a y) = Some s"
      "a' = a\<lparr>streams := (streams a)(y := s), group := (if c = Done then group a - 1 else group a)\<rparr>"
    using assms(1) by (auto simp: copy_step_def split: option.splits)
  then have "active (streams a y) = 1" "active s = (if c = Done then 0 else 1)"
    using copier_active [OF s(1)] by auto
  moreover have "0 \<le> active t" for t
    by (simp add: active_def)
  ultimately have "waiter a \<noteq> Sent"
    using assms(3) by (cases y) (auto simp: group_inv_def add_nonneg_eq_0_iff)
  then show ?thesis
    using assms(3) s \<open>active (streams a y) = 1\<close> \<open>active s = _\<close> by (cases y) (auto simp: group_inv_def)
next
  case (Feed f)
  then show ?thesis
    using assms by (cases f) (auto simp: group_inv_def split: if_splits)
next
  case (Outside o')
  then show ?thesis
    using assms by (cases o'; cases "case o' of Output x _ \<Rightarrow> x | Closes x \<Rightarrow> x | _ \<Rightarrow> Stdout")
      (auto simp: group_inv_def split: if_splits)
qed (use assms in \<open>auto simp: group_inv_def waiter_step_def handler_step_def split: if_splits\<close>)

lemma step_main:
  assumes "step x a = Some a'" "main_inv a"
  shows "main_inv a'"
proof (cases x)
  case (Main m)
  then show ?thesis
    using assms by (cases m; cases "main a") (auto simp: main_inv_def launched_def split: if_splits sum.splits std.splits)
next
  case (Copy y c)
  then show ?thesis
    using assms by (auto simp: main_inv_def copy_step_def split: option.splits main_pc.splits)
next
  case (Feed f)
  then show ?thesis
    using assms by (cases f) (auto simp: main_inv_def split: if_splits main_pc.splits)
next
  case (Outside o')
  then show ?thesis
    using assms by (cases o') (auto simp: main_inv_def split: if_splits main_pc.splits)
qed (use assms in \<open>auto simp: main_inv_def waiter_step_def handler_step_def split: if_splits main_pc.splits\<close>)

lemma step_signal:
  assumes "step x a = Some a'" "signal_inv a"
  shows "signal_inv a'"
proof (cases x)
  case (Main m)
  then show ?thesis
    using assms by (cases m; cases "main a") (auto simp: signal_inv_def launched_def split: if_splits sum.splits std.splits)
next
  case (Copy y c)
  then show ?thesis
    using assms by (auto simp: signal_inv_def copy_step_def split: option.splits)
next
  case (Feed f)
  then show ?thesis
    using assms by (cases f) (auto simp: signal_inv_def split: if_splits)
next
  case (Outside o')
  then show ?thesis
    using assms by (cases o') (auto simp: signal_inv_def split: if_splits)
qed (use assms in \<open>auto simp: signal_inv_def waiter_step_def handler_step_def split: if_splits\<close>)

text \<open>What never changes, and the standard input.\<close>

definition stdin_inv :: "attach \<Rightarrow> bool" where
  "stdin_inv a \<longleftrightarrow>
     (if main a = LaunchIn then feeder a = Unfed \<and> \<not> stdinClosed a
      else if stdinAttached a then feeder a \<noteq> Unfed \<and> (stdinClosed a \<longleftrightarrow> feeder a = Fed)
      else feeder a = Unfed \<and> stdinClosed a)"

lemma copier_attached: "copier_step c s = Some s' \<Longrightarrow> attached s' = attached s"
  using copier_active by blast

lemma main_step_stdin:
  assumes "main_step m a = Some a'" "stdin_inv a"
  shows "stdin_inv a'"
  using assms by (cases m; cases "main a") (auto simp: stdin_inv_def launched_def split: if_splits sum.splits std.splits)

lemma step_stdin:
  assumes "step x a = Some a'" "stdin_inv a"
  shows "stdin_inv a'"
proof (cases x)
  case (Main m)
  then show ?thesis
    using assms main_step_stdin by simp
next
  case (Copy y c)
  then show ?thesis
    using assms by (auto simp: stdin_inv_def copy_step_def split: option.splits)
next
  case (Feed f)
  then show ?thesis
    using assms by (cases f) (auto simp: stdin_inv_def split: if_splits)
next
  case (Outside o')
  then show ?thesis
    using assms by (cases o') (auto simp: stdin_inv_def split: if_splits)
qed (use assms in \<open>auto simp: stdin_inv_def waiter_step_def handler_step_def split: if_splits\<close>)

definition all_input :: "attach \<Rightarrow> string" where
  "all_input a = fed a @ inBuf a @ input a"

lemma main_step_constants:
  assumes "main_step m a = Some a'"
  shows "attached (streams a' x) = attached (streams a x)" "stdinAttached a' = stdinAttached a" "all_input a' = all_input a"
  using assms
  by (cases m; cases "main a"; auto simp: launched_def all_input_def split: if_splits sum.splits std.splits)+

lemma feeder_step_constants:
  "feeder_step f a = Some a' \<Longrightarrow> streams a' = streams a \<and> stdinAttached a' = stdinAttached a \<and> all_input a' = all_input a"
  by (cases f) (auto simp: all_input_def split: if_splits)

lemma outside_step_constants:
  assumes "outside_step o' a = Some a'"
  shows "attached (streams a' x) = attached (streams a x)" "stdinAttached a' = stdinAttached a" "all_input a' = all_input a"
  using assms by (cases o'; auto simp: all_input_def split: if_splits)+

lemma copy_step_constants:
  assumes "copy_step z c a = Some a'"
  shows "attached (streams a' x) = attached (streams a x)" "stdinAttached a' = stdinAttached a" "all_input a' = all_input a"
  using assms copier_attached [of c "streams a z"] by (auto simp: copy_step_def all_input_def split: option.splits if_splits)

lemma step_constants:
  assumes "step x a = Some a'"
  shows "attached (streams a' y) = attached (streams a y) \<and> stdinAttached a' = stdinAttached a \<and> all_input a' = all_input a"
proof (cases x)
  case (Main m)
  then show ?thesis using assms main_step_constants by simp
next
  case (Copy z c)
  then show ?thesis using assms copy_step_constants by simp
next
  case (Feed f)
  then show ?thesis using assms feeder_step_constants by simp
next
  case (Outside o')
  then show ?thesis using assms outside_step_constants by simp
qed (use assms in \<open>auto simp: waiter_step_def handler_step_def all_input_def split: if_splits\<close>)

definition attach_inv :: "attach \<Rightarrow> bool" where
  "attach_inv a \<longleftrightarrow> streams_inv a \<and> group_inv a \<and> main_inv a \<and> signal_inv a \<and> stdin_inv a"

lemma attach_inv_start: "attach_inv (attach_start ins outs listening text0)"
  by (simp add: attach_inv_def attach_start_def streams_inv_def group_inv_def main_inv_def signal_inv_def stdin_inv_def
      stream_ok_def active_def unlaunched_def)

lemma attach_inv_run: "run_steps xs a = Some a' \<Longrightarrow> attach_inv a \<Longrightarrow> attach_inv a'"
proof (induction xs arbitrary: a)
  case (Cons x xs)
  then show ?case
    unfolding attach_inv_def
    by (auto intro: step_streams step_group step_main step_signal step_stdin split: option.splits)
qed simp

lemma run_constants:
  "run_steps xs a = Some a' \<Longrightarrow> attached (streams a' y) = attached (streams a y)
     \<and> stdinAttached a' = stdinAttached a \<and> all_input a' = all_input a"
proof (induction xs arbitrary: a)
  case (Cons x xs)
  then obtain b where "step x a = Some b" "run_steps xs b = Some a'"
    by (auto split: option.splits)
  then show ?case
    using Cons.IH [of b] step_constants [of x a b] by simp
qed simp

section \<open>Properties\<close>

text \<open>
  C7: no output is lost or reordered. In every state that any interleaving reaches, what the
  caller's writers have got is a beginning of what the process wrote. When \<open>AttachIO\<close> has
  returned before its timeout, an attached writer whose copy did not fail has got all of it
  and the stream is closed, so nothing can follow; and an exit code that is returned is the
  code the process ended with.
\<close>

theorem attach_output_complete:
  assumes "run_steps xs (attach_start ins outs listening text0) = Some a"
  shows "prefix (delivered (streams a x)) (produced (streams a x))
    \<and> (\<forall>r. main a = Returned r False \<and> outs x \<and> \<not> failed (streams a x) \<longrightarrow>
          delivered (streams a x) = produced (streams a x) \<and> ended (streams a x))
    \<and> (\<forall>code late. main a = Returned (Inr code) late \<longrightarrow> exited a = Some code)"
proof -
  have inv: "attach_inv a"
    using attach_inv_run [OF assms attach_inv_start] .
  have att: "attached (streams a x) = outs x"
    using run_constants [OF assms] by (simp add: attach_start_def)
  have ok: "stream_ok (streams a x)"
    using inv by (simp add: attach_inv_def streams_inv_def)
  have gone: "copier (streams a x) = Gone" if "main a = Returned r False" for r
  proof -
    have "group a = 0" "copier (streams a x) \<noteq> Unlaunched"
      using inv that by (auto simp: attach_inv_def main_inv_def group_inv_def streams_inv_def unlaunched_def)
    moreover have "0 \<le> active s" for s
      by (simp add: active_def)
    ultimately have "active (streams a x) = 0"
      using inv by (cases x) (auto simp: attach_inv_def group_inv_def add_nonneg_eq_0_iff)
    then show ?thesis
      using \<open>copier (streams a x) \<noteq> Unlaunched\<close> by (cases "copier (streams a x)") (auto simp: active_def)
  qed
  show ?thesis
    using ok att gone inv by (auto simp: stream_ok_def attach_inv_def main_inv_def)
qed

fun main_rank :: "main_pc \<Rightarrow> nat" where
  "main_rank LaunchIn = 6"
| "main_rank (Launch x) = (case x of Stdout \<Rightarrow> 5 | Stderr \<Rightarrow> 4)"
| "main_rank Waiting = 3"
| "main_rank (Selecting e) = 2"
| "main_rank (Fetching e late) = 1"
| "main_rank (Returned r late) = 0"

lemma main_step_rank: "main_step m a = Some a' \<Longrightarrow> main_rank (main a) = Suc (main_rank (main a')) \<and> exited a' = exited a"
  by (cases m; cases "main a") (auto simp: launched_def split: if_splits sum.splits std.splits)

lemma step_rank: "step x a = Some a' \<Longrightarrow> \<nexists>m. x = Main m \<Longrightarrow> main a' = main a"
proof (cases x)
  case (Feed f)
  then show "step x a = Some a' \<Longrightarrow> main a' = main a" by (cases f) (auto split: if_splits)
next
  case (Outside o')
  then show "step x a = Some a' \<Longrightarrow> main a' = main a" by (cases o') (auto split: if_splits)
qed (auto simp: copy_step_def waiter_step_def handler_step_def split: if_splits option.splits)

definition main_acts :: "action list \<Rightarrow> nat" where
  "main_acts xs = length (filter (\<lambda>x. case x of Main _ \<Rightarrow> True | _ \<Rightarrow> False) xs)"

lemma main_acts_rank: "run_steps xs a = Some a' \<Longrightarrow> main_rank (main a) = main_acts xs + main_rank (main a')"
proof (induction xs arbitrary: a)
  case (Cons x xs)
  then obtain b where b: "step x a = Some b" "main_rank (main b) = main_acts xs + main_rank (main a')"
    by (auto split: option.splits)
  then show ?case
    using main_step_rank [of _ a b] step_rank [OF b(1)] by (cases x) (auto simp: main_acts_def)
qed (simp add: main_acts_def)

lemma main_can_step:
  assumes "exited a = Some code" "main_rank (main a) \<noteq> 0"
  shows "\<exists>m a'. main_step m a = Some a'"
proof (cases "main a")
  case LaunchIn
  then have "main_step Start_in a \<noteq> None" by simp
  then show ?thesis by blast
next
  case (Launch x)
  then have "main_step Start_out a \<noteq> None" by (cases x) simp_all
  then show ?thesis by blast
next
  case Waiting
  then have "main_step Wait_ok a \<noteq> None" using assms by simp
  then show ?thesis by blast
next
  case (Selecting e)
  then have "main_step Timeout a \<noteq> None" by simp
  then show ?thesis by blast
next
  case (Fetching e late)
  then have "main_step (Exit_code (Inr code)) a \<noteq> None" using assms by (cases e) simp_all
  then show ?thesis by blast
qed (use assms in simp)

lemma main_alone_returns:
  assumes "exited a = Some code"
  shows "\<exists>ms a'. run_steps (map Main ms) a = Some a' \<and> main_rank (main a') = 0"
  using assms
proof (induction "main_rank (main a)" arbitrary: a)
  case 0
  then show ?case
    by (intro exI [of _ "[]"]) simp
next
  case (Suc n)
  then obtain m b where b: "main_step m a = Some b"
    using main_can_step [of a code] by auto
  then obtain ms a' where "run_steps (map Main ms) b = Some a'" "main_rank (main a') = 0"
    using Suc main_step_rank [OF b] by (metis Suc_inject)
  then show ?case
    using b by (intro exI [of _ "m # ms"]) auto
qed

text \<open>
  C20: \<open>AttachIO\<close> returns once the process has ended. In every interleaving the goroutine that
  called it takes at most six steps; and from every state reached in which the process has
  ended, these steps are possible without a step of any other goroutine: a reader of the
  standard input that blocks, a writer that never returns or a child that keeps a stream
  open cannot hold it up.
\<close>

theorem attach_returns:
  assumes "run_steps xs (attach_start ins outs listening text0) = Some a" and "exited a = Some code"
  shows "main_acts xs \<le> 6
    \<and> (\<exists>ms a' r late. run_steps (map Main ms) a = Some a' \<and> main a' = Returned r late \<and> length ms \<le> 6)"
proof -
  obtain ms a' where ms: "run_steps (map Main ms) a = Some a'" "main_rank (main a') = 0"
    using main_alone_returns [OF assms(2)] by blast
  have "main_acts xs + main_rank (main a) = 6"
    using main_acts_rank [OF assms(1)] by (simp add: attach_start_def)
  moreover have "main_acts (map Main ms) = length ms"
    by (induction ms) (simp_all add: main_acts_def)
  ultimately have "main_acts xs \<le> 6" "length ms \<le> 6"
    using main_acts_rank [OF ms(1)] ms(2) by auto
  moreover obtain r late where "main a' = Returned r late"
    using ms(2) by (cases "main a'") (auto split: std.splits)
  ultimately show ?thesis
    using ms(1) by blast
qed

text \<open>A run in which the process writes to both streams and everything is copied.\<close>

definition example_steps :: "action list" where
  "example_steps =
     [Main Start_in, Main Start_out, Outside (Output Stdout ''hello''), Main Start_out, Copy Stdout (Read 3),
      Copy Stdout (Write 2), Outside (Output Stderr ''!''), Outside (Ends 3), Copy Stdout (Write 1), Main Wait_ok,
      Copy Stderr (Read 1), Copy Stdout (Read 2), Copy Stdout (Write 2), Copy Stderr (Write 1), Outside (Closes Stderr),
      Outside (Closes Stdout), Copy Stdout End_of_file, Copy Stderr End_of_file, Copy Stderr Close_stream,
      Copy Stdout Close_stream, Copy Stdout Done, Copy Stderr Done, Waiter, Main Group_empty, Main (Exit_code (Inr 3))]"

lemma example_run:
  "\<exists>a. run_steps example_steps (attach_start True (\<lambda>_. True) True []) = Some a \<and> main a = Returned (Inr 3) False
     \<and> delivered (streams a Stdout) = ''hello'' \<and> \<not> failed (streams a Stdout) \<and> exited a = Some 3"
  by (simp add: example_steps_def attach_start_def launched_def copy_step_def waiter_step_def)

theorem attach_output_complete_witness:
  "\<exists>a. run_steps example_steps (attach_start True (\<lambda>_. True) True []) = Some a
     \<and> produced (streams a Stdout) = ''hello'' \<and> ended (streams a Stdout)"
  using example_run attach_output_complete [of example_steps True "\<lambda>_. True" True "[]" _ Stdout] by metis

theorem attach_returns_witness:
  "main_acts example_steps \<le> 6"
  using example_run attach_returns [of example_steps True "\<lambda>_. True" True "[]"] by metis

end
