(* ===== verification/Net_Interface.thy ===== *)
theory Net_Interface
  imports Hcs_Client
begin

unbundle bit_operations_syntax

text \<open>
  network/netinterface/net_interface.go and network/mtu/mtu.go: finding a network adapter by
  name, by index or by address, and reading and setting its MTU inside the adapter's
  network compartment. The lemmas show that the lookup loop ends and that the thread is
  always back in the host's compartment afterwards.
\<close>

section \<open>\<open>net.ParseCIDR\<close> and \<open>IPNet.Contains\<close>\<close>

fun apply_mask :: "nat \<Rightarrow> byte list \<Rightarrow> byte list" where
  "apply_mask n [] = []"
| "apply_mask n (b # bs) =
     (if 8 \<le> n then b # apply_mask (n - 8) bs
      else push_bit (8 - n) (drop_bit (8 - n) b) # apply_mask 0 bs)"

text \<open>An \<open>IPNet\<close>: the masked network number, 4 or 16 bytes, and the number of mask bits.\<close>

record IPNet =
  net_IP :: ip
  net_Ones :: nat

definition ParseCIDR :: "string \<Rightarrow> string + IPNet" where
  "ParseCIDR s =
     (let err = Inl (''invalid CIDR address: '' @ s) in
      case split_first (CHR ''/'') s of
        [addr, m] \<Rightarrow>
          (case (if CHR '':'' \<in> set (takeWhile (\<lambda>c. c \<noteq> CHR ''.'') addr) then parseIPv6 addr else parseIPv4 addr) of
             None \<Rightarrow> err
           | Some bs \<Rightarrow>
               if all_digits m \<and> undec m \<le> 8 * length bs
               then Inr \<lparr>net_IP = apply_mask (undec m) bs, net_Ones = undec m\<rparr> else err)
      | _ \<Rightarrow> err)"

text \<open>A 16-byte network whose number is an IPv4 address is compared on its last four bytes.\<close>

definition IPNet_Contains :: "IPNet \<Rightarrow> ip \<Rightarrow> bool" where
  "IPNet_Contains n i =
     (let v4 = (length (To4 (net_IP n)) = 4);
          nn = (if v4 then To4 (net_IP n) else net_IP n);
          ones = (if v4 \<and> length (net_IP n) = 16 then net_Ones n - 96 else net_Ones n);
          i' = (if length (To4 i) = 4 then To4 i else i)
      in length i' = length nn \<and> apply_mask ones i' = apply_mask ones nn)"

section \<open>Adapters\<close>

record AdapterInfo =
  ai_Name :: string
  ai_Index :: u32
  ai_LUID :: u64
  ai_PhysicalAddress :: "byte list"
  ai_CompartmentId :: u32

definition zero_AdapterInfo :: AdapterInfo where
  "zero_AdapterInfo = \<lparr>ai_Name = [], ai_Index = 0, ai_LUID = 0, ai_PhysicalAddress = [], ai_CompartmentId = 0\<rparr>"

definition GAA_FLAGS :: u32 where "GAA_FLAGS = 0x10 OR 0x200"
definition AF_INET :: u32 where "AF_INET = 2"
definition AF_UNSPEC :: u32 where "AF_UNSPEC = 0"
definition ERROR_BUFFER_OVERFLOW :: u32 where "ERROR_BUFFER_OVERFLOW = 111"

text \<open>\<open>utf16.Decode\<close> and the conversion of the runes to a string.\<close>

fun utf16_Decode :: "u16 list \<Rightarrow> string" where
  "utf16_Decode [] = []"
| "utf16_Decode [u] = utf8 (unat u)"
| "utf16_Decode (u # v # us) =
     (if 0xD800 \<le> u \<and> u \<le> 0xDBFF \<and> 0xDC00 \<le> v \<and> v \<le> 0xDFFF
      then utf8_pair (unat u) (unat v) @ utf16_Decode us
      else utf8 (unat u) @ utf16_Decode (v # us))"

definition utf16PtrToString :: "u16 list option \<Rightarrow> string" where
  "utf16PtrToString p = (case p of None \<Rightarrow> [] | Some us \<Rightarrow> utf16_Decode (takeWhile (\<lambda>u. u \<noteq> 0) us))"

definition physicalAddress :: "Adapter \<Rightarrow> byte list" where
  "physicalAddress aa =
     (let n = unat (aa_PhysicalAddressLength aa)
      in take n (aa_PhysicalAddress aa) @ replicate (n - length (aa_PhysicalAddress aa)) 0)"

definition adapter_info :: "Adapter \<Rightarrow> AdapterInfo" where
  "adapter_info aa =
     \<lparr>ai_Name = utf16PtrToString (aa_FriendlyName aa), ai_Index = aa_IfIndex aa, ai_LUID = aa_Luid aa,
      ai_PhysicalAddress = physicalAddress aa, ai_CompartmentId = aa_CompartmentId aa\<rparr>"

text \<open>
  The loop that grows the buffer until \<open>GetAdaptersAddresses\<close> is satisfied: it goes on only
  with a larger buffer. \<open>None\<close> stands for the answer that there is nothing to list.
\<close>

lemma grow_measure:
  fixes l l' :: u32
  assumes "\<not> l' \<le> l"
  shows "2 ^ 32 - unat l' < 2 ^ 32 - unat l"
proof -
  have "unat l' < 2 ^ LENGTH(32)"
    by (rule unsigned_less)
  then show ?thesis
    using assms by (simp add: word_le_nat_alt)
qed

function adapters :: "u32 \<Rightarrow> u32 \<Rightarrow> Adapter list option op" where
  "adapters family l w =
     (case o_GetAdaptersAddresses (e_win (w_env w)) (hist w) family GAA_FLAGS l of (err, l', aas) \<Rightarrow>
      (let w' = log_event (Win (WGetAdaptersAddresses family GAA_FLAGS l)) w in
       case err of
         None \<Rightarrow> (Ok (if l' = 0 then None else Some aas), w')
       | Some e \<Rightarrow>
           (case e of
              Errno c m \<Rightarrow>
                if c \<noteq> ERROR_BUFFER_OVERFLOW then (Err (OtherError (''getadaptersaddresses: '' @ Error e)), w')
                else if l' \<le> l then (Err (OtherError (''getadaptersaddresses: '' @ Error e)), w')
                else adapters family l' w'
            | _ \<Rightarrow> (Panic ''interface conversion: error is not syscall.Errno'', w'))))"
  by pat_completeness auto
termination
  by (relation "measure (\<lambda>(family, l, w). 2 ^ 32 - unat l)")
     (use grow_measure in auto)

declare adapters.simps [simp del]

definition getAdapterInfoByName :: "string \<Rightarrow> u32 \<Rightarrow> AdapterInfo op" where
  "getAdapterInfoByName name family =
     bind (adapters family 15000) (\<lambda>r. case r of
       None \<Rightarrow> ret zero_AdapterInfo
     | Some aas \<Rightarrow> (case find (\<lambda>aa. utf16PtrToString (aa_FriendlyName aa) = name) aas of
         Some aa \<Rightarrow> ret (adapter_info aa)
       | None \<Rightarrow> throw (NetInterfaceError (InterfaceNotFoundError name 0))))"

definition getAdapterInfoByIndex :: "u32 \<Rightarrow> u32 \<Rightarrow> AdapterInfo op" where
  "getAdapterInfoByIndex ifIdx family =
     bind (adapters family 15000) (\<lambda>r. case r of
       None \<Rightarrow> ret zero_AdapterInfo
     | Some aas \<Rightarrow> (case find (\<lambda>aa. aa_IfIndex aa = ifIdx) aas of
         Some aa \<Rightarrow> ret (adapter_info aa)
       | None \<Rightarrow> throw (NetInterfaceError (InterfaceNotFoundError [] ifIdx))))"

section \<open>The operations\<close>

definition ByName :: "string \<Rightarrow> AdapterInfo op" where
  "ByName name = getAdapterInfoByName name AF_INET"

text \<open>The addresses of one interface: \<open>True\<close> when one of them is a network with the address.\<close>

fun any_contains :: "ip \<Rightarrow> string list \<Rightarrow> bool op" where
  "any_contains i [] = ret False"
| "any_contains i (addr # addrs) =
     (case ParseCIDR addr of
        Inl msg \<Rightarrow> throw (OtherError msg)
      | Inr n \<Rightarrow> if IPNet_Contains n i then ret True else any_contains i addrs)"

fun by_ip_loop :: "string \<Rightarrow> ip \<Rightarrow> u32 list \<Rightarrow> AdapterInfo op" where
  "by_ip_loop ipStr i [] = throw (NetInterfaceError (InterfaceForIPNotFoundError ipStr))"
| "by_ip_loop ipStr i (iface # ifaces) =
     bind (ask (Win (WInterfaceAddrs iface)) (\<lambda>e h. o_InterfaceAddrs (e_win e) h iface)) (\<lambda>addrs.
     bind (any_contains i addrs) (\<lambda>found.
       if found then getAdapterInfoByIndex iface AF_INET else by_ip_loop ipStr i ifaces))"

definition ByIP :: "string \<Rightarrow> AdapterInfo op" where
  "ByIP ipStr =
     bind (ask (Win WNetInterfaces) (\<lambda>e h. o_NetInterfaces (e_win e) h)) (\<lambda>ifaces.
       by_ip_loop ipStr (ParseIP ipStr) ifaces)"

definition SetCurrentThreadCompartmentId :: "u32 \<Rightarrow> unit op" where
  "SetCurrentThreadCompartmentId c =
     ask (Win (WSetThreadCompartment c)) (\<lambda>e h. o_WinCall (e_win e) h (WSetThreadCompartment c))"

text \<open>\<open>GetIpInterfaceEntry\<close> fills in the row; the status is the low half of the register.\<close>

definition getIpInterfaceEntry :: "IpInterfaceRow \<Rightarrow> IpInterfaceRow op" where
  "getIpInterfaceEntry row =
     bind (query (Win (WGetIpInterfaceEntry row)) (\<lambda>e h. o_GetIpInterfaceEntry (e_win e) h row)) (\<lambda>(r0, row').
       if (ucast r0 :: u32) \<noteq> 0 then throw (Errorf (''GetIpInterfaceEntry: 0x'' @ hex (unat r0)))
       else ret row')"

definition setIpInterfaceEntry :: "IpInterfaceRow \<Rightarrow> unit op" where
  "setIpInterfaceEntry row =
     bind (query (Win (WSetIpInterfaceEntry row)) (\<lambda>e h. o_SetIpInterfaceEntry (e_win e) h row)) (\<lambda>r0.
       if (ucast r0 :: u32) \<noteq> 0 then throw (Errorf (''SetIpInterfaceEntry: 0x'' @ hex (unat r0)))
       else ret ())"

definition row_for :: "AdapterInfo \<Rightarrow> u32 \<Rightarrow> IpInterfaceRow" where
  "row_for info family = \<lparr>row_Family = family, row_InterfaceLuid = ai_LUID info, row_SitePrefixLength = 0, row_NlMtu = 0\<rparr>"

definition SetMTU :: "string \<Rightarrow> u32 \<Rightarrow> u32 \<Rightarrow> unit op" where
  "SetMTU name mtu family =
     bind (getAdapterInfoByName name family) (\<lambda>adapterInfo.
     deferring (SetCurrentThreadCompartmentId 0)
       (bind (SetCurrentThreadCompartmentId (ai_CompartmentId adapterInfo)) (\<lambda>_.
        bind (getIpInterfaceEntry (row_for adapterInfo family)) (\<lambda>row.
          setIpInterfaceEntry (row\<lparr>row_NlMtu := mtu, row_SitePrefixLength := 0\<rparr>)))))"

definition GetMTU :: "string \<Rightarrow> u32 \<Rightarrow> u32 op" where
  "GetMTU name family =
     bind (getAdapterInfoByName name family) (\<lambda>adapterInfo.
     deferring (SetCurrentThreadCompartmentId 0)
       (bind (SetCurrentThreadCompartmentId (ai_CompartmentId adapterInfo)) (\<lambda>_.
        bind (getIpInterfaceEntry (row_for adapterInfo family)) (\<lambda>row. ret (row_NlMtu row)))))"

definition InterfaceExists :: "string \<Rightarrow> bool op" where
  "InterfaceExists name =
     bind (attempt (getAdapterInfoByName name AF_UNSPEC)) (\<lambda>r. case r of
       Inl err \<Rightarrow> if is_InterfaceNotFoundError err then ret False else throw err
     | Inr _ \<Rightarrow> ret True)"

section \<open>Package mtu\<close>

record MtuSetter =
  mtu_containerId :: string
  mtu_networkName :: string

definition interfaceAlias :: "string \<Rightarrow> string" where
  "interfaceAlias n = ''vEthernet ('' @ n @ '')''"

text \<open>The MTU that an unset one (0) stands for is read from another adapter.\<close>

definition Mtu_SetContainer :: "MtuSetter \<Rightarrow> int \<Rightarrow> unit op" where
  "Mtu_SetContainer m mtu =
     bind (if mtu = 0 then
             bind (ByName (interfaceAlias (mtu_networkName m))) (\<lambda>adapterInfo.
             bind (GetMTU (ai_Name adapterInfo) AF_INET) (\<lambda>retMtu. ret (uint retMtu)))
           else ret mtu) (\<lambda>mtu'.
       SetMTU (interfaceAlias (mtu_containerId m)) (word_of_int mtu') AF_INET)"

definition Mtu_SetNat :: "MtuSetter \<Rightarrow> int \<Rightarrow> unit op" where
  "Mtu_SetNat m mtu =
     bind (if mtu = 0 then
             bind (ask (Win WLocalIP) (\<lambda>e h. o_LocalIP (e_win e) h)) (\<lambda>hostIP.
             bind (ByIP hostIP) (\<lambda>adapterInfo.
             bind (GetMTU (ai_Name adapterInfo) AF_INET) (\<lambda>retMtu. ret (uint retMtu))))
           else ret mtu) (\<lambda>mtu'.
       SetMTU (interfaceAlias (mtu_networkName m)) (word_of_int mtu') AF_INET)"

section \<open>What the operations leave alone\<close>

lemma adapters_log:
  "adapters family l w = (r, w') \<Longrightarrow>
   \<exists>evs. hist w' = hist w @ evs \<and> list_all (\<lambda>ev. \<exists>k. ev = Win (WGetAdaptersAddresses family GAA_FLAGS k)) evs
     \<and> w_env w' = w_env w \<and> files w' = files w \<and> dirs w' = dirs w"
proof (induction family l w arbitrary: r w' rule: adapters.induct)
  case (1 family l w)
  obtain err l' aas where o: "o_GetAdaptersAddresses (e_win (w_env w)) (hist w) family GAA_FLAGS l = (err, l', aas)"
    by (metis prod_cases3)
  let ?w = "log_event (Win (WGetAdaptersAddresses family GAA_FLAGS l)) w"
  consider (stop) "w' = ?w" | (again) m where "err = Some (Errno ERROR_BUFFER_OVERFLOW m)" "\<not> l' \<le> l" "adapters family l' ?w = (r, w')"
    using "1.prems" by (auto simp: adapters.simps [of family l w] o Let_def split: option.splits error.splits if_splits)
  then show ?case
  proof cases
    case again
    have ih: "\<exists>evs. hist w' = hist ?w @ evs
        \<and> list_all (\<lambda>ev. \<exists>k. ev = Win (WGetAdaptersAddresses family GAA_FLAGS k)) evs
        \<and> w_env w' = w_env ?w \<and> files w' = files ?w \<and> dirs w' = dirs ?w"
      using again o by (intro "1.IH") auto
    then show ?thesis by auto
  qed simp
qed

lemma frame_adapters [frame_intros]:
  assumes "\<And>ev w. f (log_event ev w) = f w"
  shows "frame f (adapters family l)"
proof (rule frameI)
  fix w r w' assume "adapters family l w = (r, w')"
  then show "f w' = f w"
  proof (induction family l w arbitrary: r w' rule: adapters.induct)
    case (1 family l w)
    obtain err l' aas where o: "o_GetAdaptersAddresses (e_win (w_env w)) (hist w) family GAA_FLAGS l = (err, l', aas)"
      by (metis prod_cases3)
    let ?w = "log_event (Win (WGetAdaptersAddresses family GAA_FLAGS l)) w"
    consider (stop) "w' = ?w"
      | (again) m where "err = Some (Errno ERROR_BUFFER_OVERFLOW m)" "\<not> l' \<le> l" "adapters family l' ?w = (r, w')"
      using "1.prems" by (auto simp: adapters.simps [of family l w] o Let_def split: option.splits error.splits if_splits)
    then show ?case
    proof cases
      case again
      then have "f w' = f ?w"
        using o by (intro "1.IH") auto
      then show ?thesis using assms by simp
    qed (simp add: assms)
  qed
qed

lemma frame_lookup [frame_intros]:
  assumes "\<And>ev w. f (log_event ev w) = f w"
  shows "frame f (getAdapterInfoByName name fam)" "frame f (getAdapterInfoByIndex i fam)"
    "frame f (InterfaceExists name)" "frame f (ByName name)"
  unfolding InterfaceExists_def ByName_def getAdapterInfoByName_def getAdapterInfoByIndex_def
  by (intro frame_intros assms)+

lemma frame_any_contains [frame_intros]: "frame f (any_contains i addrs)"
  by (induction addrs; simp only: any_contains.simps; (intro frame_intros; assumption?)+)

lemma frame_by_ip_loop:
  assumes "\<And>ev w. f (log_event ev w) = f w"
  shows "frame f (by_ip_loop s i ifaces)"
  by (induction ifaces; simp only: by_ip_loop.simps; (intro frame_intros assms; assumption?)+)

lemma frame_mtu [frame_intros]:
  assumes "\<And>ev w. f (log_event ev w) = f w"
  shows "frame f (SetMTU name mtu fam)" "frame f (GetMTU name fam)" "frame f (ByIP s)"
    "frame f (Mtu_SetContainer m k)" "frame f (Mtu_SetNat m k)"
proof -
  have set: "frame f (SetMTU name mtu fam)" and get: "frame f (GetMTU name fam)" for name mtu fam
    unfolding SetMTU_def GetMTU_def SetCurrentThreadCompartmentId_def getIpInterfaceEntry_def setIpInterfaceEntry_def
    by (intro frame_intros assms)+
  have ip: "frame f (ByIP s)" for s
    unfolding ByIP_def by (intro frame_intros frame_by_ip_loop assms)
  show "frame f (SetMTU name mtu fam)" "frame f (GetMTU name fam)" "frame f (ByIP s)"
    "frame f (Mtu_SetContainer m k)" "frame f (Mtu_SetNat m k)"
    unfolding Mtu_SetContainer_def Mtu_SetNat_def by (intro frame_intros set get ip assms)+
qed

lemma logs_adapters [logs_intros]:
  assumes "\<And>k. P (Win (WGetAdaptersAddresses family GAA_FLAGS k))"
  shows "logs P (adapters family l)"
proof (rule logsI)
  fix w r w' assume "adapters family l w = (r, w')"
  then obtain evs where "hist w' = hist w @ evs"
    "\<forall>ev \<in> set evs. \<exists>k. ev = Win (WGetAdaptersAddresses family GAA_FLAGS k)"
    by (auto dest!: adapters_log simp: list_all_iff)
  moreover from this(2) have "list_all P evs"
    unfolding list_all_iff using assms by metis
  ultimately show "\<exists>evs. hist w' = hist w @ evs \<and> list_all P evs"
    by blast
qed

lemma logs_lookup [logs_intros]:
  assumes "\<And>k fam. P (Win (WGetAdaptersAddresses fam GAA_FLAGS k))"
  shows "logs P (getAdapterInfoByName name fam)" "logs P (getAdapterInfoByIndex i fam)"
    "logs P (InterfaceExists name)" "logs P (ByName name)"
  unfolding getAdapterInfoByName_def getAdapterInfoByIndex_def InterfaceExists_def ByName_def
  by (intro logs_intros assms | simp add: getAdapterInfoByName_def)+

text \<open>
  The compartment the calls of a history left the thread in: the one last set, the host's
  (0) at the start.
\<close>

definition compartment :: "history \<Rightarrow> u32" where
  "compartment h = fold (\<lambda>ev c. case ev of Win (WSetThreadCompartment c') \<Rightarrow> c' | _ \<Rightarrow> c) h 0"

definition no_switch :: "event \<Rightarrow> bool" where
  "no_switch ev \<longleftrightarrow> (case ev of Win (WSetThreadCompartment _) \<Rightarrow> False | _ \<Rightarrow> True)"

lemma compartment_last: "compartment (h @ [Win (WSetThreadCompartment c)]) = c"
  by (simp add: compartment_def)

lemma compartment_keep: "list_all no_switch evs \<Longrightarrow> compartment (h @ evs) = compartment h"
proof (induction evs arbitrary: h)
  case (Cons ev evs)
  have "compartment (h @ [ev]) = compartment h"
    using Cons.prems by (auto simp: compartment_def no_switch_def split: event.splits win_call.splits)
  then show ?case
    using Cons.IH [of "h @ [ev]"] Cons.prems by simp
qed simp

lemma compartment_deferred:
  "deferring (SetCurrentThreadCompartmentId c) m w = (r, w') \<Longrightarrow> compartment (hist w') = c"
  by (auto simp: deferring_def SetCurrentThreadCompartmentId_def ask_def compartment_last
      split: prod.splits sum.splits outcome.splits)

lemma compartment_lookup:
  "getAdapterInfoByName name fam w = (r, w') \<Longrightarrow> compartment (hist w') = compartment (hist w)"
  using logsD [OF logs_lookup(1), of no_switch] compartment_keep by (fastforce simp: no_switch_def)

lemma compartment_in_host:
  assumes "compartment (hist w) = 0"
  shows "compartment (hist (snd (bind (getAdapterInfoByName name fam)
           (\<lambda>a. deferring (SetCurrentThreadCompartmentId 0) (g a)) w))) = 0"
proof (cases "bind (getAdapterInfoByName name fam) (\<lambda>a. deferring (SetCurrentThreadCompartmentId 0) (g a)) w")
  case (Pair r w')
  from Pair show ?thesis
  proof (cases rule: bind_cases)
    case (Ok x w1)
    then show ?thesis
      using compartment_deferred [OF Ok(2)] Pair by simp
  qed (use assms compartment_lookup Pair in auto)
qed

text \<open>
  C32: setting or reading an MTU never leaves the thread in a container's network
  compartment: whatever the outcome, it ends in the host's compartment if it began there.
\<close>

theorem mtu_restores_compartment:
  assumes "compartment (hist w) = 0"
  shows "compartment (hist (snd (SetMTU name mtu family w))) = 0
       \<and> compartment (hist (snd (GetMTU name family w))) = 0"
  unfolding SetMTU_def GetMTU_def by (intro conjI compartment_in_host assms)

theorem mtu_restores_compartment_witness:
  "compartment (hist (snd (SetMTU ''vEthernet (nat)'' 1460 2 quiet_world))) = 0
   \<and> compartment (hist (snd (GetMTU ''vEthernet (nat)'' 2 quiet_world))) = 0"
  by (rule mtu_restores_compartment) (simp add: quiet_world_def compartment_def)

end
