(* ===== verification/Network.thy ===== *)
theory Network
  imports Net_Applier Net_Interface
begin

text \<open>
  network/network.go: the configuration, the inputs and outputs of \<open>up\<close>, and the network
  manager over its three collaborators (rule applier, endpoint manager, MTU setter), which
  are records of operations, as the Go interfaces are.
\<close>

section \<open>Data\<close>

record Config =
  cfg_MTU :: int
  cfg_NetworkName :: string
  cfg_SubnetRange :: string
  cfg_GatewayAddress :: string
  cfg_DNSServers :: "string list"
  cfg_MaximumOutgoingBandwidth :: u64
  cfg_DNSSuffix :: "string list"
  cfg_AllowOutboundTrafficByDefault :: bool
  cfg_WaitTimeoutInSeconds :: int

record UpInputs =
  ui_Pid :: int
  ui_Properties :: "(string \<times> json) list"
  ui_NetOut :: "NetOut list"
  ui_NetIn :: "NetIn list"

definition IsEmpty :: "UpInputs \<Rightarrow> bool" where
  "IsEmpty u \<longleftrightarrow> length (ui_NetIn u) = 0 \<and> length (ui_NetOut u) = 0 \<and> length (ui_Properties u) = 0"

record UpOutputs =
  uo_ContainerIP :: string
  uo_DeprecatedHostIP :: string
  uo_MappedPorts :: string
  uo_DNSServers :: "string list"

section \<open>The collaborators\<close>

record NetRuleApplier =
  na_In :: "NetIn \<Rightarrow> string \<Rightarrow> (NatPolicy option \<times> ACLPolicy option) op"
  na_Out :: "NetOut \<Rightarrow> string \<Rightarrow> ACLPolicy option op"
  na_Cleanup :: "unit op"
  na_OpenPort :: "u32 \<Rightarrow> unit op"

record MtuIface =
  mt_SetNat :: "int \<Rightarrow> unit op"
  mt_SetContainer :: "int \<Rightarrow> unit op"

record EndpointIface =
  em_Create :: "HNSEndpoint op"
  em_Delete :: "unit op"
  em_ApplyPolicies :: "HNSEndpoint \<Rightarrow> NatPolicy list \<Rightarrow> ACLPolicy list \<Rightarrow> HNSEndpoint op"

record NetworkManager =
  nm_applier :: NetRuleApplier
  nm_endpointManager :: EndpointIface
  nm_containerId :: string
  nm_config :: Config
  nm_mtu :: MtuIface

definition NewNetworkManager ::
    "NetRuleApplier \<Rightarrow> EndpointIface \<Rightarrow> string \<Rightarrow> Config \<Rightarrow> MtuIface \<Rightarrow> NetworkManager" where
  "NewNetworkManager applier endpointManager containerId config mtu =
     \<lparr>nm_applier = applier, nm_endpointManager = endpointManager, nm_containerId = containerId,
      nm_config = config, nm_mtu = mtu\<rparr>"

section \<open>The host's NAT network\<close>

definition subnetsMatch :: "Subnet \<Rightarrow> Subnet \<Rightarrow> bool" where
  "subnetsMatch a b \<longleftrightarrow> AddressPrefix a = AddressPrefix b \<and> GatewayAddress a = GatewayAddress b"

definition CreateHostNATNetwork :: "NetworkManager \<Rightarrow> unit op" where
  "CreateHostNATNetwork n =
     (let config = nm_config n;
          subnet = \<lparr>AddressPrefix = cfg_SubnetRange config, GatewayAddress = cfg_GatewayAddress config\<rparr> in
      bind (attempt (GetHNSNetworkByName (cfg_NetworkName config))) (\<lambda>r. case r of
        Inr existing \<Rightarrow>
          (case nw_Subnets existing of
             [s] \<Rightarrow> if subnetsMatch s subnet then ret ()
                    else throw (NetworkError (SameNATNetworkNameError (cfg_NetworkName config) (nw_Subnets existing)))
           | _ \<Rightarrow> throw (NetworkError (SameNATNetworkNameError (cfg_NetworkName config) (nw_Subnets existing))))
      | Inl err \<Rightarrow>
          if \<not> is_NetworkNotFoundError err then throw err
          else (case find (\<lambda>suffix. contains_any suffix '', '') (cfg_DNSSuffix config) of
             Some suffix \<Rightarrow> throw (Errorf (''Invalid DNSSuffix. First invalid DNSSuffix: '' @ suffix))
           | None \<Rightarrow>
               let network = \<lparr>nw_Id = [], nw_Name = cfg_NetworkName config, nw_Type = ''nat'',
                              nw_Subnets = [subnet], nw_DNSSuffix = join '','' (cfg_DNSSuffix config)\<rparr>
               in bind (CreateNetwork network (InterfaceExists (interfaceAlias (nw_Name network)))) (\<lambda>_.
                  mt_SetNat (nm_mtu n) (cfg_MTU config)))))"

definition DeleteHostNATNetwork :: "NetworkManager \<Rightarrow> unit op" where
  "DeleteHostNATNetwork n =
     bind (attempt (GetHNSNetworkByName (cfg_NetworkName (nm_config n)))) (\<lambda>r. case r of
       Inl err \<Rightarrow> if is_NetworkNotFoundError err then ret () else throw err
     | Inr network \<Rightarrow> bind (DeleteNetwork network) (\<lambda>_. ret ()))"

section \<open>Up and Down\<close>

text \<open>One entry of the comma-separated application ports; \<open>uint32(p)\<close> keeps the low 32 bits.\<close>

definition open_port :: "NetworkManager \<Rightarrow> string \<Rightarrow> unit op" where
  "open_port n port =
     (case atoi port of
        Inl err \<Rightarrow> throw (Errorf (''Invalid port in input.Properties.ports: '' @ port @ '', error: '' @ err))
      | Inr p \<Rightarrow>
          bind (attempt (na_OpenPort (nm_applier n) (word_of_int p))) (\<lambda>r. case r of
            Inl err \<Rightarrow> throw (Errorf (''Failed to open port: '' @ itoa p @ '', error: '' @ Error err))
          | Inr _ \<Rightarrow> ret ()))"

definition open_ports :: "NetworkManager \<Rightarrow> (string \<times> json) list \<Rightarrow> unit op" where
  "open_ports n properties =
     (case map_of properties ''ports'' of
        None \<Rightarrow> ret ()
      | Some (JStr appPorts) \<Rightarrow>
          if 0 < length appPorts then forM (open_port n) (split_on (CHR '','') appPorts) else ret ()
      | Some other \<Rightarrow>
          bind (asks (\<lambda>e. o_FormatValue (e_lib e) other)) (\<lambda>v.
            throw (Errorf (''Invalid type input.Properties.ports: '' @ v))))"

definition dns_rules :: "string \<Rightarrow> NetOut list" where
  "dns_rules dnsServer =
     (let serverIP = ParseIP dnsServer;
          networks = [\<lparr>ipr_Start = serverIP, ipr_End = serverIP\<rparr>];
          ports = [\<lparr>pr_Start = 53, pr_End = 53\<rparr>]
      in [\<lparr>no_Protocol = ProtocolTCP, no_Networks = networks, no_Ports = ports\<rparr>,
          \<lparr>no_Protocol = ProtocolUDP, no_Networks = networks, no_Ports = ports\<rparr>])"

definition present :: "'a option list \<Rightarrow> 'a list" where
  "present xs = map the (filter (\<lambda>x. x \<noteq> None) xs)"

definition port_mapping :: "NatPolicy \<Rightarrow> PortMapping" where
  "port_mapping np = \<lparr>pm_HostPort = nat_ExternalPort np, pm_ContainerPort = nat_InternalPort np\<rparr>"

definition enc_mapping :: "PortMapping \<Rightarrow> json" where
  "enc_mapping m = JObj [(''HostPort'', enc_uint (pm_HostPort m)), (''ContainerPort'', enc_uint (pm_ContainerPort m))]"

definition up :: "NetworkManager \<Rightarrow> UpInputs \<Rightarrow> UpOutputs op" where
  "up n inputs =
     (let config = nm_config n in
      bind (em_Create (nm_endpointManager n)) (\<lambda>createdEndpoint.
      let containerIP = ip_String (ep_IPAddress createdEndpoint) in
      bind (mapM (\<lambda>rule. na_In (nm_applier n) rule containerIP) (ui_NetIn inputs)) (\<lambda>ins.
      let hnsNats = present (map fst ins) in
      bind (open_ports n (ui_Properties inputs)) (\<lambda>_.
      let netOut = ui_NetOut inputs @ concat (map dns_rules (cfg_DNSServers config)) in
      bind (mapM (\<lambda>rule. na_Out (nm_applier n) rule containerIP) netOut) (\<lambda>outs.
      let hnsAcls = present (map snd ins) @ present outs in
      bind (em_ApplyPolicies (nm_endpointManager n) createdEndpoint hnsNats hnsAcls) (\<lambda>_.
      bind (mt_SetContainer (nm_mtu n) (cfg_MTU config)) (\<lambda>_.
        ret \<lparr>uo_ContainerIP = containerIP, uo_DeprecatedHostIP = ''255.255.255.255'',
             uo_MappedPorts = print_json (JArr (map (\<lambda>np. enc_mapping (port_mapping np)) hnsNats)),
             uo_DNSServers = []\<rparr>)))))))"

definition Up :: "NetworkManager \<Rightarrow> UpInputs \<Rightarrow> UpOutputs op" where
  "Up n inputs =
     (let inputs' = (if IsEmpty inputs \<and> cfg_AllowOutboundTrafficByDefault (nm_config n)
                     then inputs\<lparr>ui_NetOut := [\<lparr>no_Protocol = ProtocolAll, no_Networks = [], no_Ports = []\<rparr>]\<rparr>
                     else inputs) in
      bind (attempt (up n inputs')) (\<lambda>r. case r of
        Inr outputs \<Rightarrow> ret outputs
      | Inl err \<Rightarrow>
          bind (ignore (na_Cleanup (nm_applier n))) (\<lambda>_.
          bind (ignore (em_Delete (nm_endpointManager n))) (\<lambda>_.
          throw err))))"

definition Down :: "NetworkManager \<Rightarrow> unit op" where
  "Down n =
     bind (attempt (em_Delete (nm_endpointManager n))) (\<lambda>deleted.
     bind (attempt (na_Cleanup (nm_applier n))) (\<lambda>cleaned.
       case (deleted, cleaned) of
         (Inl e1, Inl e2) \<Rightarrow> throw (Errorf (Error e1 @ '', '' @ Error e2))
       | (Inl e1, Inr _) \<Rightarrow> throw e1
       | (Inr _, Inl e2) \<Rightarrow> throw e2
       | (Inr _, Inr _) \<Rightarrow> ret ()))"

section \<open>The concrete applier and MTU setter as collaborators\<close>

definition applier_iface :: "Applier \<Rightarrow> NetRuleApplier" where
  "applier_iface a =
     \<lparr>na_In = (\<lambda>rule ip. bind (Applier_In a rule ip) (\<lambda>(np, acl). ret (Some np, Some acl))),
      na_Out = (\<lambda>rule ip. bind (Applier_Out a rule ip) (\<lambda>acl. ret (Some acl))),
      na_Cleanup = Applier_Cleanup a,
      na_OpenPort = Applier_OpenPort a\<rparr>"

definition mtu_iface :: "MtuSetter \<Rightarrow> MtuIface" where
  "mtu_iface m = \<lparr>mt_SetNat = Mtu_SetNat m, mt_SetContainer = Mtu_SetContainer m\<rparr>"

text \<open>The configuration the examples use.\<close>

definition example_config :: Config where
  "example_config = \<lparr>cfg_MTU = 1460, cfg_NetworkName = ''winc-nat'', cfg_SubnetRange = ''172.30.0.0/22'',
     cfg_GatewayAddress = ''172.30.0.1'', cfg_DNSServers = [], cfg_MaximumOutgoingBandwidth = 0,
     cfg_DNSSuffix = [], cfg_AllowOutboundTrafficByDefault = False, cfg_WaitTimeoutInSeconds = 10\<rparr>"

section \<open>Properties\<close>

lemma no_comma_suffix: "\<not> contains_any s '', '' \<Longrightarrow> CHR '','' \<notin> set s"
  by (auto simp: contains_any_def list_ex_iff)

text \<open>
  Creating the NAT network. A network of that name is never touched: it is accepted when
  its only subnet is the configured one and refused otherwise. If there is none, an invalid
  search domain stops the creation before HNS is called, and otherwise the network that is
  created carries the search domains as a list that splits back into the configured ones.
\<close>

theorem CreateHostNATNetwork_spec:
  "let config = nm_config n;
       subnet = \<lparr>AddressPrefix = cfg_SubnetRange config, GatewayAddress = cfg_GatewayAddress config\<rparr>
   in case GetHNSNetworkByName (cfg_NetworkName config) w of
        (Ok nw, w1) \<Rightarrow>
          CreateHostNATNetwork n w =
            ((if nw_Subnets nw = [subnet] then Ok ()
              else Err (NetworkError (SameNATNetworkNameError (cfg_NetworkName config) (nw_Subnets nw)))), w1)
      | (Err err, w1) \<Rightarrow>
          (if \<not> is_NetworkNotFoundError err then CreateHostNATNetwork n w = (Err err, w1)
           else if \<exists>s \<in> set (cfg_DNSSuffix config). contains_any s '', '' then \<exists>m. CreateHostNATNetwork n w = (Err (Errorf m), w1)
           else \<exists>network. CreateHostNATNetwork n w =
                  bind (CreateNetwork network (InterfaceExists (interfaceAlias (nw_Name network))))
                    (\<lambda>_. mt_SetNat (nm_mtu n) (cfg_MTU config)) w1
                \<and> nw_Name network = cfg_NetworkName config \<and> nw_Subnets network = [subnet]
                \<and> (cfg_DNSSuffix config = [] \<or> split_on (CHR '','') (nw_DNSSuffix network) = cfg_DNSSuffix config))
      | (Panic s, w1) \<Rightarrow> False"
proof -
  have match: "subnetsMatch s t \<longleftrightarrow> s = t" for s t
    by (cases s; cases t) (simp add: subnetsMatch_def)
  let ?config = "nm_config n"
  obtain r w1 where get: "GetHNSNetworkByName (cfg_NetworkName ?config) w = (r, w1)"
    by (cases "GetHNSNetworkByName (cfg_NetworkName ?config) w")
  show ?thesis
  proof (cases r)
    case (Ok nw)
    then show ?thesis
      using get by (auto simp: CreateHostNATNetwork_def Let_def bind_def attempt_def match split: list.split)
  next
    case (Err err)
    have found: "\<exists>s. find P xs = Some s" if "\<exists>s \<in> set xs. P s" for P and xs :: "string list"
      using that by (auto simp: find_None_iff simp flip: not_None_eq)
    have none: "find (\<lambda>s. contains_any s '', '') (cfg_DNSSuffix ?config) = None"
      if "\<not> (\<exists>s \<in> set (cfg_DNSSuffix ?config). contains_any s '', '')"
      using that by (auto simp: find_None_iff)
    have split: "cfg_DNSSuffix ?config = [] \<or> split_on (CHR '','') (join '','' (cfg_DNSSuffix ?config)) = cfg_DNSSuffix ?config"
      if "\<not> (\<exists>s \<in> set (cfg_DNSSuffix ?config). contains_any s '', '')"
      using that no_comma_suffix split_on_join [of "cfg_DNSSuffix ?config" "CHR '',''"] by blast
    show ?thesis
    proof (cases "\<exists>s \<in> set (cfg_DNSSuffix ?config). contains_any s '', ''")
      case True
      then show ?thesis
        using found [OF True] get Err by (auto simp: CreateHostNATNetwork_def Let_def bind_def attempt_def)
    next
      case False
      then show ?thesis
        using get Err split [OF False]
        by (auto simp: CreateHostNATNetwork_def Let_def bind_def attempt_def none [OF False]
            intro!: exI [of _ "\<lparr>nw_Id = [], nw_Name = cfg_NetworkName ?config, nw_Type = ''nat'',
              nw_Subnets = [\<lparr>AddressPrefix = cfg_SubnetRange ?config, GatewayAddress = cfg_GatewayAddress ?config\<rparr>],
              nw_DNSSuffix = join '','' (cfg_DNSSuffix ?config)\<rparr>"])
    qed
  next
    case (Panic s)
    then show ?thesis
      using get no_panicD [OF no_panic_hns_calls(9)] by blast
  qed
qed

end
