(* ===== verification/Endpoint.thy ===== *)
theory Endpoint
  imports Network
begin

text \<open>
  network/endpoint/endpoint.go: creating a container's endpoint (with retries), attaching it,
  writing its policies and removing it.
\<close>

section \<open>Policies as JSON\<close>

text \<open>\<open>omitempty\<close>: a field with the zero value is left out.\<close>

definition opt_str :: "string \<Rightarrow> string \<Rightarrow> (string \<times> json) list" where
  "opt_str k v = (if v = [] then [] else [(k, JStr v)])"

definition opt_uint :: "string \<Rightarrow> 'a::len word \<Rightarrow> (string \<times> json) list" where
  "opt_uint k v = (if v = 0 then [] else [(k, enc_uint v)])"

definition enc_acl :: "ACLPolicy \<Rightarrow> json" where
  "enc_acl a = JObj ([(''Type'', JStr (acl_Type a))] @ opt_uint ''Protocol'' (acl_Protocol a)
     @ [(''Action'', JStr (acl_Action a)), (''Direction'', JStr (acl_Direction a))]
     @ opt_str ''LocalAddresses'' (acl_LocalAddresses a) @ opt_str ''RemoteAddresses'' (acl_RemoteAddresses a)
     @ opt_str ''LocalPorts'' (acl_LocalPorts a) @ opt_str ''RemotePorts'' (acl_RemotePorts a))"

definition enc_nat :: "NatPolicy \<Rightarrow> json" where
  "enc_nat n = JObj ([(''Type'', JStr (nat_Type n))] @ opt_str ''Protocol'' (nat_Protocol n)
     @ opt_uint ''InternalPort'' (nat_InternalPort n) @ opt_uint ''ExternalPort'' (nat_ExternalPort n))"

definition enc_qos :: "u64 \<Rightarrow> json" where
  "enc_qos b = JObj [(''Type'', JStr ''QOS''), (''MaximumOutgoingBandwidthInBytes'', enc_uint b)]"

section \<open>The manager\<close>

record EndpointManager =
  en_containerId :: string
  en_config :: Config

definition NewEndpointManager :: "string \<Rightarrow> Config \<Rightarrow> EndpointManager" where
  "NewEndpointManager containerId config = \<lparr>en_containerId = containerId, en_config = config\<rparr>"

definition hns_unspecified :: string where
  "hns_unspecified = ''HNS failed with error : Unspecified error''"

fun create_endpoint_tries :: "nat \<Rightarrow> HNSEndpoint \<Rightarrow> error \<Rightarrow> HNSEndpoint op" where
  "create_endpoint_tries 0 endpoint err = throw err"
| "create_endpoint_tries (Suc k) endpoint err =
     bind (attempt (CreateEndpoint endpoint)) (\<lambda>r. case r of
       Inr created \<Rightarrow> ret created
     | Inl e \<Rightarrow> if Error e \<noteq> hns_unspecified then throw e else create_endpoint_tries k endpoint e)"

definition createEndpoint :: "EndpointManager \<Rightarrow> HNSEndpoint \<Rightarrow> HNSEndpoint op" where
  "createEndpoint e endpoint = create_endpoint_tries 3 endpoint (Errorf [])"

definition attachEndpoint :: "EndpointManager \<Rightarrow> HNSEndpoint \<Rightarrow> HNSEndpoint op" where
  "attachEndpoint e endpoint =
     bind (HotAttachEndpoint (en_containerId e) (ep_Id endpoint)
             (InterfaceExists (interfaceAlias (en_containerId e)))) (\<lambda>_.
     GetHNSEndpointByID (ep_Id endpoint))"

definition Endpoint_Create :: "EndpointManager \<Rightarrow> HNSEndpoint op" where
  "Endpoint_Create e =
     (let config = en_config e in
      bind (GetHNSNetworkByName (cfg_NetworkName config)) (\<lambda>network.
      let endpoint = \<lparr>ep_Id = [], ep_Name = en_containerId e, ep_VirtualNetwork = nw_Id network,
            ep_Policies = (if cfg_MaximumOutgoingBandwidth config \<noteq> 0
                           then [print_json (enc_qos (cfg_MaximumOutgoingBandwidth config))] else []),
            ep_IPAddress = [],
            ep_DNSServerList = (if 0 < length (cfg_DNSServers config) then join '','' (cfg_DNSServers config) else [])\<rparr> in
      bind (createEndpoint e endpoint) (\<lambda>createdEndpoint.
      bind (attempt (attachEndpoint e createdEndpoint)) (\<lambda>r. case r of
        Inl err \<Rightarrow> bind (ignore (DeleteEndpoint createdEndpoint)) (\<lambda>_. throw err)
      | Inr attachedEndpoint \<Rightarrow> ret attachedEndpoint))))"

definition block_all :: "string \<Rightarrow> ACLPolicy" where
  "block_all dir =
     \<lparr>acl_Type = ''ACL'', acl_Protocol = word_of_int NET_FW_IP_PROTOCOL_ANY, acl_Action = ''Block'', acl_Direction = dir,
      acl_LocalAddresses = [], acl_RemoteAddresses = [], acl_LocalPorts = [], acl_RemotePorts = []\<rparr>"

definition ApplyPolicies :: "EndpointManager \<Rightarrow> HNSEndpoint \<Rightarrow> NatPolicy list \<Rightarrow> ACLPolicy list \<Rightarrow> HNSEndpoint op" where
  "ApplyPolicies e endpoint nats acls =
     (let acls' = (if length acls = 0 then [block_all ''Out'', block_all ''In''] else acls);
          policies = map (\<lambda>acl. print_json (enc_acl acl)) acls' @ map (\<lambda>np. print_json (enc_nat np)) nats
      in UpdateEndpoint (endpoint\<lparr>ep_Policies := ep_Policies endpoint @ policies\<rparr>))"

definition ErrComputeSystemDoesNotExist :: u32 where
  "ErrComputeSystemDoesNotExist = 0xc037010e"

definition Endpoint_Delete :: "EndpointManager \<Rightarrow> unit op" where
  "Endpoint_Delete e =
     bind (attempt (GetHNSEndpointByName (en_containerId e))) (\<lambda>r. case r of
       Inl err \<Rightarrow> if is_EndpointNotFoundError err then ret () else throw err
     | Inr endpoint \<Rightarrow>
         bind (attempt (HotDetachEndpoint (en_containerId e) (ep_Id endpoint))) (\<lambda>detached.
         let detachErr = (case detached of
               Inl err \<Rightarrow> if is_errno ErrComputeSystemDoesNotExist err then None else Some err
             | Inr _ \<Rightarrow> None) in
         bind (attempt (DeleteEndpoint endpoint)) (\<lambda>deleted.
           case (detachErr, deleted) of
             (Some e1, Inl e2) \<Rightarrow> throw (Errorf (Error e1 @ '', '' @ Error e2))
           | (Some e1, Inr _) \<Rightarrow> throw e1
           | (None, Inl e2) \<Rightarrow> throw e2
           | (None, Inr _) \<Rightarrow> ret ())))"

definition endpoint_iface :: "EndpointManager \<Rightarrow> EndpointIface" where
  "endpoint_iface e =
     \<lparr>em_Create = Endpoint_Create e, em_Delete = Endpoint_Delete e, em_ApplyPolicies = ApplyPolicies e\<rparr>"

section \<open>What the operations leave alone\<close>

lemma frame_create_endpoint_tries [frame_intros]:
  assumes "\<And>ev w. f (log_event ev w) = f w"
  shows "frame f (create_endpoint_tries k ep err)"
  by (induction k arbitrary: err) (auto intro!: frame_intros assms)

lemma frame_endpoint [frame_intros]:
  assumes "\<And>ev w. f (log_event ev w) = f w"
  shows "frame f (Endpoint_Create e)" "frame f (Endpoint_Delete e)" "frame f (ApplyPolicies e ep nats acls)"
  unfolding Endpoint_Create_def Endpoint_Delete_def ApplyPolicies_def createEndpoint_def attachEndpoint_def
  by (intro frame_intros assms)+

lemma no_panic_Endpoint_Delete [safe_intros]: "no_panic (Endpoint_Delete e)"
  unfolding Endpoint_Delete_def by (intro safe_intros)

section \<open>Properties\<close>

lemma CreateEndpoint_log:
  "CreateEndpoint ep w = (r, w') \<Longrightarrow> w' = log_event (Hns (NCreateEndpoint ep)) w"
  by (auto simp: CreateEndpoint_def ask_def)

lemma CreateEndpoint_no_panic: "CreateEndpoint ep w \<noteq> (Panic s, w')"
  by (auto simp: CreateEndpoint_def ask_def split: sum.splits)

text \<open>
  An endpoint is tried at most three times, one call after the other with nothing in
  between, and a second or third time only after the error text \<open>createEndpoint\<close> looks for.
\<close>

theorem createEndpoint_tries:
  assumes "createEndpoint e ep w = (r, w')"
  shows "\<exists>n. 1 \<le> n \<and> n \<le> 3 \<and> hist w' = hist w @ replicate n (Hns (NCreateEndpoint ep))
     \<and> (n = 1 \<or> (\<exists>err. o_CreateEndpoint (e_hns (w_env w)) (hist w) ep = Inl err \<and> Error err = hns_unspecified))"
proof -
  have step: "\<exists>n. n \<le> k \<and> (0 < k \<longrightarrow> 1 \<le> n) \<and> hist w' = hist w @ replicate n (Hns (NCreateEndpoint ep))
     \<and> (n \<le> 1 \<or> (\<exists>err. o_CreateEndpoint (e_hns (w_env w)) (hist w) ep = Inl err \<and> Error err = hns_unspecified))"
    if "create_endpoint_tries k ep err0 w = (r, w')" for k err0 w
    using that
  proof (induction k arbitrary: err0 w)
    case (Suc k)
    let ?w = "log_event (Hns (NCreateEndpoint ep)) w"
    show ?case
    proof (cases "o_CreateEndpoint (e_hns (w_env w)) (hist w) ep")
      case (Inr created)
      then have "w' = ?w"
        using Suc.prems by (auto simp: bind_def attempt_def CreateEndpoint_def ask_def)
      then show ?thesis by (intro exI [of _ 1]) simp
    next
      case (Inl err)
      show ?thesis
      proof (cases "Error err = hns_unspecified")
        case True
        then have "create_endpoint_tries k ep err ?w = (r, w')"
          using Suc.prems Inl by (auto simp: bind_def attempt_def CreateEndpoint_def ask_def)
        from Suc.IH [OF this] obtain n where "n \<le> k" "hist w' = hist ?w @ replicate n (Hns (NCreateEndpoint ep))"
          by blast
        then show ?thesis
          using Inl True by (intro exI [of _ "Suc n"]) simp
      next
        case False
        then have "w' = ?w"
          using Suc.prems Inl by (auto simp: bind_def attempt_def CreateEndpoint_def ask_def)
        then show ?thesis by (intro exI [of _ 1]) simp
      qed
    qed
  qed simp
  show ?thesis
    using step [of 3 "Errorf []" w] assms unfolding createEndpoint_def by (auto simp: le_antisym)
qed

theorem createEndpoint_tries_witness:
  "let e = NewEndpointManager ''c'' example_config;
       ep = \<lparr>ep_Id = [], ep_Name = ''c'', ep_VirtualNetwork = [], ep_Policies = [], ep_IPAddress = [], ep_DNSServerList = []\<rparr>
   in \<exists>n. 1 \<le> n \<and> n \<le> 3 \<and> hist (snd (createEndpoint e ep quiet_world)) = replicate n (Hns (NCreateEndpoint ep))"
  using createEndpoint_tries [of "NewEndpointManager ''c'' example_config" _ quiet_world]
  by (simp add: Let_def prod_eq_iff quiet_world_def) (metis append_Nil)

text \<open>
  The retry never happens with the version of hcsshim that winc is built with: its HNS
  errors read \<open>hns failed with error : ...\<close>, in lower case, and \<open>createEndpoint\<close> compares with
  \<open>HNS failed with error : Unspecified error\<close>. Such an error is returned after one call.
\<close>

theorem createEndpoint_retry_unreachable:
  assumes "o_CreateEndpoint (e_hns (w_env w)) (hist w) ep = Inl err" and "Error err = ''hns failed with error : '' @ s"
  shows "createEndpoint e ep w = (Err err, log_event (Hns (NCreateEndpoint ep)) w)"
  using assms by (simp add: createEndpoint_def numeral_3_eq_3 bind_def attempt_def CreateEndpoint_def ask_def hns_unspecified_def)

definition failing_hns :: world where
  "failing_hns = quiet_world\<lparr>w_env := quiet_env\<lparr>e_hns := quiet_hns\<lparr>
     o_CreateEndpoint := (\<lambda>_ _. Inl (OtherError ''hns failed with error : Unspecified error''))\<rparr>\<rparr>\<rparr>"

theorem createEndpoint_retry_unreachable_witness:
  "let ep = \<lparr>ep_Id = [], ep_Name = ''c'', ep_VirtualNetwork = [], ep_Policies = [], ep_IPAddress = [], ep_DNSServerList = []\<rparr>
   in createEndpoint (NewEndpointManager ''c'' example_config) ep failing_hns
      = (Err (OtherError ''hns failed with error : Unspecified error''), log_event (Hns (NCreateEndpoint ep)) failing_hns)"
  unfolding Let_def
  by (rule createEndpoint_retry_unreachable [where s = "''Unspecified error''"]) (simp_all add: failing_hns_def)

definition endpoint_request :: "EndpointManager \<Rightarrow> HNSNetwork \<Rightarrow> HNSEndpoint" where
  "endpoint_request e network =
     \<lparr>ep_Id = [], ep_Name = en_containerId e, ep_VirtualNetwork = nw_Id network,
      ep_Policies = (if cfg_MaximumOutgoingBandwidth (en_config e) \<noteq> 0
                     then [print_json (enc_qos (cfg_MaximumOutgoingBandwidth (en_config e)))] else []),
      ep_IPAddress = [],
      ep_DNSServerList = (if 0 < length (cfg_DNSServers (en_config e)) then join '','' (cfg_DNSServers (en_config e)) else [])\<rparr>"

lemma Endpoint_Create_alt:
  "Endpoint_Create e =
     bind (GetHNSNetworkByName (cfg_NetworkName (en_config e))) (\<lambda>network.
     bind (createEndpoint e (endpoint_request e network)) (\<lambda>createdEndpoint.
     bind (attempt (attachEndpoint e createdEndpoint)) (\<lambda>r. case r of
       Inl err \<Rightarrow> bind (ignore (DeleteEndpoint createdEndpoint)) (\<lambda>_. throw err)
     | Inr attachedEndpoint \<Rightarrow> ret attachedEndpoint)))"
  by (simp add: Endpoint_Create_def endpoint_request_def Let_def)

text \<open>
  C12: a failed \<open>Create\<close> leaves no endpoint behind: if an endpoint had been created when the
  error came up, the last call made asks HNS to delete that endpoint, and the error
  returned is the one of the attachment.
\<close>

theorem Endpoint_Create_no_leak:
  assumes "GetHNSNetworkByName (cfg_NetworkName (en_config e)) w = (Ok network, w1)"
    and "createEndpoint e (endpoint_request e network) w1 = (Ok created, w2)"
    and "Endpoint_Create e w = (Err err, w')"
  shows "\<exists>w3. attachEndpoint e created w2 = (Err err, w3) \<and> hist w' = hist w3 @ [Hns (NDeleteEndpoint created)]"
proof -
  have "bind (attempt (attachEndpoint e created)) (\<lambda>r. case r of
       Inl err \<Rightarrow> bind (ignore (DeleteEndpoint created)) (\<lambda>_. throw err)
     | Inr attachedEndpoint \<Rightarrow> ret attachedEndpoint) w2 = (Err err, w')"
    using assms by (simp add: Endpoint_Create_alt bind_def split: prod.splits)
  then show ?thesis
    by (auto simp: bind_def attempt_def ignore_def DeleteEndpoint_def ask_def split: prod.splits outcome.splits sum.splits)
qed

definition attach_fails :: world where
  "attach_fails = quiet_world\<lparr>w_env := quiet_env\<lparr>e_hns := quiet_hns\<lparr>
     o_GetNetworkByName := (\<lambda>_ n. Inr \<lparr>nw_Id = ''n1'', nw_Name = n, nw_Type = ''nat'', nw_Subnets = [], nw_DNSSuffix = []\<rparr>),
     o_HotAttach := (\<lambda>_ _ _. Inl (OtherError ''no such container''))\<rparr>\<rparr>\<rparr>"

theorem Endpoint_Create_no_leak_witness:
  "\<exists>ep h. hist (snd (Endpoint_Create (NewEndpointManager ''c'' example_config) attach_fails)) = h @ [Hns (NDeleteEndpoint ep)]
     \<and> fst (Endpoint_Create (NewEndpointManager ''c'' example_config) attach_fails) = Err (OtherError ''no such container'')"
proof -
  let ?e = "NewEndpointManager ''c'' example_config"
  let ?nw = "\<lparr>nw_Id = ''n1'', nw_Name = ''winc-nat'', nw_Type = ''nat'', nw_Subnets = [], nw_DNSSuffix = []\<rparr>"
  let ?w1 = "log_event (Hns (NGetNetworkByName ''winc-nat'')) attach_fails"
  have a: "GetHNSNetworkByName (cfg_NetworkName (en_config ?e)) attach_fails = (Ok ?nw, ?w1)"
    by (simp add: GetHNSNetworkByName_def ask_def attach_fails_def NewEndpointManager_def example_config_def)
  have b: "createEndpoint ?e (endpoint_request ?e ?nw) ?w1
      = (Ok (endpoint_request ?e ?nw), log_event (Hns (NCreateEndpoint (endpoint_request ?e ?nw))) ?w1)"
    by (simp add: createEndpoint_def numeral_3_eq_3 bind_def attempt_def CreateEndpoint_def ask_def attach_fails_def quiet_defs)
  have "fst (Endpoint_Create ?e attach_fails) = Err (OtherError ''no such container'')"
    using a b by (simp add: Endpoint_Create_alt bind_def attempt_def attachEndpoint_def HotAttachEndpoint_def ask_def
        ignore_def DeleteEndpoint_def attach_fails_def quiet_defs)
  then obtain w' where c: "Endpoint_Create ?e attach_fails = (Err (OtherError ''no such container''), w')"
    by (metis prod.collapse)
  show ?thesis
    using Endpoint_Create_no_leak [OF a b c] c by auto
qed

text \<open>
  \<open>Delete\<close> of a container that has no endpoint succeeds; of one that has an endpoint it
  always asks HNS to delete it, also when detaching failed, and it succeeds exactly when
  the endpoint was deleted and the detaching either worked or found no compute system.
\<close>

theorem Endpoint_Delete_spec:
  "case GetHNSEndpointByName (en_containerId e) w of
     (Ok ep, w1) \<Rightarrow>
       (case HotDetachEndpoint (en_containerId e) (ep_Id ep) w1 of (detached, w2) \<Rightarrow>
        case DeleteEndpoint ep w2 of (deleted, w3) \<Rightarrow>
          snd (Endpoint_Delete e w) = w3
          \<and> (fst (Endpoint_Delete e w) = Ok () \<longleftrightarrow>
               (\<exists>d. deleted = Ok d)
               \<and> (detached = Ok () \<or> (\<exists>err. detached = Err err \<and> is_errno 0xc037010e err))))
   | (Err err, w1) \<Rightarrow>
       Endpoint_Delete e w = ((if is_EndpointNotFoundError err then Ok () else Err err), w1)
   | (Panic s, w1) \<Rightarrow> False"
  by (auto simp: Endpoint_Delete_def GetHNSEndpointByName_def HotDetachEndpoint_def DeleteEndpoint_def
      ErrComputeSystemDoesNotExist_def bind_def attempt_def ask_def split: sum.splits)

text \<open>
  The policies that reach HNS. \<open>ApplyPolicies\<close> makes one update whose policies are the
  endpoint's own, then the access rules, then the port mappings, and the two rules that
  block all traffic are added exactly when there is no access rule at all. Each policy
  text is JSON that decodes to the policy it was made from.
\<close>

theorem ApplyPolicies_spec:
  "\<exists>ps. snd (ApplyPolicies e ep nats acls w)
          = log_event (Hns (NUpdateEndpoint (ep\<lparr>ep_Policies := ep_Policies ep @ map print_json ps\<rparr>))) w
      \<and> ps = (if acls = [] then [enc_acl (block_all ''Out''), enc_acl (block_all ''In'')] else map enc_acl acls) @ map enc_nat nats
      \<and> map (\<lambda>p. unmarshal_json (print_json p)) ps = map Some ps"
proof -
  have wf: "wf_json (enc_acl a)" "wf_json (enc_nat n)" for a n
    by (simp_all add: enc_acl_def enc_nat_def opt_str_def opt_uint_def)
  let ?ps = "(if acls = [] then [enc_acl (block_all ''Out''), enc_acl (block_all ''In'')] else map enc_acl acls) @ map enc_nat nats"
  have "snd (ApplyPolicies e ep nats acls w)
      = log_event (Hns (NUpdateEndpoint (ep\<lparr>ep_Policies := ep_Policies ep @ map print_json ?ps\<rparr>))) w"
    by (simp add: ApplyPolicies_def Let_def UpdateEndpoint_def ask_def comp_def)
  moreover have "map (\<lambda>p. unmarshal_json (print_json p)) ?ps = map Some ?ps"
    using wf by (simp add: unmarshal_print)
  ultimately show ?thesis by blast
qed

end
