(* ===== verification/Cmd_Network.thy ===== *)
theory Cmd_Network
  imports Endpoint Go_Path
begin

text \<open>
  cmd/winc-network/main.go: the command line of winc-network, the decoding of its
  configuration and of the rules on its standard input, and the wiring of the network
  manager. With the concrete collaborators in place, the lemmas follow the ports of a
  container through a failed \<open>up\<close> and through \<open>down\<close>.
\<close>

section \<open>Decoding\<close>

definition zero_Config :: Config where
  "zero_Config = \<lparr>cfg_MTU = 0, cfg_NetworkName = [], cfg_SubnetRange = [], cfg_GatewayAddress = [],
     cfg_DNSServers = [], cfg_MaximumOutgoingBandwidth = 0, cfg_DNSSuffix = [],
     cfg_AllowOutboundTrafficByDefault = False, cfg_WaitTimeoutInSeconds = 0\<rparr>"

definition config_fields :: "Config fields" where
  "config_fields =
     [(''mtu'', field cfg_MTU (\<lambda>x r. r\<lparr>cfg_MTU := x\<rparr>) dec_int),
      (''network_name'', field cfg_NetworkName (\<lambda>x r. r\<lparr>cfg_NetworkName := x\<rparr>) dec_str),
      (''subnet_range'', field cfg_SubnetRange (\<lambda>x r. r\<lparr>cfg_SubnetRange := x\<rparr>) dec_str),
      (''gateway_address'', field cfg_GatewayAddress (\<lambda>x r. r\<lparr>cfg_GatewayAddress := x\<rparr>) dec_str),
      (''dns_servers'', field cfg_DNSServers (\<lambda>x r. r\<lparr>cfg_DNSServers := x\<rparr>) (dec_slice dec_str [])),
      (''maximum_outgoing_bandwidth'',
         field cfg_MaximumOutgoingBandwidth (\<lambda>x r. r\<lparr>cfg_MaximumOutgoingBandwidth := x\<rparr>) dec_uint),
      (''search_domains'', field cfg_DNSSuffix (\<lambda>x r. r\<lparr>cfg_DNSSuffix := x\<rparr>) (dec_slice dec_str [])),
      (''allow_outbound_traffic_by_default'',
         field cfg_AllowOutboundTrafficByDefault (\<lambda>x r. r\<lparr>cfg_AllowOutboundTrafficByDefault := x\<rparr>) dec_bool),
      (''wait_timeout_in_seconds'',
         field cfg_WaitTimeoutInSeconds (\<lambda>x r. r\<lparr>cfg_WaitTimeoutInSeconds := x\<rparr>) dec_int)]"

text \<open>\<open>net.IP\<close> is decoded from text: the empty text is nil, any other must be an address.\<close>

definition dec_ip :: "ip decoder" where
  "dec_ip old j = (case j of
       JNull \<Rightarrow> Some old
     | JStr s \<Rightarrow> if s = [] then Some [] else if ParseIP s = [] then None else Some (ParseIP s)
     | _ \<Rightarrow> None)"

definition dec_IPRange :: "IPRange decoder" where
  "dec_IPRange = dec_struct
     [(''start'', field ipr_Start (\<lambda>x r. r\<lparr>ipr_Start := x\<rparr>) dec_ip),
      (''end'', field ipr_End (\<lambda>x r. r\<lparr>ipr_End := x\<rparr>) dec_ip)]"

definition dec_PortRange :: "PortRange decoder" where
  "dec_PortRange = dec_struct
     [(''start'', field pr_Start (\<lambda>x r. r\<lparr>pr_Start := x\<rparr>) dec_uint),
      (''end'', field pr_End (\<lambda>x r. r\<lparr>pr_End := x\<rparr>) dec_uint)]"

definition dec_NetIn :: "NetIn decoder" where
  "dec_NetIn = dec_struct
     [(''host_port'', field ni_HostPort (\<lambda>x r. r\<lparr>ni_HostPort := x\<rparr>) dec_uint),
      (''container_port'', field ni_ContainerPort (\<lambda>x r. r\<lparr>ni_ContainerPort := x\<rparr>) dec_uint)]"

definition dec_NetOut :: "NetOut decoder" where
  "dec_NetOut = dec_struct
     [(''protocol'', field no_Protocol (\<lambda>x r. r\<lparr>no_Protocol := x\<rparr>) dec_uint),
      (''networks'', field no_Networks (\<lambda>x r. r\<lparr>no_Networks := x\<rparr>)
          (dec_slice dec_IPRange \<lparr>ipr_Start = [], ipr_End = []\<rparr>)),
      (''ports'', field no_Ports (\<lambda>x r. r\<lparr>no_Ports := x\<rparr>) (dec_slice dec_PortRange \<lparr>pr_Start = 0, pr_End = 0\<rparr>))]"

definition dec_any :: "json decoder" where
  "dec_any old j = Some j"

definition upinputs_fields :: "UpInputs fields" where
  "upinputs_fields =
     [(''Pid'', field ui_Pid (\<lambda>x r. r\<lparr>ui_Pid := x\<rparr>) dec_int),
      (''Properties'', field ui_Properties (\<lambda>x r. r\<lparr>ui_Properties := x\<rparr>) (dec_map dec_any JNull)),
      (''netout_rules'', field ui_NetOut (\<lambda>x r. r\<lparr>ui_NetOut := x\<rparr>)
          (dec_slice dec_NetOut \<lparr>no_Protocol = 0, no_Networks = [], no_Ports = []\<rparr>)),
      (''netin'', field ui_NetIn (\<lambda>x r. r\<lparr>ui_NetIn := x\<rparr>)
          (dec_slice dec_NetIn \<lparr>ni_HostPort = 0, ni_ContainerPort = 0\<rparr>))]"

definition zero_UpInputs :: UpInputs where
  "zero_UpInputs = \<lparr>ui_Pid = 0, ui_Properties = [], ui_NetOut = [], ui_NetIn = []\<rparr>"

text \<open>An empty standard input is \<open>io.EOF\<close>, which is an error here.\<close>

definition decode_UpInputs :: "string \<Rightarrow> UpInputs op" where
  "decode_UpInputs stdin0 =
     bind (asks (\<lambda>e. o_JsonMessage (e_lib e) stdin0)) (\<lambda>msg.
       if skip_ws stdin0 = [] then throw (OtherError ''EOF'')
       else case decode_json stdin0 of
              None \<Rightarrow> throw (JsonError msg)
            | Some (j, _) \<Rightarrow> (case dec_struct upinputs_fields zero_UpInputs j of
                None \<Rightarrow> throw (JsonError msg)
              | Some inputs \<Rightarrow> ret inputs))"

definition enc_UpOutputs :: "UpOutputs \<Rightarrow> json" where
  "enc_UpOutputs u = JObj ([(''properties'', JObj
       [(''garden.network.container-ip'', JStr (uo_ContainerIP u)),
        (''garden.network.host-ip'', JStr (uo_DeprecatedHostIP u)),
        (''garden.network.mapped-ports'', JStr (uo_MappedPorts u))])]
     @ (if uo_DNSServers u = [] then [] else [(''dns_servers'', JArr (map JStr (uo_DNSServers u)))]))"

definition parseConfig :: "string \<Rightarrow> Config op" where
  "parseConfig configFile =
     (if configFile \<noteq> [] then
        bind (ReadFile configFile) (\<lambda>content.
        bind (asks (\<lambda>e. o_JsonMessage (e_lib e) content)) (\<lambda>msg.
          case unmarshal_json content of
            None \<Rightarrow> throw (JsonError msg)
          | Some j \<Rightarrow> (case dec_struct config_fields zero_Config j of
              None \<Rightarrow> throw (JsonError msg)
            | Some config \<Rightarrow> ret config)))
      else ret zero_Config)"

section \<open>Wiring\<close>

definition wireApplier :: "Runner \<Rightarrow> string \<Rightarrow> PortAllocator \<Rightarrow> NetRuleApplier" where
  "wireApplier runner handle portAllocator = applier_iface (NewApplier runner handle portAllocator)"

definition wireEndpointManager :: "string \<Rightarrow> Config \<Rightarrow> EndpointIface" where
  "wireEndpointManager handle config = endpoint_iface (NewEndpointManager handle config)"

definition wireNetworkManager :: "Config \<Rightarrow> string \<Rightarrow> NetworkManager" where
  "wireNetworkManager config handle =
     NewNetworkManager
       (wireApplier (NewRunner handle (cfg_WaitTimeoutInSeconds config)) handle winc_ports)
       (wireEndpointManager handle config)
       handle
       config
       (mtu_iface \<lparr>mtu_containerId = handle, mtu_networkName = cfg_NetworkName config\<rparr>)"

section \<open>The command\<close>

text \<open>
  Opening the log file before the command runs; the lines written to it are not modelled.
  \<open>os.DevNull\<close> is \<open>NUL\<close>.
\<close>

definition open_log :: "string \<Rightarrow> unit op" where
  "open_log logFile =
     (if logFile = [] \<or> logFile = ''NUL'' then ret ()
      else bind (MkdirAll (Dir logFile)) (\<lambda>_. open_append logFile))"

definition network_before :: "string \<Rightarrow> string \<Rightarrow> unit op" where
  "network_before logFile logFormat =
     bind (open_log logFile) (\<lambda>_.
       if logFormat = ''text'' \<or> logFormat = ''json'' then ret ()
       else throw (Errorf (''invalid log format: '' @ logFormat)))"

text \<open>The flags, after the command line library has parsed them, and the standard input.\<close>

record NetFlags =
  nf_action :: string
  nf_configFile :: string
  nf_handle :: string

definition network_action :: "NetFlags \<Rightarrow> string \<Rightarrow> unit op" where
  "network_action flags stdin0 =
     bind (annotate ''configFile'' (parseConfig (nf_configFile flags))) (\<lambda>config.
     let handle = nf_handle flags; action = nf_action flags in
     if (action = ''up'' \<or> action = ''down'') \<and> handle = [] then
       throw (Errorf (''missing required flag '' @ [CHR 0x27] @ ''handle'' @ [CHR 0x27]))
     else
       let networkManager = wireNetworkManager config handle in
       if action = ''up'' then
         annotate ''networkUp''
           (bind (decode_UpInputs stdin0) (\<lambda>inputs.
            bind (Up networkManager inputs) (\<lambda>outputs.
              write_out (encode_json (enc_UpOutputs outputs)))))
       else if action = ''create'' then annotate ''network create'' (CreateHostNATNetwork networkManager)
       else if action = ''delete'' then annotate ''network delete'' (DeleteHostNATNetwork networkManager)
       else if action = ''down'' then annotate ''networkDown'' (Down networkManager)
       else throw (Errorf (''invalid action: '' @ action)))"

text \<open>\<open>main\<close>: an error of the set-up or of the action is printed and the exit code is 1.\<close>

definition network_main :: "string \<Rightarrow> string \<Rightarrow> NetFlags \<Rightarrow> string \<Rightarrow> int op" where
  "network_main logFile logFormat flags stdin0 =
     bind (attempt (bind (network_before logFile logFormat) (\<lambda>_. network_action flags stdin0))) (\<lambda>r. case r of
       Inl err \<Rightarrow> bind (ignore (write_out (Error err @ [CHR 0x0A]))) (\<lambda>_. ret 1)
     | Inr _ \<Rightarrow> ret 0)"

section \<open>The contract of the collaborators\<close>

text \<open>
  What \<open>Up\<close> needs of its collaborators to keep track of the resources of one container: an
  invariant that all of them keep, and a clean-up that always succeeds under it and
  establishes a baseline, which removing the endpoint keeps.
\<close>

locale network_collaborators =
  fixes applier :: NetRuleApplier and endpoints :: EndpointIface and mtu :: MtuIface
    and inv :: "world \<Rightarrow> bool"
  assumes in_inv: "preserves inv (na_In applier rin ip)"
    and out_inv: "preserves inv (na_Out applier rout ip)"
    and open_inv: "preserves inv (na_OpenPort applier port)"
    and create_inv: "preserves inv (em_Create endpoints)"
    and policies_inv: "preserves inv (em_ApplyPolicies endpoints ep nats acls)"
    and mtu_inv: "preserves inv (mt_SetContainer mtu k)"
begin

lemma open_ports_inv:
  assumes "nm_applier n = applier"
  shows "preserves inv (open_ports n props)"
proof -
  have one: "preserves inv (open_port n port)" for port
    unfolding open_port_def assms by (intro preserves_intros open_inv)
  have ask: "preserves inv (asks f)" for f :: "env \<Rightarrow> string"
    by (simp add: preserves_def asks_def)
  show ?thesis
    unfolding open_ports_def
    by (auto split: option.split json.split intro!: preserves_intros one ask)
qed

lemma up_inv:
  assumes "nm_applier n = applier" "nm_endpointManager n = endpoints" "nm_mtu n = mtu"
  shows "preserves inv (up n inputs)"
  unfolding up_def Let_def assms
  by (intro preserves_intros open_ports_inv assms in_inv out_inv create_inv policies_inv mtu_inv)

end

locale network_cleanup = network_collaborators +
  fixes base :: "world \<Rightarrow> bool"
  assumes cleanup_base: "inv w \<Longrightarrow> \<exists>w'. na_Cleanup applier w = (Ok (), w') \<and> base w'"
    and delete_base: "preserves base (em_Delete endpoints)"
    and delete_no_panic: "no_panic (em_Delete endpoints)"
begin

lemma Up_failure_base:
  assumes n: "nm_applier n = applier" "nm_endpointManager n = endpoints" "nm_mtu n = mtu"
    and "inv w" and "Up n inputs w = (Err err, w')"
  shows "base w'"
proof -
  obtain inputs' where run: "bind (attempt (up n inputs')) (\<lambda>r. case r of
        Inr outputs \<Rightarrow> ret outputs
      | Inl err \<Rightarrow>
          bind (ignore (na_Cleanup (nm_applier n))) (\<lambda>_.
          bind (ignore (em_Delete (nm_endpointManager n))) (\<lambda>_.
          throw err))) w = (Err err, w')"
    using assms(5) unfolding Up_def Let_def by blast
  then obtain e w1 where w1: "up n inputs' w = (Err e, w1)"
    and rest: "bind (ignore (na_Cleanup applier)) (\<lambda>_. bind (ignore (em_Delete endpoints)) (\<lambda>_. throw e)) w1 = (Err err, w')"
    using n by (auto simp: bind_def attempt_def split: prod.splits outcome.splits)
  have "inv w1"
    using preservesD [OF up_inv [OF n] assms(4) w1] .
  then obtain w2 where w2: "na_Cleanup applier w1 = (Ok (), w2)" "base w2"
    using cleanup_base by blast
  obtain r where "em_Delete endpoints w2 = (r, w')"
    using rest w2(1) delete_no_panic by (auto simp: bind_def ignore_def no_panic_def split: prod.splits outcome.splits)
  then show ?thesis
    using preservesD [OF delete_base w2(2)] by blast
qed

text \<open>\<open>Down\<close> cleans up after the endpoint was removed, whether or not that worked.\<close>

lemma Down_base:
  assumes "nm_applier n = applier" "nm_endpointManager n = endpoints"
    and "preserves inv (em_Delete endpoints)" and "inv w" and "Down n w = (r, w')"
  shows "base w'"
proof -
  obtain r1 w1 where del: "em_Delete endpoints w = (r1, w1)"
    by (cases "em_Delete endpoints w")
  then have "inv w1"
    using preservesD [OF assms(3,4)] by blast
  then obtain w2 where w2: "na_Cleanup applier w1 = (Ok (), w2)" "base w2"
    using cleanup_base by blast
  have "w' = w2"
    using assms(5) del w2(1) delete_no_panic
    by (cases r1) (auto simp: Down_def assms(1,2) bind_def attempt_def no_panic_def)
  then show ?thesis using w2(2) by simp
qed

end

section \<open>Interpretation on the wired manager\<close>

text \<open>
  The ledger on disk agrees with \<open>m\<close> except for further ports of the container, and no file
  operation fails; the baseline is \<open>m\<close> without the container.
\<close>

definition without :: "string \<Rightarrow> (u16 \<rightharpoonup> string) \<Rightarrow> (u16 \<rightharpoonup> string)" where
  "without handle m = (\<lambda>p. if m p = Some handle then None else m p)"

definition leased :: "string \<Rightarrow> (u16 \<rightharpoonup> string) \<Rightarrow> world \<Rightarrow> bool" where
  "leased handle m w \<longleftrightarrow> os_calm (w_env w)
     \<and> (\<exists>m'. ledger (pa_Locker winc_ports) w m' \<and> without handle m' = without handle m)"

definition unleased :: "string \<Rightarrow> (u16 \<rightharpoonup> string) \<Rightarrow> world \<Rightarrow> bool" where
  "unleased handle m w \<longleftrightarrow> os_calm (w_env w) \<and> ledger (pa_Locker winc_ports) w (without handle m)"

lemma calm_writes: "os_calm e \<Longrightarrow> writes_succeed f e"
  by (simp add: os_calm_def writes_succeed_def)

lemma leased_frame:
  assumes "frame w_env m" "frame (\<lambda>w. content_of w (pa_Locker winc_ports)) m"
  shows "preserves (leased handle L) m" "preserves (unleased handle L) m"
  using assms by (auto simp: preserves_def frame_def leased_def unleased_def ledger_def)

lemma leased_AllocatePort: "preserves (leased handle L) (AllocatePort winc_ports handle port)"
proof (cases "port = 0")
  case True
  show ?thesis
  proof (rule preservesI)
    fix w r w' assume leased: "leased handle L w" and run: "AllocatePort winc_ports handle port w = (r, w')"
    obtain m' where m': "ledger (pa_Locker winc_ports) w m'" "without handle m' = without handle L" and calm: "os_calm (w_env w)"
      using leased by (auto simp: leased_def)
    have calm': "os_calm (w_env w')"
      using calm frameD [OF env_AllocatePort run] by simp
    show "leased handle L w'"
    proof (cases r)
      case (Ok p)
      then have "m' p = None" "ledger (pa_Locker winc_ports) w' (m'(p \<mapsto> handle))"
        using AllocatePort_fresh [OF m'(1)] run True by auto
      moreover from this(1) have "without handle (m'(p \<mapsto> handle)) = without handle L"
        unfolding m'(2) [symmetric] by (auto simp: without_def)
      ultimately show ?thesis
        using calm' unfolding leased_def by blast
    next
      case (Err e)
      then show ?thesis
        using err_keepsD [OF err_keeps_AllocatePort] run calm calm_writes m' calm'
        unfolding leased_def ledger_def by metis
    next
      case (Panic s)
      then show ?thesis using no_panicD [OF no_panic_AllocatePort] run by blast
    qed
  qed
qed (auto simp: AllocatePort_def intro!: preserves_intros)

lemma cleanup_unleased:
  assumes "leased handle L w"
  shows "\<exists>w'. ReleaseAllPorts winc_ports handle w = (Ok (), w') \<and> unleased handle L w'"
proof -
  obtain m' where m': "ledger (pa_Locker winc_ports) w m'" "without handle m' = without handle L" and calm: "os_calm (w_env w)"
    using assms by (auto simp: leased_def)
  obtain w' where w': "ReleaseAllPorts winc_ports handle w = (Ok (), w')"
    using ReleaseAllPorts_progress [OF calm m'(1)] by blast
  have "ledger (pa_Locker winc_ports) w' (without handle m')"
    using ReleaseAllPorts_drops [OF m'(1) w'] by (simp add: without_def)
  then show ?thesis
    using w' m'(2) calm frameD [OF env_ReleaseAllPorts w'] by (auto simp: unleased_def)
qed

interpretation wired: network_cleanup
  "wireApplier (NewRunner handle t) handle winc_ports" "wireEndpointManager handle config"
  "mtu_iface ms" "leased handle L" "unleased handle L"
  for handle t config ms L
proof unfold_locales
  note defs = wireApplier_def wireEndpointManager_def applier_iface_def endpoint_iface_def mtu_iface_def NewApplier_def
  show "preserves (leased handle L) (na_In (wireApplier (NewRunner handle t) handle winc_ports) rin ip)" for rin ip
    unfolding defs Applier_In_def NetRuleApplier.select_convs Applier.select_convs
    by (intro preserves_intros leased_AllocatePort)
  show "preserves (leased handle L) (na_Out (wireApplier (NewRunner handle t) handle winc_ports) rout ip)" for rout ip
    unfolding defs by (auto intro!: preserves_intros leased_frame frame_intros)
  show "preserves (leased handle L) (na_OpenPort (wireApplier (NewRunner handle t) handle winc_ports) port)" for port
    unfolding defs by (auto intro!: leased_frame frame_intros)
  show "preserves (leased handle L) (em_Create (wireEndpointManager handle config))"
    "preserves (leased handle L) (em_ApplyPolicies (wireEndpointManager handle config) ep nats acls)" for ep nats acls
    unfolding defs by (auto intro!: leased_frame frame_intros)
  show "preserves (leased handle L) (mt_SetContainer (mtu_iface ms) k)" for k
    unfolding defs by (auto intro!: leased_frame frame_intros)
  show "leased handle L w \<Longrightarrow> \<exists>w'. na_Cleanup (wireApplier (NewRunner handle t) handle winc_ports) w = (Ok (), w') \<and> unleased handle L w'" for w
    unfolding defs using cleanup_unleased by (simp add: Applier_Cleanup_def)
  show "preserves (unleased handle L) (em_Delete (wireEndpointManager handle config))"
    unfolding defs by (auto intro!: leased_frame frame_intros)
  show "no_panic (em_Delete (wireEndpointManager handle config))"
    unfolding defs by (simp add: no_panic_Endpoint_Delete)
qed

text \<open>
  C8: a failed \<open>up\<close> leaks no ports. When no file operation fails, an \<open>up\<close> that returns an
  error leaves in the state file every lease of the other containers and none of its own,
  wherever it failed.
\<close>

theorem failed_up_releases_ports:
  assumes "os_calm (w_env w)" and "ledger (pa_Locker winc_ports) w m"
    and "Up (wireNetworkManager config handle) inputs w = (Err err, w')"
  shows "ledger (pa_Locker winc_ports) w' (without handle m)"
  using wired.Up_failure_base [of "wireNetworkManager config handle" handle _ config _ m w inputs err w'] assms
  by (auto simp: wireNetworkManager_def NewNetworkManager_def leased_def unleased_def)

theorem failed_up_releases_ports_witness:
  "\<exists>w w' err. ledger (pa_Locker winc_ports) w [40000 \<mapsto> ''a'']
     \<and> Up (wireNetworkManager example_config ''b'') zero_UpInputs w = (Err err, w')
     \<and> ledger (pa_Locker winc_ports) w' [40000 \<mapsto> ''a'']"
proof -
  obtain w where w: "AllocatePort winc_ports ''a'' 0 quiet_world = (Ok 40000, w)"
    using quiet_first_request by blast
  have env: "w_env w = quiet_env"
    using frameD [OF env_AllocatePort w] by (simp add: quiet_world_def)
  have led: "ledger (pa_Locker winc_ports) w [40000 \<mapsto> ''a'']"
    using AllocatePort_fresh(3) [OF quiet_ledger(2) w] .
  have calm: "os_calm (w_env w)"
    using env quiet_calm by (simp add: quiet_world_def)
  let ?n = "wireNetworkManager example_config ''b''"
  have "\<exists>e w1. up ?n zero_UpInputs w = (Err e, w1)"
    by (simp add: up_def Let_def wireNetworkManager_def NewNetworkManager_def wireEndpointManager_def
        endpoint_iface_def Endpoint_Create_alt bind_def GetHNSNetworkByName_def ask_def env quiet_env_def quiet_hns_def)
  then obtain e w1 where "up ?n zero_UpInputs w = (Err e, w1)" by blast
  moreover have "\<not> cfg_AllowOutboundTrafficByDefault (nm_config ?n)"
    by (simp add: wireNetworkManager_def NewNetworkManager_def example_config_def)
  moreover have "no_panic (na_Cleanup (nm_applier ?n))" "no_panic (em_Delete (nm_endpointManager ?n))"
    by (simp_all add: wireNetworkManager_def NewNetworkManager_def wireApplier_def wireEndpointManager_def
        applier_iface_def endpoint_iface_def safe_intros)
  ultimately have "\<exists>w'. Up ?n zero_UpInputs w = (Err e, w')"
    by (auto simp: Up_def bind_def attempt_def ignore_def no_panic_def split: prod.splits outcome.splits)
  then obtain w' where up: "Up ?n zero_UpInputs w = (Err e, w')" by blast
  have "without ''b'' [40000 \<mapsto> ''a''] = [40000 \<mapsto> ''a'']"
    by (auto simp: without_def)
  then show ?thesis
    using led up failed_up_releases_ports [OF calm led up] by auto
qed

lemma down_releases:
  assumes "os_calm (w_env w)" and "ledger (pa_Locker winc_ports) w m"
    and "Down (wireNetworkManager config handle) w = (r, w')"
  shows "ledger (pa_Locker winc_ports) w' (without handle m)"
proof -
  have "preserves (leased handle m) (em_Delete (wireEndpointManager handle config))"
    unfolding wireEndpointManager_def endpoint_iface_def by (auto intro!: leased_frame frame_intros)
  then show ?thesis
    using wired.Down_base [of "wireNetworkManager config handle" handle _ config m w r w'] assms
    by (auto simp: wireNetworkManager_def NewNetworkManager_def leased_def unleased_def)
qed

text \<open>
  C30: \<open>down\<close> releases the container's ports whether or not its endpoint could be removed.
\<close>

theorem down_releases_ports:
  assumes "os_calm (w_env w)" and "ledger (pa_Locker winc_ports) w m"
    and "Down (wireNetworkManager config handle) w = (r, w')"
  shows "ledger (pa_Locker winc_ports) w' (without handle m)"
  using assms by (rule down_releases)

theorem down_releases_ports_witness:
  "ledger (pa_Locker winc_ports) (snd (Down (wireNetworkManager example_config ''b'') quiet_world)) Map.empty"
  using down_releases_ports [OF quiet_calm quiet_ledger(2), of example_config "''b''"]
  by (cases "Down (wireNetworkManager example_config ''b'') quiet_world") (auto simp: without_def)

text \<open>
  C34: a DNS server of the configuration that is not an IPv4 address makes \<open>up\<close> panic after the
  endpoint exists and the ports are leased; the clean-up of a failed \<open>up\<close> is skipped, so the
  world is left exactly as the last port allocation left it.
\<close>

theorem bad_dns_server_panics:
  assumes "Endpoint_Create (NewEndpointManager handle config) w = (Ok ep, w1)"
    and "mapM (\<lambda>r. na_In (nm_applier (wireNetworkManager config handle)) r (ip_String (ep_IPAddress ep))) (ui_NetIn inputs) w1 = (Ok ins, w2)"
    and "ui_Properties inputs = []" and "ui_NetOut inputs = []" and "\<not> cfg_AllowOutboundTrafficByDefault config"
    and "cfg_DNSServers config = s # ss" and "To4 (ParseIP s) = []"
  shows "Up (wireNetworkManager config handle) inputs w = (Panic ''runtime error: index out of range'', w2)"
proof -
  have cidr: "IPRangeToCIDRs \<lparr>ipr_Start = ParseIP s, ipr_End = ParseIP s\<rparr>
      = (Panic ''runtime error: index out of range'' :: (error, string list) outcome)"
    using assms(7) by (simp add: IPRangeToCIDRs_def ipToUint_def)
  have out: "na_Out (nm_applier (wireNetworkManager config handle)) (hd (dns_rules s)) ip w2
      = (Panic ''runtime error: index out of range'', w2)" for ip
    by (simp add: wireNetworkManager_def NewNetworkManager_def wireApplier_def applier_iface_def NewApplier_def
        dns_rules_def Let_def Applier_Out_def bind_def cidr)
  obtain r rs where r: "dns_rules s = r # rs"
    by (simp add: dns_rules_def Let_def)
  have outs: "mapM (\<lambda>rule. na_Out (nm_applier (wireNetworkManager config handle)) rule ip) (concat (map dns_rules (s # ss))) w2
      = (Panic ''runtime error: index out of range'', w2)" for ip
    using out [of ip] by (simp add: r bind_Panic)
  have create: "em_Create (nm_endpointManager (wireNetworkManager config handle)) = Endpoint_Create (NewEndpointManager handle config)"
    "nm_config (wireNetworkManager config handle) = config"
    by (simp_all add: wireNetworkManager_def NewNetworkManager_def wireEndpointManager_def endpoint_iface_def)
  have "up (wireNetworkManager config handle) inputs w = (Panic ''runtime error: index out of range'', w2)"
    using assms(1-4,6) outs by (simp add: up_def Let_def create bind_def open_ports_def)
  then show ?thesis
    using assms(5) by (simp add: Up_def create bind_def attempt_def)
qed

definition attach_works :: world where
  "attach_works = quiet_world\<lparr>w_env := quiet_env\<lparr>e_hns := quiet_hns\<lparr>
       o_GetNetworkByName := (\<lambda>_ n. Inr \<lparr>nw_Id = ''n1'', nw_Name = n, nw_Type = ''nat'', nw_Subnets = [], nw_DNSSuffix = []\<rparr>),
       o_GetEndpointByID := (\<lambda>_ i. Inr \<lparr>ep_Id = i, ep_Name = ''c'', ep_VirtualNetwork = ''n1'', ep_Policies = [],
          ep_IPAddress = [172, 30, 0, 2], ep_DNSServerList = []\<rparr>)\<rparr>\<rparr>\<rparr>"

lemma await_ten: "await_endpoint r 10 = bind r (\<lambda>up. if up then ret True else bind (sleep 200) (\<lambda>_. await_endpoint r 9))"
  using await_endpoint.simps(2) [of r 9] by simp

lemma quiet_adapters:
  "e_win (w_env w) = quiet_win \<Longrightarrow> adapters fam l w = (Ok None, log_event (Win (WGetAdaptersAddresses fam GAA_FLAGS l)) w)"
  by (subst adapters.simps) (simp add: quiet_win_def)

theorem bad_dns_server_panics_witness:
  "fst (Up (wireNetworkManager (example_config\<lparr>cfg_DNSServers := [''localhost'']\<rparr>) ''c'') zero_UpInputs attach_works)
   = Panic ''runtime error: index out of range''"
proof -
  let ?c = "example_config\<lparr>cfg_DNSServers := [''localhost'']\<rparr>"
  have "\<exists>ep w1. Endpoint_Create (NewEndpointManager ''c'' ?c) attach_works = (Ok ep, w1)"
    by (simp add: Endpoint_Create_alt GetHNSNetworkByName_def GetHNSEndpointByID_def createEndpoint_def numeral_3_eq_3 CreateEndpoint_def
        attachEndpoint_def HotAttachEndpoint_def await_ten InterfaceExists_def getAdapterInfoByName_def quiet_adapters
        bind_def attempt_def ask_def attach_works_def quiet_world_def quiet_env_def quiet_hns_def)
  then obtain ep w1 where c: "Endpoint_Create (NewEndpointManager ''c'' ?c) attach_works = (Ok ep, w1)"
    by blast
  have "To4 (ParseIP ''localhost'') = []"
    by (simp add: ParseIP_def To4_def)
  then show ?thesis
    using bad_dns_server_panics [OF c, of zero_UpInputs "[]" w1 "''localhost''" "[]"]
    by (simp add: zero_UpInputs_def example_config_def)
qed

text \<open>The applier that is wired into the manager allocates from the range of winc-network.\<close>

lemma mapM_post:
  "mapM (\<lambda>x. bind (g x) (\<lambda>y. ret (h y))) xs w = (Ok zs, w') \<Longrightarrow> \<exists>ys. mapM g xs w = (Ok ys, w') \<and> zs = map h ys"
proof (induction xs arbitrary: w zs)
  case (Cons x xs)
  obtain y w1 ys where "g x w = (Ok y, w1)" "mapM (\<lambda>x. bind (g x) (\<lambda>y. ret (h y))) xs w1 = (Ok ys, w')" "zs = h y # ys"
    using Cons.prems by (auto elim!: bind_OkE simp del: ret_apply) (simp add: ret_apply)
  moreover obtain zs' where "mapM g xs w1 = (Ok zs', w')" "ys = map h zs'"
    using Cons.IH [OF calculation(2)] by blast
  ultimately show ?case
    by (simp add: bind_def)
qed simp

lemma mapM_in_ports:
  assumes "mapM (\<lambda>rule. na_In (nm_applier (wireNetworkManager config handle)) rule ip) rules w = (Ok ins, w')"
  obtains a ps where "ap_portAllocator a = winc_ports" "ap_containerId a = handle"
    "mapM (\<lambda>r. Applier_In a r ip) rules w = (Ok ps, w')" "ins = map (\<lambda>(np, acl). (Some np, Some acl)) ps"
proof -
  define a where "a = NewApplier (NewRunner handle (cfg_WaitTimeoutInSeconds config)) handle winc_ports"
  let ?h = "\<lambda>p :: NatPolicy \<times> ACLPolicy. (Some (fst p), Some (snd p))"
  have "na_In (nm_applier (wireNetworkManager config handle)) = (\<lambda>rule ip. bind (Applier_In a rule ip) (\<lambda>p. ret (?h p)))"
    by (simp add: wireNetworkManager_def NewNetworkManager_def wireApplier_def applier_iface_def a_def case_prod_unfold)
  then obtain ps where "mapM (\<lambda>r. Applier_In a r ip) rules w = (Ok ps, w')" "ins = map ?h ps"
    using mapM_post [where g = "\<lambda>r. Applier_In a r ip" and h = ?h] assms by (simp only:) blast
  then show ?thesis
    using that [of a ps] by (simp add: a_def NewApplier_def case_prod_unfold)
qed

lemma mapM_rules:
  assumes "mapM (\<lambda>r. Applier_In a r ip) rules w = (Ok ps, w')"
  shows "list_all2 (\<lambda>r p. nat_InternalPort (fst p) = ni_ContainerPort r
      \<and> (ni_HostPort r \<noteq> 0 \<longrightarrow> nat_ExternalPort (fst p) = ni_HostPort r)) rules ps"
  using assms
proof (induction rules arbitrary: w ps)
  case (Cons r rules)
  obtain n acl w1 ps' where p: "Applier_In a r ip w = (Ok (n, acl), w1)"
    and rest: "mapM (\<lambda>r. Applier_In a r ip) rules w1 = (Ok ps', w')" and ps: "ps = (n, acl) # ps'"
    using Cons.prems by (auto elim!: bind_OkE)
  then show ?case
    using Cons.IH [OF rest] Applier_In_cases [OF p] by auto
qed simp

lemma Up_Ok:
  assumes "Up n inputs w = (Ok out, w')"
  obtains inputs' where "up n inputs' w = (Ok out, w')" "ui_NetIn inputs' = ui_NetIn inputs"
  using assms that [of inputs] that [of "inputs\<lparr>ui_NetOut := [\<lparr>no_Protocol = ProtocolAll, no_Networks = [], no_Ports = []\<rparr>]\<rparr>"]
  unfolding Up_def Let_def by (auto elim!: ok_elims split: sum.splits if_splits)

text \<open>Everything that \<open>up\<close> does but the inbound rules leaves the ports alone.\<close>

lemma frame_up_parts:
  fixes config handle
  defines "n \<equiv> wireNetworkManager config handle"
  shows "frame (\<lambda>w. content_of w (pa_Locker winc_ports)) (em_Create (nm_endpointManager n))"
    and "frame (\<lambda>w. content_of w (pa_Locker winc_ports)) (open_ports n ps)"
    and "frame (\<lambda>w. content_of w (pa_Locker winc_ports)) (mapM (\<lambda>rule. na_Out (nm_applier n) rule ip) outs)"
    and "frame (\<lambda>w. content_of w (pa_Locker winc_ports)) (em_ApplyPolicies (nm_endpointManager n) ep nats acls)"
    and "frame (\<lambda>w. content_of w (pa_Locker winc_ports)) (mt_SetContainer (nm_mtu n) k)"
proof -
  note defs = n_def wireNetworkManager_def NewNetworkManager_def wireApplier_def wireEndpointManager_def
    applier_iface_def endpoint_iface_def mtu_iface_def NewApplier_def
  show "frame (\<lambda>w. content_of w (pa_Locker winc_ports)) (em_Create (nm_endpointManager n))"
    "frame (\<lambda>w. content_of w (pa_Locker winc_ports)) (mapM (\<lambda>rule. na_Out (nm_applier n) rule ip) outs)"
    "frame (\<lambda>w. content_of w (pa_Locker winc_ports)) (em_ApplyPolicies (nm_endpointManager n) ep nats acls)"
    "frame (\<lambda>w. content_of w (pa_Locker winc_ports)) (mt_SetContainer (nm_mtu n) k)"
    unfolding defs by (auto intro!: frame_intros)
  show "frame (\<lambda>w. content_of w (pa_Locker winc_ports)) (open_ports n ps)"
    unfolding open_ports_def open_port_def defs by (auto intro!: frame_intros split: json.split)
qed

lemma up_stages:
  assumes "up (wireNetworkManager config handle) inputs w = (Ok out, w')"
  shows "\<exists>ep ip w1 ins w2. em_Create (nm_endpointManager (wireNetworkManager config handle)) w = (Ok ep, w1)
    \<and> mapM (\<lambda>rule. na_In (nm_applier (wireNetworkManager config handle)) rule ip) (ui_NetIn inputs) w1 = (Ok ins, w2)
    \<and> uo_MappedPorts out = print_json (JArr (map (\<lambda>np. enc_mapping (port_mapping np)) (present (map fst ins))))
    \<and> content_of w' (pa_Locker winc_ports) = content_of w2 (pa_Locker winc_ports)"
proof -
  let ?n = "wireNetworkManager config handle" and ?c = "\<lambda>w. content_of w (pa_Locker winc_ports)"
  obtain ep w1 ins w2 u3 w3 outs w4 u5 w5 u6 where st: "em_Create (nm_endpointManager ?n) w = (Ok ep, w1)"
    "mapM (\<lambda>rule. na_In (nm_applier ?n) rule (ip_String (ep_IPAddress ep))) (ui_NetIn inputs) w1 = (Ok ins, w2)"
    "open_ports ?n (ui_Properties inputs) w2 = (Ok u3, w3)"
    "mapM (\<lambda>rule. na_Out (nm_applier ?n) rule (ip_String (ep_IPAddress ep)))
       (ui_NetOut inputs @ concat (map dns_rules (cfg_DNSServers (nm_config ?n)))) w3 = (Ok outs, w4)"
    "em_ApplyPolicies (nm_endpointManager ?n) ep (present (map fst ins)) (present (map snd ins) @ present outs) w4 = (Ok u5, w5)"
    "mt_SetContainer (nm_mtu ?n) (cfg_MTU (nm_config ?n)) w5 = (Ok u6, w')"
    "uo_MappedPorts out = print_json (JArr (map (\<lambda>np. enc_mapping (port_mapping np)) (present (map fst ins))))"
    using assms unfolding up_def Let_def by (auto elim!: bind_OkE)
  have "?c w' = ?c w2"
    using frameD [OF frame_up_parts(2) st(3)] frameD [OF frame_up_parts(3) st(4)] frameD [OF frame_up_parts(4) st(5)]
      frameD [OF frame_up_parts(5) st(6)] by simp
  then show ?thesis
    using st(1,2,7) by blast
qed

text \<open>The host ports of the mappings whose rule left the choice to winc.\<close>

definition given_ports :: "NetIn list \<Rightarrow> PortMapping list \<Rightarrow> u16 list" where
  "given_ports rules ms = map (\<lambda>(r, m). pm_HostPort m) (filter (\<lambda>(r, m). ni_HostPort r = 0) (zip rules ms))"

lemma given_chosen: "given_ports rules (map (\<lambda>(np, acl). port_mapping np) ps) = chosen_ports rules ps"
  by (simp add: given_ports_def chosen_ports_def zip_map2 filter_map o_def case_prod_unfold port_mapping_def)

text \<open>
  C31: the answer of a successful \<open>up\<close> tells which ports lead to the container. It holds, as
  JSON that decodes back, one port mapping per inbound rule, in the order of the rules, with
  the rule's container port; a rule that names a host port is reported with that port; and
  the ports reported for the other rules are pairwise different ports of 40000 to 44999
  that nobody owned before, and exactly these have been recorded for the container, on top
  of the leases that were there.
\<close>

theorem up_reports_mappings:
  assumes "ledger (pa_Locker winc_ports) w L"
    and "Up (wireNetworkManager config handle) inputs w = (Ok out, w')"
  shows "\<exists>ms. unmarshal_json (uo_MappedPorts out) = Some (JArr (map enc_mapping ms))
    \<and> list_all2 (\<lambda>r m. pm_ContainerPort m = ni_ContainerPort r \<and> (ni_HostPort r \<noteq> 0 \<longrightarrow> pm_HostPort m = ni_HostPort r))
        (ui_NetIn inputs) ms
    \<and> distinct (given_ports (ui_NetIn inputs) ms)
    \<and> (\<forall>p \<in> set (given_ports (ui_NetIn inputs) ms). 40000 \<le> p \<and> p < 45000 \<and> L p = None)
    \<and> ledger (pa_Locker winc_ports) w' (\<lambda>p. if p \<in> set (given_ports (ui_NetIn inputs) ms) then Some handle else L p)"
proof -
  let ?n = "wireNetworkManager config handle" and ?c = "\<lambda>w. content_of w (pa_Locker winc_ports)"
  obtain inputs' where up: "up ?n inputs' w = (Ok out, w')" and rules: "ui_NetIn inputs' = ui_NetIn inputs"
    using Up_Ok [OF assms(2)] .
  obtain ep ip w1 ins w2 where create: "em_Create (nm_endpointManager ?n) w = (Ok ep, w1)"
    and ins: "mapM (\<lambda>rule. na_In (nm_applier ?n) rule ip) (ui_NetIn inputs) w1 = (Ok ins, w2)"
    and out: "uo_MappedPorts out = print_json (JArr (map (\<lambda>np. enc_mapping (port_mapping np)) (present (map fst ins))))"
    and rest: "?c w' = ?c w2"
    using up_stages [OF up] rules by metis
  obtain a ps where a: "ap_portAllocator a = winc_ports" "ap_containerId a = handle"
    and run: "mapM (\<lambda>r. Applier_In a r ip) (ui_NetIn inputs) w1 = (Ok ps, w2)"
    and ps: "ins = map (\<lambda>(np, acl). (Some np, Some acl)) ps"
    using mapM_in_ports [OF ins] .
  let ?ms = "map (\<lambda>(np, acl). port_mapping np) ps"
  have "ledger (pa_Locker winc_ports) w1 L"
    using assms(1) frameD [OF frame_up_parts(1) create] by (simp add: ledger_def)
  note given = Applier_In_ports [OF a(1) this run, folded given_chosen]
  have "40000 \<le> p \<and> p < 45000 \<and> L p = None" if "p \<in> set (given_ports (ui_NetIn inputs) ?ms)" for p
    using given that by (auto simp: InRange_def)
  moreover have "list_all2 (\<lambda>r m. pm_ContainerPort m = ni_ContainerPort r \<and> (ni_HostPort r \<noteq> 0 \<longrightarrow> pm_HostPort m = ni_HostPort r))
      (ui_NetIn inputs) ?ms"
    using mapM_rules [OF run] by (auto simp: list_all2_map2 port_mapping_def case_prod_unfold)
  moreover have "unmarshal_json (uo_MappedPorts out) = Some (JArr (map enc_mapping ?ms))"
  proof -
    have "map (\<lambda>np. enc_mapping (port_mapping np)) (present (map fst ins)) = map enc_mapping ?ms"
      by (simp add: ps present_def o_def case_prod_unfold filter_map)
    then show ?thesis
      unfolding out by (subst unmarshal_print) (auto simp: enc_mapping_def list_all_iff)
  qed
  moreover have "ledger (pa_Locker winc_ports) w' (\<lambda>p. if p \<in> set (given_ports (ui_NetIn inputs) ?ms) then Some handle else L p)"
    using given rest unfolding a(2) by (simp add: ledger_def)
  ultimately show ?thesis
    using given by (intro exI [of _ ?ms]) blast
qed

text \<open>One rule that leaves the choice of the host port to winc, on a host without leases.\<close>

definition web_inputs :: UpInputs where
  "web_inputs = zero_UpInputs\<lparr>ui_NetIn := [\<lparr>ni_HostPort = 0, ni_ContainerPort = 8080\<rparr>]\<rparr>"

lemma attach_works_creates:
  "\<exists>ep w1. em_Create (nm_endpointManager (wireNetworkManager example_config ''c'')) attach_works = (Ok ep, w1)"
  by (simp add: wireNetworkManager_def NewNetworkManager_def wireEndpointManager_def endpoint_iface_def example_config_def
        Endpoint_Create_alt GetHNSNetworkByName_def GetHNSEndpointByID_def createEndpoint_def numeral_3_eq_3 CreateEndpoint_def
        attachEndpoint_def HotAttachEndpoint_def await_ten InterfaceExists_def getAdapterInfoByName_def quiet_adapters
        bind_def attempt_def ask_def attach_works_def quiet_world_def quiet_env_def quiet_hns_def)

lemma attach_works_policies:
  assumes "w_env w = w_env attach_works"
  shows "\<exists>x w'. em_ApplyPolicies (nm_endpointManager (wireNetworkManager example_config ''c'')) ep nats acls w = (Ok x, w')
    \<and> w_env w' = w_env attach_works"
  using assms by (simp add: wireNetworkManager_def NewNetworkManager_def wireEndpointManager_def endpoint_iface_def
      ApplyPolicies_def UpdateEndpoint_def bind_def attempt_def ask_def Let_def attach_works_def quiet_world_def quiet_env_def quiet_hns_def)

lemma attach_works_mtu:
  assumes "w_env w = w_env attach_works"
  shows "\<exists>x w'. mt_SetContainer (nm_mtu (wireNetworkManager example_config ''c'')) 1460 w = (Ok x, w')"
proof -
  have "e_win (w_env w) = quiet_win" "e_hns (w_env w) = e_hns (w_env attach_works)"
    using assms by (simp_all add: attach_works_def quiet_world_def quiet_env_def)
  then show ?thesis
    by (simp add: wireNetworkManager_def NewNetworkManager_def mtu_iface_def Mtu_SetContainer_def SetMTU_def
        SetCurrentThreadCompartmentId_def getIpInterfaceEntry_def setIpInterfaceEntry_def deferring_def query_def
        getAdapterInfoByName_def quiet_adapters bind_def attempt_def ask_def)
      (simp add: quiet_win_def row_for_def)
qed

lemma attach_works_ledger: "ledger (pa_Locker winc_ports) attach_works Map.empty"
  by (simp add: attach_works_def quiet_defs ledger_def content_of_def pool_text_def)

lemma web_up: "\<exists>out w'. Up (wireNetworkManager example_config ''c'') web_inputs attach_works = (Ok out, w')"
proof -
  let ?n = "wireNetworkManager example_config ''c''"
  obtain ep w1 where c: "em_Create (nm_endpointManager ?n) attach_works = (Ok ep, w1)"
    using attach_works_creates by blast
  have led1: "ledger (pa_Locker winc_ports) w1 Map.empty"
    using attach_works_ledger frameD [OF frame_up_parts(1) c] by (simp add: ledger_def)
  have env1: "w_env w1 = w_env attach_works"
  proof (rule frameD [of w_env "em_Create (nm_endpointManager ?n)" attach_works "Ok ep" w1, OF _ c])
    show "frame w_env (em_Create (nm_endpointManager ?n))"
      by (simp add: wireNetworkManager_def NewNetworkManager_def wireEndpointManager_def endpoint_iface_def frame_intros)
  qed
  have "os_calm (w_env w1)"
    unfolding env1 by (simp add: attach_works_def quiet_world_def quiet_env_def quiet_os_def os_calm_def)
  then obtain p w2 where alloc: "AllocatePort winc_ports ''c'' 0 w1 = (Ok p, w2)"
    using AllocatePort_progress [OF _ led1, of 0 "''c''"] by auto
  have env2: "w_env w2 = w_env attach_works"
    using frameD [OF env_AllocatePort alloc] env1 by simp
  have ins: "\<exists>ins. mapM (\<lambda>rule. na_In (nm_applier ?n) rule ip) (ui_NetIn web_inputs) w1 = (Ok ins, w2)" for ip
    using alloc by (simp add: web_inputs_def wireNetworkManager_def NewNetworkManager_def wireApplier_def applier_iface_def
        NewApplier_def Applier_In_def bind_def)
  obtain ins where ins: "mapM (\<lambda>rule. na_In (nm_applier ?n) rule (ip_String (ep_IPAddress ep))) (ui_NetIn web_inputs) w1 = (Ok ins, w2)"
    using ins by blast
  have none: "open_ports ?n (ui_Properties web_inputs) = ret ()" "ui_NetOut web_inputs = []" "cfg_DNSServers (nm_config ?n) = []" "cfg_MTU (nm_config ?n) = 1460"
    "present [] = ([] :: ACLPolicy list)"
    by (simp_all add: present_def open_ports_def web_inputs_def zero_UpInputs_def wireNetworkManager_def NewNetworkManager_def example_config_def)
  obtain x w3 where pol: "em_ApplyPolicies (nm_endpointManager ?n) ep (present (map fst ins)) (present (map snd ins)) w2 = (Ok x, w3)"
      "w_env w3 = w_env attach_works"
    using attach_works_policies [OF env2] by blast
  obtain y w4 where mtu: "mt_SetContainer (nm_mtu ?n) (cfg_MTU (nm_config ?n)) w3 = (Ok y, w4)"
    using attach_works_mtu [OF pol(2)] none(4) by auto
  have "\<exists>out w'. up ?n web_inputs attach_works = (Ok out, w')"
    using c ins pol(1) mtu none by (simp add: up_def Let_def bind_def)
  then show ?thesis
    by (auto simp add: Up_def Let_def web_inputs_def zero_UpInputs_def IsEmpty_def attempt_def bind_def)
qed

theorem up_reports_mappings_witness:
  "\<exists>out w' p. Up (wireNetworkManager example_config ''c'') web_inputs attach_works = (Ok out, w')
     \<and> unmarshal_json (uo_MappedPorts out) = Some (JArr [enc_mapping \<lparr>pm_HostPort = p, pm_ContainerPort = 8080\<rparr>])
     \<and> 40000 \<le> p \<and> ledger (pa_Locker winc_ports) w' [p \<mapsto> ''c'']"
proof -
  obtain out w' where run: "Up (wireNetworkManager example_config ''c'') web_inputs attach_works = (Ok out, w')"
    using web_up by blast
  obtain ms where ms: "unmarshal_json (uo_MappedPorts out) = Some (JArr (map enc_mapping ms))"
    "list_all2 (\<lambda>r m. pm_ContainerPort m = ni_ContainerPort r \<and> (ni_HostPort r \<noteq> 0 \<longrightarrow> pm_HostPort m = ni_HostPort r))
        (ui_NetIn web_inputs) ms"
    "\<forall>p \<in> set (given_ports (ui_NetIn web_inputs) ms). 40000 \<le> p \<and> p < 45000 \<and> Map.empty p = None"
    "ledger (pa_Locker winc_ports) w' (\<lambda>p. if p \<in> set (given_ports (ui_NetIn web_inputs) ms) then Some ''c'' else Map.empty p)"
    using up_reports_mappings [OF attach_works_ledger run] by blast
  then obtain m where m: "ms = [m]" "pm_ContainerPort m = 8080"
    by (auto simp: web_inputs_def list_all2_Cons1)
  let ?p = "pm_HostPort m"
  have g: "given_ports (ui_NetIn web_inputs) ms = [?p]"
    by (simp add: m(1) given_ports_def web_inputs_def)
  then have "40000 \<le> ?p" "(\<lambda>p. if p \<in> set (given_ports (ui_NetIn web_inputs) ms) then Some ''c'' else Map.empty p) = [?p \<mapsto> ''c'']"
    using ms(3) by (simp, auto)
  moreover have "map enc_mapping ms = [enc_mapping \<lparr>pm_HostPort = ?p, pm_ContainerPort = 8080\<rparr>]"
    using m by (simp add: enc_mapping_def)
  ultimately show ?thesis
    using run ms(1,4) by (intro exI [of _ out] exI [of _ w'] exI [of _ ?p]) simp
qed

end
