(* ===== verification/Network_Footprint.thy ===== *)
theory Network_Footprint
  imports Cmd_Network
begin

text \<open>
  The footprint of winc-network: over every path through cmd/winc-network and network, with
  failures and panics, the only files it changes are its log file and the port file, and in
  the port file only the leases of the container it was called for.
\<close>

section \<open>Other files\<close>

text \<open>
  What winc can see of a file: its contents and the environment it is read in. The file of
  the port allocator is the only one that the network operations write.
\<close>

definition view :: "string \<Rightarrow> world \<Rightarrow> string option \<times> env" where
  "view p w = (files w p, w_env w)"

definition undisturbed :: "string \<Rightarrow> string option \<times> env \<Rightarrow> world \<Rightarrow> bool" where
  "undisturbed p v w \<longleftrightarrow> p = pa_Locker winc_ports \<or> view p w = v"

lemma view_log [simp]: "view p (log_event ev w) = view p w"
  by (simp add: view_def)

lemma undisturbed_frame: "(p \<noteq> pa_Locker winc_ports \<Longrightarrow> frame (view p) m) \<Longrightarrow> preserves (undisturbed p v) m"
  by (auto simp: preserves_def undisturbed_def frame_def)

lemma view_files:
  assumes "p \<noteq> q"
  shows "frame (view p) (Lock_Open q)" "frame (view p) (file_Seek0 q)" "frame (view p) (file_ReadRest q)"
    "frame (view p) (file_Truncate0 q)" "frame (view p) (file_Write q d)" "frame (view p) (file_Close q)"
    "frame (view p) (open_append q)" "frame (view p) (MkdirAll d)"
  using assms
  by (auto simp: frame_def view_def Lock_Open_def file_Seek0_def file_ReadRest_def file_Truncate0_def file_Write_def write_bytes_def
      file_Close_def open_append_def MkdirAll_def os_op_def split: option.splits if_splits)

lemma view_map_order: "frame (view p) map_order"
  by (simp add: frame_def map_order_def)

lemma view_ports:
  assumes "p \<noteq> pa_Locker pa"
  shows "frame (view p) (AllocatePort pa h port)" "frame (view p) (ReleaseAllPorts pa h)"
  unfolding AllocatePort_def ReleaseAllPorts_def DecodeAll_def EncodeAndOverwrite_def
  by (intro frame_intros view_files view_map_order assms)+

lemma undisturbed_ports:
  "preserves (undisturbed p v) (AllocatePort winc_ports h port)" "preserves (undisturbed p v) (ReleaseAllPorts winc_ports h)"
  by (intro undisturbed_frame view_ports; assumption)+

text \<open>The collaborators of \<open>up\<close> keep every other file as it is.\<close>

interpretation bystander: network_collaborators
  "wireApplier (NewRunner handle t) handle winc_ports" "wireEndpointManager handle config" "mtu_iface ms" "undisturbed p v"
  for handle t config ms p v
proof unfold_locales
  note defs = wireApplier_def wireEndpointManager_def applier_iface_def endpoint_iface_def mtu_iface_def NewApplier_def
  show "preserves (undisturbed p v) (na_In (wireApplier (NewRunner handle t) handle winc_ports) rin ip)" for rin ip
    unfolding defs Applier_In_def NetRuleApplier.select_convs Applier.select_convs
    by (intro preserves_intros undisturbed_ports)
  show "preserves (undisturbed p v) (na_Out (wireApplier (NewRunner handle t) handle winc_ports) rout ip)"
    "preserves (undisturbed p v) (na_OpenPort (wireApplier (NewRunner handle t) handle winc_ports) port)" for rout ip port
    unfolding defs by (auto intro!: undisturbed_frame frame_intros)
  show "preserves (undisturbed p v) (em_Create (wireEndpointManager handle config))"
    "preserves (undisturbed p v) (em_ApplyPolicies (wireEndpointManager handle config) ep nats acls)"
    "preserves (undisturbed p v) (mt_SetContainer (mtu_iface ms) k)" for ep nats acls k
    unfolding defs by (auto intro!: undisturbed_frame frame_intros)
qed

lemma undisturbed_manager:
  fixes config handle defines "n \<equiv> wireNetworkManager config handle"
  shows "preserves (undisturbed p v) (Up n inputs)" "preserves (undisturbed p v) (Down n)"
    "preserves (undisturbed p v) (CreateHostNATNetwork n)" "preserves (undisturbed p v) (DeleteHostNATNetwork n)"
proof -
  have parts: "nm_applier n = wireApplier (NewRunner handle (cfg_WaitTimeoutInSeconds config)) handle winc_ports"
    "nm_endpointManager n = wireEndpointManager handle config"
    "nm_mtu n = mtu_iface \<lparr>mtu_containerId = handle, mtu_networkName = cfg_NetworkName config\<rparr>"
    by (simp_all add: n_def wireNetworkManager_def NewNetworkManager_def)
  have cleanup: "preserves (undisturbed p v) (na_Cleanup (nm_applier n))"
    by (simp add: parts wireApplier_def applier_iface_def NewApplier_def Applier_Cleanup_def undisturbed_ports)
  have del: "preserves (undisturbed p v) (em_Delete (nm_endpointManager n))"
    unfolding parts wireEndpointManager_def endpoint_iface_def by (auto intro!: undisturbed_frame frame_intros)
  show "preserves (undisturbed p v) (Up n inputs)"
    unfolding Up_def Let_def by (intro preserves_intros bystander.up_inv [OF parts] cleanup del)
  show "preserves (undisturbed p v) (Down n)"
    unfolding Down_def by (intro preserves_intros cleanup del)
  show "preserves (undisturbed p v) (CreateHostNATNetwork n)" "preserves (undisturbed p v) (DeleteHostNATNetwork n)"
    unfolding CreateHostNATNetwork_def DeleteHostNATNetwork_def Let_def parts mtu_iface_def MtuIface.select_convs
    by (auto intro!: undisturbed_frame frame_intros split: list.split)
qed

lemma undisturbed_steps:
  "preserves (undisturbed p v) (asks f)" "preserves (undisturbed p v) (write_out t)" "preserves (undisturbed p v) (ReadFile q)"
  by (auto intro!: undisturbed_frame frame_intros)

lemma preserves_annotate: "preserves P m \<Longrightarrow> preserves P (annotate msg m)"
  unfolding annotate_def by (intro preserves_intros)

lemma undisturbed_log: "p \<noteq> logFile \<Longrightarrow> preserves (undisturbed p v) (network_before logFile logFormat)"
  unfolding network_before_def open_log_def by (intro undisturbed_frame frame_intros view_files; assumption)

lemma undisturbed_action: "preserves (undisturbed p v) (network_action flags stdin0)"
proof -
  have config: "preserves (undisturbed p v) (parseConfig f)" for f
    unfolding parseConfig_def by (intro preserves_intros undisturbed_steps)
  have inputs: "preserves (undisturbed p v) (decode_UpInputs stdin0)"
    unfolding decode_UpInputs_def by (intro preserves_intros undisturbed_steps)
  show ?thesis
    unfolding network_action_def
    by (intro preserves_intros preserves_annotate undisturbed_manager undisturbed_steps config inputs)
qed

lemma undisturbed_main:
  assumes "p \<noteq> logFile"
  shows "preserves (undisturbed p v) (network_main logFile logFormat flags stdin0)"
  unfolding network_main_def
  by (intro preserves_intros undisturbed_log undisturbed_action undisturbed_steps assms)

section \<open>Other leases\<close>

lemma preserves_cleanup:
  "preserves (leased handle L) (na_Cleanup (wireApplier (NewRunner handle t) handle winc_ports))"
proof (rule preservesI)
  fix w r w'
  assume "leased handle L w" "na_Cleanup (wireApplier (NewRunner handle t) handle winc_ports) w = (r, w')"
  then have "unleased handle L w'"
    using wired.cleanup_base [of handle L w t] by auto
  then show "leased handle L w'"
    by (auto simp: leased_def unleased_def without_def fun_eq_iff intro!: exI [of _ "without handle L"])
qed

lemma leased_manager:
  fixes config handle defines "n \<equiv> wireNetworkManager config handle"
  shows "preserves (leased handle L) (Up n inputs)" "preserves (leased handle L) (Down n)"
    "preserves (leased handle L) (CreateHostNATNetwork n)" "preserves (leased handle L) (DeleteHostNATNetwork n)"
proof -
  have parts: "nm_applier n = wireApplier (NewRunner handle (cfg_WaitTimeoutInSeconds config)) handle winc_ports"
    "nm_endpointManager n = wireEndpointManager handle config"
    "nm_mtu n = mtu_iface \<lparr>mtu_containerId = handle, mtu_networkName = cfg_NetworkName config\<rparr>"
    by (simp_all add: n_def wireNetworkManager_def NewNetworkManager_def)
  have cleanup: "preserves (leased handle L) (na_Cleanup (nm_applier n))"
    unfolding parts by (rule preserves_cleanup)
  have del: "preserves (leased handle L) (em_Delete (nm_endpointManager n))"
    unfolding parts wireEndpointManager_def endpoint_iface_def by (auto intro!: leased_frame frame_intros)
  show "preserves (leased handle L) (Up n inputs)"
    unfolding Up_def Let_def by (intro preserves_intros wired.up_inv [OF parts] cleanup del)
  show "preserves (leased handle L) (Down n)"
    unfolding Down_def by (intro preserves_intros cleanup del)
  show "preserves (leased handle L) (CreateHostNATNetwork n)" "preserves (leased handle L) (DeleteHostNATNetwork n)"
    unfolding CreateHostNATNetwork_def DeleteHostNATNetwork_def Let_def parts mtu_iface_def MtuIface.select_convs
    by (auto intro!: leased_frame frame_intros split: list.split)
qed

lemma leased_steps:
  "preserves (leased handle L) (asks f)" "preserves (leased handle L) (write_out t)" "preserves (leased handle L) (ReadFile q)"
  by (auto intro!: leased_frame frame_intros)

lemma open_log_frames:
  shows "frame w_env (open_append q)" "frame (\<lambda>w. content_of w p) (MkdirAll d)"
    "p \<noteq> q \<Longrightarrow> frame (\<lambda>w. content_of w p) (open_append q)"
  by (auto simp: frame_def open_append_def MkdirAll_def os_op_def content_of_def split: option.splits)

lemma leased_action: "preserves (leased (nf_handle flags) L) (network_action flags stdin0)"
proof -
  have config: "preserves (leased handle L) (parseConfig f)" for f handle
    unfolding parseConfig_def by (intro preserves_intros leased_steps)
  have inputs: "preserves (leased handle L) (decode_UpInputs stdin0)" for handle
    unfolding decode_UpInputs_def by (intro preserves_intros leased_steps)
  show ?thesis
    unfolding network_action_def
    by (intro preserves_intros preserves_annotate leased_manager leased_steps config inputs)
qed

section \<open>One invocation of winc-network\<close>

text \<open>What an action of winc-network for the container \<open>h\<close> may make of the leases.\<close>

definition lease_change :: "string \<Rightarrow> string \<Rightarrow> bool \<Rightarrow> (u16 \<rightharpoonup> string) \<Rightarrow> (u16 \<rightharpoonup> string) \<Rightarrow> bool" where
  "lease_change action h ok L L' \<longleftrightarrow>
     (if action = ''up'' then without h L' = without h L
      else if action = ''down'' then L' = without h L \<or> L' = L \<and> \<not> ok
      else L' = L)"

abbreviation port_text :: "world \<Rightarrow> string" where
  "port_text w \<equiv> content_of w (pa_Locker winc_ports)"

lemma port_text_steps:
  "frame port_text (asks f)" "frame port_text (write_out t)" "frame port_text (ReadFile q)"
  "logFile \<noteq> pa_Locker winc_ports \<Longrightarrow> frame port_text (network_before logFile logFormat)"
  unfolding network_before_def open_log_def by (intro frame_intros open_log_frames log_event_simps; simp)+

lemma env_config: "frame w_env (parseConfig q)"
  unfolding parseConfig_def by (intro frame_intros log_event_simps)

lemma port_text_config: "frame port_text (parseConfig q)"
  unfolding parseConfig_def by (intro frame_intros port_text_steps log_event_simps)

lemma port_text_nat:
  "frame port_text (CreateHostNATNetwork (wireNetworkManager config handle))"
  "frame port_text (DeleteHostNATNetwork (wireNetworkManager config handle))"
  unfolding CreateHostNATNetwork_def DeleteHostNATNetwork_def Let_def wireNetworkManager_def NewNetworkManager_def
    mtu_iface_def NetworkManager.select_convs MtuIface.select_convs
  by (auto intro!: frame_intros split: list.split)

lemma port_text_action:
  assumes "nf_action flags \<noteq> ''up''" "nf_action flags \<noteq> ''down''"
  shows "frame port_text (network_action flags stdin0)"
  unfolding network_action_def Let_def
  by (simp only: assms if_False simp_thms, intro frame_intros frame_annotate port_text_config port_text_nat)

lemma down_leases:
  assumes "os_calm (w_env w)" "ledger (pa_Locker winc_ports) w L" "nf_action flags = ''down''"
    and "network_action flags stdin0 w = (r, w')"
  shows "ledger (pa_Locker winc_ports) w' (without (nf_handle flags) L)
    \<or> r \<noteq> Ok () \<and> ledger (pa_Locker winc_ports) w' L"
proof -
  obtain c w1 where c: "annotate ''configFile'' (parseConfig (nf_configFile flags)) w = (c, w1)"
    by fastforce
  have w1: "ledger (pa_Locker winc_ports) w1 L"
    using assms(2) frameD [OF frame_annotate [OF port_text_config] c] by (simp add: ledger_def)
  have calm: "os_calm (w_env w1)"
    using assms(1) frameD [OF frame_annotate [OF env_config] c] by simp
  show ?thesis
  proof (cases "nf_handle flags = [] \<or> (\<nexists>config. c = Ok config)")
    case True
    then have "w' = w1 \<and> r \<noteq> Ok ()"
      using assms(3,4) c by (cases c) (auto simp: network_action_def bind_def simp del: append_Cons append_Nil)
    then show ?thesis
      using w1 by simp
  next
    case False
    then obtain config where "c = Ok config"
      by blast
    then obtain r1 where "Down (wireNetworkManager config (nf_handle flags)) w1 = (r1, w')"
      using False assms(3,4) c
      by (cases "Down (wireNetworkManager config (nf_handle flags)) w1")
         (auto simp: network_action_def bind_def annotate_def attempt_def simp del: append_Cons append_Nil split: outcome.splits)
    then show ?thesis
      using down_releases [OF calm w1] by blast
  qed
qed

lemma action_leases:
  assumes "os_calm (w_env w)" "ledger (pa_Locker winc_ports) w L" "network_action flags stdin0 w = (r, w')"
  shows "\<exists>L'. ledger (pa_Locker winc_ports) w' L' \<and> lease_change (nf_action flags) (nf_handle flags) (r = Ok ()) L L'"
proof (cases "nf_action flags = ''up'' \<or> nf_action flags = ''down''")
  case True
  have "leased (nf_handle flags) L w"
    using assms(1,2) by (auto simp: leased_def)
  from preservesD [OF leased_action this assms(3)]
  have "\<exists>L'. ledger (pa_Locker winc_ports) w' L' \<and> without (nf_handle flags) L' = without (nf_handle flags) L"
    by (auto simp: leased_def)
  then show ?thesis
    using True down_leases [OF assms(1,2) _ assms(3)] by (auto simp: lease_change_def)
next
  case False
  then have "port_text w' = port_text w"
    using frameD [OF port_text_action [of flags stdin0] assms(3)] by simp
  then show ?thesis
    using False assms(2) by (auto simp: lease_change_def ledger_def)
qed

lemma lease_change_stay: "lease_change action h False L L"
  by (simp add: lease_change_def)

lemma report_error:
  assumes "bind (ignore (write_out (Error err @ [CHR 0x0A]))) (\<lambda>_. ret (1::int)) w = (r, w')"
  shows "r \<noteq> Ok 0 \<and> port_text w' = port_text w"
proof -
  let ?report = "bind (ignore (write_out (Error err @ [CHR 0x0A]))) (\<lambda>_. ret (1::int))"
  have "frame port_text ?report"
    by (intro frame_intros port_text_steps)
  moreover have "r \<noteq> Ok 0"
    using assms by (auto simp: bind_def ignore_def write_out_def os_op_def split: prod.splits option.splits)
  ultimately show ?thesis
    using frameD [of port_text ?report w r w'] assms by blast
qed

lemma main_leases:
  assumes "os_calm (w_env w)" "ledger (pa_Locker winc_ports) w L" "logFile \<noteq> pa_Locker winc_ports"
    and "network_main logFile logFormat flags stdin0 w = (r, w')"
  shows "\<exists>L'. ledger (pa_Locker winc_ports) w' L' \<and> lease_change (nf_action flags) (nf_handle flags) (r = Ok 0) L L'"
proof -
  let ?body = "bind (network_before logFile logFormat) (\<lambda>_. network_action flags stdin0)"
  obtain s w0 where s: "network_before logFile logFormat w = (s, w0)"
    by fastforce
  have w0: "ledger (pa_Locker winc_ports) w0 L" "os_calm (w_env w0)"
  proof -
    show "ledger (pa_Locker winc_ports) w0 L"
      using assms(2) frameD [OF port_text_steps(4) [OF assms(3)] s] by (simp add: ledger_def)
    have "frame w_env (network_before logFile logFormat)"
      unfolding network_before_def open_log_def by (intro frame_intros open_log_frames log_event_simps)
    then show "os_calm (w_env w0)"
      using assms(1) frameD [of w_env _ w s w0] s by metis
  qed
  show ?thesis
  proof (cases "s = Ok ()")
    case True
    obtain b w1 where b: "network_action flags stdin0 w0 = (b, w1)"
      by fastforce
    obtain L' where L': "ledger (pa_Locker winc_ports) w1 L'" "lease_change (nf_action flags) (nf_handle flags) (b = Ok ()) L L'"
      using action_leases [OF w0(2,1) b] by blast
    have "attempt ?body w = (case b of Ok x \<Rightarrow> Ok (Inr x) | Err e \<Rightarrow> Ok (Inl e) | Panic m \<Rightarrow> Panic m, w1)"
      using s True b by (cases b) (simp_all add: attempt_def bind_def)
    then have "(r = Ok 0 \<longleftrightarrow> b = Ok ()) \<and> port_text w' = port_text w1"
      using assms(4) report_error [of _ w1] by (cases b) (auto simp: network_main_def bind_def [of "attempt _"])
    then show ?thesis
      using L' by (auto simp: ledger_def)
  next
    case False
    then have "attempt ?body w = (case s of Ok x \<Rightarrow> Ok (Inr x) | Err e \<Rightarrow> Ok (Inl e) | Panic m \<Rightarrow> Panic m, w0)"
      using s by (cases s) (simp_all add: attempt_def bind_def)
    then have "r \<noteq> Ok 0 \<and> port_text w' = port_text w0"
      using assms(4) False report_error [of _ w0] by (cases s) (auto simp: network_main_def bind_def [of "attempt _"])
    then show ?thesis
      using w0(1) lease_change_stay by (auto simp: ledger_def)
  qed
qed

end
