(* ===== verification/State_Manager.thy ===== *)
theory State_Manager
  imports Hcs_Client Go_Json_Struct Go_Path
begin

text \<open>
  runtime/state/state.go and runtime/winsyscall/winsyscall.go: the record winc keeps of a
  container's user program in \<open>state.json\<close>, how each command changes it, and the status
  that is computed from it, from the host compute service and from the process table.

  The file refines a small life cycle (\<open>phase\<close>, \<open>life_step\<close>): created, started with a pid
  and a start time, or failed. The lemmas show that reading gives back what was written,
  that every operation is a step of the life cycle, and what each reported status means.
\<close>

section \<open>Package winsyscall\<close>

definition PROCESS_QUERY_INFORMATION :: u32 where
  "PROCESS_QUERY_INFORMATION = 0x400"

definition OpenProcess :: "u32 \<Rightarrow> bool \<Rightarrow> u32 \<Rightarrow> u64 op" where
  "OpenProcess flags inherit pid =
     ask (Win (WOpenProcess flags inherit pid)) (\<lambda>e h. o_OpenProcess (e_win e) h flags inherit pid)"

definition GetProcessStartTime :: "u64 \<Rightarrow> Filetime op" where
  "GetProcessStartTime handle =
     ask (Win (WGetProcessTimes handle)) (\<lambda>e h. o_GetProcessTimes (e_win e) h handle)"

definition CloseHandle :: "u64 \<Rightarrow> unit op" where
  "CloseHandle handle = ask (Win (WCloseHandle handle)) (\<lambda>e h. o_WinCall (e_win e) h (WCloseHandle handle))"

definition GetExitCodeProcess :: "u64 \<Rightarrow> u32 op" where
  "GetExitCodeProcess handle =
     ask (Win (WGetExitCodeProcess handle)) (\<lambda>e h. o_GetExitCodeProcess (e_win e) h handle)"

section \<open>The state file\<close>

definition stateFile :: string where
  "stateFile = ''state.json''"

definition STILL_ACTIVE_EXIT_CODE :: u32 where
  "STILL_ACTIVE_EXIT_CODE = 259"

record StateManager =
  sm_containerId :: string
  sm_rootDir :: string

record State =
  ws_Bundle :: string
  ws_PID :: int
  ws_StartTime :: Filetime
  ws_ExecFailed :: bool

definition zero_Filetime :: Filetime where
  "zero_Filetime = \<lparr>LowDateTime = 0, HighDateTime = 0\<rparr>"

definition zero_State :: State where
  "zero_State = \<lparr>ws_Bundle = [], ws_PID = 0, ws_StartTime = zero_Filetime, ws_ExecFailed = False\<rparr>"

definition enc_Filetime :: "Filetime \<Rightarrow> json" where
  "enc_Filetime t = JObj [(''LowDateTime'', enc_uint (LowDateTime t)), (''HighDateTime'', enc_uint (HighDateTime t))]"

definition enc_State :: "State \<Rightarrow> json" where
  "enc_State s = JObj [(''bundle'', JStr (ws_Bundle s)), (''pid'', enc_int (ws_PID s)),
     (''start_time'', enc_Filetime (ws_StartTime s)), (''exec_failed'', JBool (ws_ExecFailed s))]"

definition filetime_fields :: "Filetime fields" where
  "filetime_fields =
     [(''LowDateTime'', field LowDateTime (\<lambda>x r. r\<lparr>LowDateTime := x\<rparr>) dec_uint),
      (''HighDateTime'', field HighDateTime (\<lambda>x r. r\<lparr>HighDateTime := x\<rparr>) dec_uint)]"

definition state_fields :: "State fields" where
  "state_fields =
     [(''bundle'', field ws_Bundle (\<lambda>x r. r\<lparr>ws_Bundle := x\<rparr>) dec_str),
      (''pid'', field ws_PID (\<lambda>x r. r\<lparr>ws_PID := x\<rparr>) dec_int),
      (''start_time'', field ws_StartTime (\<lambda>x r. r\<lparr>ws_StartTime := x\<rparr>) (dec_struct filetime_fields)),
      (''exec_failed'', field ws_ExecFailed (\<lambda>x r. r\<lparr>ws_ExecFailed := x\<rparr>) dec_bool)]"

definition decode_State :: "string \<Rightarrow> State option" where
  "decode_State contents = Option.bind (unmarshal_json contents) (dec_struct state_fields zero_State)"

definition stateDir :: "StateManager \<Rightarrow> string" where
  "stateDir m = Join [sm_rootDir m, sm_containerId m]"

definition state_path :: "StateManager \<Rightarrow> string" where
  "state_path m = Join [stateDir m, stateFile]"

definition loadState :: "StateManager \<Rightarrow> State op" where
  "loadState m =
     bind (ReadFile (state_path m)) (\<lambda>contents.
     bind (asks (\<lambda>e. o_JsonMessage (e_lib e) contents)) (\<lambda>msg.
       case decode_State contents of
         None \<Rightarrow> throw (JsonError msg)
       | Some state \<Rightarrow> ret state))"

definition writeState :: "StateManager \<Rightarrow> State \<Rightarrow> unit op" where
  "writeState m state = WriteFile (state_path m) (print_json (enc_State state))"

section \<open>The operations\<close>

definition State_Initialize :: "StateManager \<Rightarrow> string \<Rightarrow> unit op" where
  "State_Initialize m bundlePath =
     bind (MkdirAll (stateDir m)) (\<lambda>_. writeState m (zero_State\<lparr>ws_Bundle := bundlePath\<rparr>))"

definition State_Delete :: "StateManager \<Rightarrow> unit op" where
  "State_Delete m = RemoveAll (stateDir m)"

definition SetFailure :: "StateManager \<Rightarrow> unit op" where
  "SetFailure m =
     bind (loadState m) (\<lambda>state.
       writeState m (state\<lparr>ws_PID := 0, ws_StartTime := zero_Filetime, ws_ExecFailed := True\<rparr>))"

text \<open>A failed look at the process is recorded as a failure; the error of that write is dropped.\<close>

definition SetSuccess :: "StateManager \<Rightarrow> Process \<Rightarrow> unit op" where
  "SetSuccess m proc =
     bind (loadState m) (\<lambda>loaded.
     let state = loaded\<lparr>ws_PID := p_Pid proc\<rparr> in
     bind (attempt (OpenProcess PROCESS_QUERY_INFORMATION False (word_of_int (ws_PID state)))) (\<lambda>opened. case opened of
       Inl err \<Rightarrow>
         bind (ignore (writeState m (state\<lparr>ws_ExecFailed := True\<rparr>))) (\<lambda>_.
           throw (Errorf (''OpenProcess: '' @ Error err)))
     | Inr h \<Rightarrow>
         deferring (CloseHandle h)
           (bind (attempt (GetProcessStartTime h)) (\<lambda>got. case got of
              Inl err \<Rightarrow>
                bind (ignore (writeState m (state\<lparr>ws_ExecFailed := True\<rparr>))) (\<lambda>_.
                  throw (Errorf (''GetProcessStartTime: '' @ Error err)))
            | Inr creationTime \<Rightarrow> writeState m (state\<lparr>ws_StartTime := creationTime\<rparr>)))))"

definition stateValid :: "State \<Rightarrow> bool" where
  "stateValid state \<longleftrightarrow>
     (ws_PID state = 0 \<and> ws_StartTime state = zero_Filetime)
     \<or> (ws_PID state \<noteq> 0 \<and> ws_StartTime state \<noteq> zero_Filetime)"

text \<open>\<open>%+v\<close> of a \<open>Filetime\<close>\<close>

definition fmt_Filetime :: "Filetime \<Rightarrow> string" where
  "fmt_Filetime t =
     ''{LowDateTime:'' @ format_uint (LowDateTime t) @ '' HighDateTime:'' @ format_uint (HighDateTime t) @ ''}''"

definition invalid_state :: "State \<Rightarrow> error" where
  "invalid_state state =
     Errorf (''invalid state: PID '' @ itoa (ws_PID state) @ '', start time '' @ fmt_Filetime (ws_StartTime state))"

definition userProgramStatus :: "StateManager \<Rightarrow> State \<Rightarrow> ContainerState op" where
  "userProgramStatus m state =
     (if ws_ExecFailed state then ret StateStopped
      else if \<not> stateValid state then throw (invalid_state state)
      else if ws_PID state = 0 \<and> ws_StartTime state = zero_Filetime then ret StateCreated
      else
        bind (attempt (OpenProcess PROCESS_QUERY_INFORMATION False (word_of_int (ws_PID state)))) (\<lambda>opened. case opened of
          Inl err \<Rightarrow>
            if is_errno 0x57 err then ret StateStopped
            else throw (Errorf (''OpenProcess: '' @ Error err))
        | Inr h \<Rightarrow>
            deferring (CloseHandle h)
              (bind (annotate ''GetExitCodeProcess'' (GetExitCodeProcess h)) (\<lambda>exitCode.
                 if exitCode \<noteq> STILL_ACTIVE_EXIT_CODE then ret StateStopped
                 else
                   bind (annotate ''GetProcessStartTime'' (GetProcessStartTime h)) (\<lambda>creationTime.
                     if creationTime = ws_StartTime state then ret StateRunning else ret StateStopped)))))"

definition State_State :: "StateManager \<Rightarrow> OCIState op" where
  "State_State m =
     bind (GetContainerProperties (sm_containerId m)) (\<lambda>cp.
     bind (loadState m) (\<lambda>state.
     bind (if cp_Stopped cp then ret StateStopped else userProgramStatus m state) (\<lambda>status.
     bind (asks (\<lambda>e. o_SpecVersion (e_lib e))) (\<lambda>version.
       ret \<lparr>os_Version = version, os_ID = sm_containerId m, os_Status = status,
            os_Bundle = ws_Bundle state, os_Pid = ws_PID state\<rparr>))))"

lemmas win_syscall_defs = OpenProcess_def GetProcessStartTime_def CloseHandle_def GetExitCodeProcess_def

section \<open>What the operations leave alone\<close>

lemma frame_win_syscalls [frame_intros]:
  assumes "\<And>c w. f (log_event (Win c) w) = f w"
  shows "frame f (OpenProcess a b c)" "frame f (GetProcessStartTime h)" "frame f (CloseHandle h)"
    "frame f (GetExitCodeProcess h)"
  unfolding win_syscall_defs by (intro frame_ask assms)+

lemma no_panic_win_syscalls [safe_intros]:
  "no_panic (OpenProcess a b c)" "no_panic (GetProcessStartTime h)" "no_panic (CloseHandle h)"
  "no_panic (GetExitCodeProcess h)"
  unfolding win_syscall_defs by (intro safe_intros)+

lemma frame_loadState [frame_intros]:
  "(\<And>c w. f (log_event (Os c) w) = f w) \<Longrightarrow> frame f (loadState m)"
  unfolding loadState_def by (intro frame_intros)

lemma frame_State [frame_intros]:
  assumes "\<And>ev w. f (log_event ev w) = f w"
  shows "frame f (userProgramStatus m st)" "frame f (State_State m)"
  unfolding userProgramStatus_def State_State_def by (intro frame_intros assms)+

lemma env_state [frame_intros]:
  "frame w_env (writeState m st)" "frame w_env (State_Initialize m b)" "frame w_env (State_Delete m)"
  "frame w_env (SetFailure m)" "frame w_env (SetSuccess m p)"
  unfolding writeState_def State_Initialize_def State_Delete_def SetFailure_def SetSuccess_def Let_def
  by (intro frame_intros log_event_simps)+

lemma no_panic_state [safe_intros]:
  "no_panic (loadState m)" "no_panic (writeState m st)" "no_panic (State_Initialize m b)" "no_panic (State_Delete m)"
  "no_panic (SetFailure m)" "no_panic (SetSuccess m p)" "no_panic (userProgramStatus m st)" "no_panic (State_State m)"
  unfolding loadState_def writeState_def State_Initialize_def State_Delete_def SetFailure_def SetSuccess_def
    userProgramStatus_def State_State_def Let_def
  by (intro safe_intros)+

section \<open>Reading what was written\<close>

text \<open>The state that is recorded on disk.\<close>

definition recorded :: "StateManager \<Rightarrow> world \<Rightarrow> State option" where
  "recorded m w = Option.bind (files w (state_path m)) decode_State"

text \<open>\<open>PID\<close> is a 64-bit \<open>int\<close>.\<close>

definition int64 :: "int \<Rightarrow> bool" where
  "int64 i \<longleftrightarrow> - (2 ^ 63) \<le> i \<and> i < 2 ^ 63"

lemma decode_enc_State:
  assumes "int64 (ws_PID st)"
  shows "decode_State (print_json (enc_State st)) = Some st"
proof -
  have wf: "wf_json (enc_State st)"
    by (simp add: enc_State_def enc_Filetime_def)
  have time: "dec_struct filetime_fields t0 (enc_Filetime t) = Some t" for t0 t
    by (simp add: enc_Filetime_def filetime_fields_def dec_members_simps field_for_def fold_name_def
        lower_char_def field_def)
  have pid: "dec_int old (enc_int (ws_PID st)) = Some (ws_PID st)" for old
    using assms by (intro dec_int_enc) (simp_all add: int64_def)
  show ?thesis
    unfolding decode_State_def unmarshal_print [OF wf]
    by (simp add: enc_State_def state_fields_def dec_members_simps field_for_def fold_name_def
        lower_char_def field_def time pid)
qed

lemma loadState_Ok: "loadState m w = (Ok st, w') \<Longrightarrow> recorded m w = Some st"
  unfolding loadState_def recorded_def
  by (auto elim!: ok_elims dest!: ReadFile_Ok simp: asks_def split: option.splits)

lemma calm_loadState:
  assumes "os_calm (w_env w)" "recorded m w = Some st"
  shows "loadState m w = (Ok st, log_event (Os (OReadFile (state_path m))) w)"
  using assms unfolding loadState_def recorded_def
  by (auto simp: ReadFile_def calm_os_op asks_def bind_def split: Option.bind_splits)

lemma calm_writeState:
  assumes "os_calm (w_env w)"
  obtains w' where "writeState m st w = (Ok (), w')" "w_env w' = w_env w"
    "files w' = (files w)(state_path m := Some (print_json (enc_State st)))"
  using that assms unfolding writeState_def WriteFile_def by (simp add: calm_os_op)

lemma recorded_write:
  assumes "files w' = (files w)(state_path m := Some (print_json (enc_State st)))" "int64 (ws_PID st)"
  shows "recorded m w' = Some st"
  using assms by (simp add: recorded_def decode_enc_State)

lemma recorded_frame: "files w' = files w \<Longrightarrow> recorded m w' = recorded m w"
  by (simp add: recorded_def)

text \<open>
  C37: reading gives back what was written. When no file operation fails, a state that was
  written is loaded as the same state, field by field, whatever the bundle's path is and
  whatever the file held before.
\<close>

theorem state_roundtrip:
  assumes "os_calm (w_env w)" and "- (2 ^ 63) \<le> ws_PID st" and "ws_PID st < 2 ^ 63"
  shows "fst (bind (writeState m st) (\<lambda>_. loadState m) w) = Ok st"
proof -
  obtain w' where w': "writeState m st w = (Ok (), w')" "w_env w' = w_env w"
      "files w' = (files w)(state_path m := Some (print_json (enc_State st)))"
    using calm_writeState [OF assms(1)] .
  then have "recorded m w' = Some st"
    using assms by (intro recorded_write) (auto simp: int64_def)
  then have "loadState m w' = (Ok st, log_event (Os (OReadFile (state_path m))) w')"
    using assms(1) w'(2) by (intro calm_loadState) simp_all
  then show ?thesis
    using w'(1) by (simp add: bind_Ok)
qed

theorem state_roundtrip_witness:
  "let st = \<lparr>ws_Bundle = ''C:'' @ [CHR 0x5C] @ ''a b'' @ [CHR 0x22], ws_PID = 4242,
             ws_StartTime = \<lparr>LowDateTime = 7, HighDateTime = 31000000\<rparr>, ws_ExecFailed = False\<rparr>
   in fst (bind (writeState \<lparr>sm_containerId = ''c'', sm_rootDir = ''C:''\<rparr> st)
                (\<lambda>_. loadState \<lparr>sm_containerId = ''c'', sm_rootDir = ''C:''\<rparr>) quiet_world) = Ok st"
  unfolding Let_def by (rule state_roundtrip) (simp_all add: quiet_calm)

section \<open>The life cycle\<close>

datatype phase =
    Created (phase_bundle: string)
  | Started (phase_bundle: string) (phase_pid: int) (phase_time: Filetime)
  | Failed (phase_bundle: string)

text \<open>The phase that a record stands for; an inconsistent record stands for none.\<close>

definition phase_of :: "State \<Rightarrow> phase option" where
  "phase_of st =
     (if ws_ExecFailed st then Some (Failed (ws_Bundle st))
      else if ws_PID st = 0 \<and> ws_StartTime st = zero_Filetime then Some (Created (ws_Bundle st))
      else if ws_PID st \<noteq> 0 \<and> ws_StartTime st \<noteq> zero_Filetime
      then Some (Started (ws_Bundle st) (ws_PID st) (ws_StartTime st))
      else None)"

lemma phase_of_stateValid: "phase_of st = None \<longleftrightarrow> \<not> ws_ExecFailed st \<and> \<not> stateValid st"
  by (auto simp: phase_of_def stateValid_def)

lemma phase_of_valid: "phase_of st = Some p \<Longrightarrow> \<not> stateValid st \<Longrightarrow> ws_ExecFailed st"
  by (auto simp: phase_of_def stateValid_def split: if_splits)

datatype life_op = Initialize_op string | SetFailure_op | SetSuccess_op Process | Delete_op

text \<open>
  One step of the life cycle, \<open>None\<close> standing for a container without a record: a step that
  needs a record changes nothing when there is none. A failed program stays failed.
\<close>

inductive life_step :: "phase option \<Rightarrow> life_op \<Rightarrow> phase option \<Rightarrow> bool" where
  initialize: "life_step ph (Initialize_op b) (Some (Created b))"
| fail: "life_step (Some ph) SetFailure_op (Some (Failed (phase_bundle ph)))"
| succeed: "p_Pid p \<noteq> 0 \<Longrightarrow> t \<noteq> zero_Filetime \<Longrightarrow> \<forall>b. ph \<noteq> Failed b \<Longrightarrow>
    life_step (Some ph) (SetSuccess_op p) (Some (Started (phase_bundle ph) (p_Pid p) t))"
| lost: "life_step (Some ph) (SetSuccess_op p) (Some (Failed (phase_bundle ph)))"
| nothing_to_fail: "life_step None SetFailure_op None"
| nothing_to_start: "life_step None (SetSuccess_op p) None"
| delete: "life_step ph Delete_op None"

inductive_cases life_step_startE: "life_step ph (SetSuccess_op p) ph'"

fun run_life :: "StateManager \<Rightarrow> life_op \<Rightarrow> unit op" where
  "run_life m (Initialize_op b) = State_Initialize m b"
| "run_life m SetFailure_op = SetFailure m"
| "run_life m (SetSuccess_op p) = SetSuccess m p"
| "run_life m Delete_op = State_Delete m"

text \<open>
  The conditions under which the file follows the life cycle: no file operation fails, the
  file lies in the container's directory, and Windows gives a process a pid that fits into
  an \<open>int\<close> and is not 0, and a start time that is not 0.
\<close>

definition honest_times :: "env \<Rightarrow> bool" where
  "honest_times e \<longleftrightarrow> (\<forall>h p t. o_GetProcessTimes (e_win e) h p = Inr t \<longrightarrow> t \<noteq> zero_Filetime)"

definition honest_op :: "life_op \<Rightarrow> bool" where
  "honest_op op = (case op of SetSuccess_op p \<Rightarrow> p_Pid p \<noteq> 0 \<and> int64 (p_Pid p) | _ \<Rightarrow> True)"

definition well_placed :: "StateManager \<Rightarrow> bool" where
  "well_placed m \<longleftrightarrow> under (stateDir m) (state_path m)"

text \<open>Either there is no file, or its record is consistent and stands for the phase.\<close>

definition follows :: "StateManager \<Rightarrow> world \<Rightarrow> phase option \<Rightarrow> bool" where
  "follows m w ph \<longleftrightarrow> os_calm (w_env w) \<and> honest_times (w_env w)
     \<and> (case ph of
          None \<Rightarrow> files w (state_path m) = None
        | Some p \<Rightarrow> \<exists>st. recorded m w = Some st \<and> phase_of st = Some p)"

lemma follows_env: "follows m w ph \<Longrightarrow> os_calm (w_env w) \<and> honest_times (w_env w)"
  by (simp add: follows_def)

lemma followsI:
  assumes "follows m w0 ph0" "w_env w = w_env w0" "recorded m w = Some st" "phase_of st = Some p"
  shows "follows m w (Some p)"
  using assms by (auto simp: follows_def)

lemma follows_frame:
  assumes "follows m w ph" "w_env w' = w_env w" "files w' = files w"
  shows "follows m w' ph"
  using assms by (cases ph) (simp_all add: follows_def recorded_def)

lemma well_placed_rooted:
  assumes "sm_rootDir m = rooted_path d es" "list_all plain es" "es \<noteq> []" "plain (sm_containerId m)"
    "d \<noteq> CHR ''/''" "last (rooted_path d es) \<noteq> CHR '':''" "last (sm_containerId m) \<noteq> CHR '':''"
  shows "well_placed m"
proof -
  have dir: "stateDir m = rooted_path d (es @ [sm_containerId m])"
    using assms by (simp add: stateDir_def)
  have "last (rooted_path d (es @ [sm_containerId m])) \<noteq> CHR '':''"
    using assms(4,7) by (simp add: rooted_path_append plain_def)
  moreover have "plain stateFile"
    by (simp add: plain_def stateFile_def is_sep_def)
  ultimately have "state_path m = rooted_path d ((es @ [sm_containerId m]) @ [stateFile])"
    unfolding state_path_def dir using assms by (intro Join_rooted) simp_all
  then show ?thesis
    unfolding well_placed_def dir rooted_path_append [of d _ stateFile] by (simp add: under_def)
qed

text \<open>Running an operation from a world that follows the life cycle.\<close>

lemma writeState_follows:
  assumes "follows m w0 ph0" "w_env w = w_env w0" "int64 (ws_PID st)" "phase_of st = Some p"
  obtains w' where "writeState m st w = (Ok (), w')" "w_env w' = w_env w" "follows m w' (Some p)"
proof -
  have "os_calm (w_env w)"
    using assms(1,2) by (simp add: follows_def)
  then obtain w' where w': "writeState m st w = (Ok (), w')" "w_env w' = w_env w"
      "files w' = (files w)(state_path m := Some (print_json (enc_State st)))"
    by (rule calm_writeState)
  moreover have "follows m w' (Some p)"
    using followsI [OF assms(1), of w' st] recorded_write [OF w'(3) assms(3)] w'(2) assms(2,4) by simp
  ultimately show ?thesis
    using that by blast
qed

lemma no_record: "follows m w None \<Longrightarrow> \<exists>e. loadState m w = (Err e, log_event (Os (OReadFile (state_path m))) w)"
  by (simp add: follows_def loadState_def ReadFile_def calm_os_op bind_def)

lemma a_record:
  assumes "follows m w (Some p)"
  obtains st where "loadState m w = (Ok st, log_event (Os (OReadFile (state_path m))) w)"
    "recorded m w = Some st" "phase_of st = Some p"
  using assms calm_loadState that unfolding follows_def by auto

lemma phase_of_bundle: "phase_of st = Some p \<Longrightarrow> phase_bundle p = ws_Bundle st"
  by (auto simp: phase_of_def split: if_splits)

lemma phase_of_failed: "phase_of (st\<lparr>ws_ExecFailed := True\<rparr>) = Some (Failed (ws_Bundle st))"
  by (simp add: phase_of_def)

lemma Initialize_follows:
  assumes "follows m w ph" "State_Initialize m b w = (r, w')"
  shows "r = Ok () \<and> follows m w' (Some (Created b))"
proof -
  obtain w1 where w1: "MkdirAll (stateDir m) w = (Ok (), w1)" "w_env w1 = w_env w"
    using assms(1) by (simp add: MkdirAll_def calm_os_op follows_def)
  obtain w2 where "writeState m (zero_State\<lparr>ws_Bundle := b\<rparr>) w1 = (Ok (), w2)" "follows m w2 (Some (Created b))"
    by (rule writeState_follows [OF assms(1) w1(2), of "zero_State\<lparr>ws_Bundle := b\<rparr>" "Created b"])
       (simp_all add: zero_State_def int64_def phase_of_def)
  then show ?thesis
    using assms(2) w1(1) by (simp add: State_Initialize_def bind_Ok)
qed

lemma SetFailure_follows:
  assumes "follows m w ph" "SetFailure m w = (r, w')"
  shows "case ph of None \<Rightarrow> (\<exists>e. r = Err e) \<and> follows m w' None
                  | Some p \<Rightarrow> r = Ok () \<and> follows m w' (Some (Failed (phase_bundle p)))"
proof (cases ph)
  case None
  then obtain e where "loadState m w = (Err e, log_event (Os (OReadFile (state_path m))) w)"
    using no_record assms(1) by blast
  then show ?thesis
    using assms None by (auto simp: SetFailure_def bind_Err intro: follows_frame)
next
  case (Some p)
  then obtain st where st: "loadState m w = (Ok st, log_event (Os (OReadFile (state_path m))) w)" "phase_of st = Some p"
    using a_record assms(1) by blast
  let ?st = "st\<lparr>ws_PID := 0, ws_StartTime := zero_Filetime, ws_ExecFailed := True\<rparr>"
  obtain w2 where "writeState m ?st (log_event (Os (OReadFile (state_path m))) w) = (Ok (), w2)"
      "follows m w2 (Some (Failed (phase_bundle p)))"
    by (rule writeState_follows [OF assms(1), of "log_event (Os (OReadFile (state_path m))) w" ?st "Failed (phase_bundle p)"])
       (simp_all add: int64_def phase_of_def phase_of_bundle [OF st(2)])
  then show ?thesis
    using assms(2) st(1) Some by (simp add: SetFailure_def bind_Ok)
qed

lemma Delete_follows:
  assumes "follows m w ph" "well_placed m" "State_Delete m w = (r, w')"
  shows "r = Ok () \<and> follows m w' None"
  using assms by (auto simp: State_Delete_def RemoveAll_def calm_os_op follows_def well_placed_def)

text \<open>A write inside \<open>ignore\<close> followed by an error, as \<open>SetSuccess\<close> does when it loses the process.\<close>

lemma lost_follows:
  assumes "follows m w0 ph0" "w_env w = w_env w0" "int64 (ws_PID st)"
    and "bind (ignore (writeState m (st\<lparr>ws_ExecFailed := True\<rparr>))) (\<lambda>_. throw err) w = (r, w')"
  shows "r = Err err \<and> follows m w' (Some (Failed (ws_Bundle st)))"
proof -
  obtain w2 where "writeState m (st\<lparr>ws_ExecFailed := True\<rparr>) w = (Ok (), w2)" "follows m w2 (Some (Failed (ws_Bundle st)))"
    by (rule writeState_follows [OF assms(1,2), of "st\<lparr>ws_ExecFailed := True\<rparr>"]) (simp_all add: assms(3) phase_of_failed)
  then show ?thesis
    using assms(4) by (simp add: ignore_def bind_def)
qed

lemma CloseHandle_follows: "follows m w ph \<Longrightarrow> CloseHandle h w = (q, w') \<Longrightarrow> follows m w' ph"
  by (auto simp: CloseHandle_def ask_def intro: follows_frame)

lemma GetProcessStartTime_cases:
  assumes "honest_times (w_env w)"
  obtains (Err) e where "GetProcessStartTime h w = (Err e, log_event (Win (WGetProcessTimes h)) w)"
  | (Ok) t where "GetProcessStartTime h w = (Ok t, log_event (Win (WGetProcessTimes h)) w)" "t \<noteq> zero_Filetime"
  using assms
  by (cases "o_GetProcessTimes (e_win (w_env w)) (hist w) h")
     (auto simp: GetProcessStartTime_def ask_def honest_times_def)

text \<open>Once the process is open, its start time is recorded, or the start counts as failed.\<close>

lemma record_start_follows:
  assumes w: "follows m w0 ph0" "w_env w = w_env w0" and int: "int64 (ws_PID st)"
    and new: "\<And>t. t \<noteq> zero_Filetime \<Longrightarrow> phase_of (st\<lparr>ws_StartTime := t\<rparr>) = Some (q t)"
    and run: "bind (attempt (GetProcessStartTime h)) (\<lambda>got. case got of
        Inl e \<Rightarrow> bind (ignore (writeState m (st\<lparr>ws_ExecFailed := True\<rparr>))) (\<lambda>_. throw (Errorf (''GetProcessStartTime: '' @ Error e)))
      | Inr creationTime \<Rightarrow> writeState m (st\<lparr>ws_StartTime := creationTime\<rparr>)) w = (r, w')"
  shows "r = Ok () \<and> (\<exists>t. t \<noteq> zero_Filetime \<and> follows m w' (Some (q t)))
    \<or> r \<noteq> Ok () \<and> follows m w' (Some (Failed (ws_Bundle st)))"
proof -
  let ?w3 = "log_event (Win (WGetProcessTimes h)) w"
  have "honest_times (w_env w)"
    using w by (simp add: follows_def)
  then show ?thesis
  proof (cases rule: GetProcessStartTime_cases [where h = h])
    case (Err e)
    then have "bind (ignore (writeState m (st\<lparr>ws_ExecFailed := True\<rparr>))) (\<lambda>_. throw (Errorf (''GetProcessStartTime: '' @ Error e))) ?w3 = (r, w')"
      using run by (simp add: bind_Ok attempt_Err del: append_Cons append_Nil)
    then have "r = Err (Errorf (''GetProcessStartTime: '' @ Error e)) \<and> follows m w' (Some (Failed (ws_Bundle st)))"
      using w(2) by (intro lost_follows [OF w(1) _ int]) simp_all
    then show ?thesis
      by simp
  next
    case (Ok t)
    have "w_env ?w3 = w_env w0" "int64 (ws_PID (st\<lparr>ws_StartTime := t\<rparr>))"
      using w(2) int by simp_all
    then obtain w5 where "writeState m (st\<lparr>ws_StartTime := t\<rparr>) ?w3 = (Ok (), w5)" "follows m w5 (Some (q t))"
      using writeState_follows [OF w(1) _ _ new [OF Ok(2)]] by metis
    then show ?thesis
      using run Ok by (auto simp: bind_Ok attempt_Ok)
  qed
qed

lemma SetSuccess_follows:
  assumes w: "follows m w (Some p)" and pid: "p_Pid proc \<noteq> 0" "int64 (p_Pid proc)"
    and run: "SetSuccess m proc w = (r, w')"
  shows "if r = Ok () \<and> \<not> (\<exists>b. p = Failed b)
         then \<exists>t. t \<noteq> zero_Filetime \<and> follows m w' (Some (Started (phase_bundle p) (p_Pid proc) t))
         else follows m w' (Some (Failed (phase_bundle p)))"
proof -
  let ?w1 = "log_event (Os (OReadFile (state_path m))) w"
  obtain st where st: "loadState m w = (Ok st, ?w1)" "phase_of st = Some p"
    using a_record w by blast
  let ?st = "st\<lparr>ws_PID := p_Pid proc\<rparr>"
  have bdl: "ws_Bundle ?st = phase_bundle p"
    using phase_of_bundle [OF st(2)] by simp
  have int: "int64 (ws_PID ?st)"
    using pid by simp
  let ?w2 = "log_event (Win (WOpenProcess PROCESS_QUERY_INFORMATION False (word_of_int (p_Pid proc)))) ?w1"
  have env: "w_env ?w2 = w_env w"
    by simp
  obtain ro where ro: "OpenProcess PROCESS_QUERY_INFORMATION False (word_of_int (p_Pid proc)) ?w1 = (ro, ?w2)"
    by (simp add: OpenProcess_def ask_def)
  show ?thesis
  proof (cases ro)
    case (Err e)
    then have "bind (ignore (writeState m (?st\<lparr>ws_ExecFailed := True\<rparr>))) (\<lambda>_. throw (Errorf (''OpenProcess: '' @ Error e))) ?w2 = (r, w')"
      using run st(1) ro by (simp add: SetSuccess_def bind_Ok attempt_Err Let_def del: append_Cons append_Nil)
    from lost_follows [OF w env int this] show ?thesis
      using bdl by simp
  next
    case (Ok h)
    let ?q = "\<lambda>t. if \<exists>b. p = Failed b then Failed (phase_bundle p) else Started (phase_bundle p) (p_Pid proc) t"
    have new: "phase_of (?st\<lparr>ws_StartTime := t\<rparr>) = Some (?q t)" if "t \<noteq> zero_Filetime" for t
      using st(2) that pid(1) phase_of_bundle [OF st(2)] by (auto simp: phase_of_def split: if_splits)
    let ?body = "bind (attempt (GetProcessStartTime h)) (\<lambda>got. case got of
        Inl e \<Rightarrow> bind (ignore (writeState m (?st\<lparr>ws_ExecFailed := True\<rparr>))) (\<lambda>_. throw (Errorf (''GetProcessStartTime: '' @ Error e)))
      | Inr creationTime \<Rightarrow> writeState m (?st\<lparr>ws_StartTime := creationTime\<rparr>))"
    have "deferring (CloseHandle h) ?body ?w2 = (r, w')"
      using run st(1) ro Ok by (simp add: SetSuccess_def bind_Ok attempt_Ok Let_def del: append_Cons append_Nil)
    then obtain w4 q where body: "?body ?w2 = (r, w4)" and close: "CloseHandle h w4 = (q, w')"
      by (cases rule: deferring_cases) (auto dest: no_panicD [OF no_panic_win_syscalls(3)])
    from record_start_follows [OF w env int new body] show ?thesis
      using bdl CloseHandle_follows [OF _ close] by auto
  qed (use ro in \<open>auto simp: OpenProcess_def ask_def split: sum.splits\<close>)
qed

lemma run_life_step:
  assumes "follows m w ph" "well_placed m" "honest_op op" "run_life m op w = (r, w')"
  shows "\<exists>ph'. life_step ph op ph' \<and> follows m w' ph'"
proof (cases op)
  case (Initialize_op b)
  then show ?thesis
    using Initialize_follows [OF assms(1)] assms(4) by (auto intro: life_step.intros)
next
  case SetFailure_op
  then show ?thesis
    using SetFailure_follows [OF assms(1)] assms(4) by (cases ph) (force intro: life_step.intros)+
next
  case Delete_op
  then show ?thesis
    using Delete_follows [OF assms(1,2)] assms(4) by (auto intro: life_step.intros)
next
  case (SetSuccess_op p)
  show ?thesis
  proof (cases ph)
    case None
    then obtain e where "loadState m w = (Err e, log_event (Os (OReadFile (state_path m))) w)"
      using no_record assms(1) by blast
    then have "w' = log_event (Os (OReadFile (state_path m))) w"
      using assms(4) SetSuccess_op by (simp add: SetSuccess_def bind_Err)
    then have "follows m w' None"
      using None assms(1) by (auto intro: follows_frame)
    then show ?thesis
      using None SetSuccess_op by (auto intro: life_step.intros)
  next
    case (Some q)
    have pid: "p_Pid p \<noteq> 0" "int64 (p_Pid p)"
      using assms(3) SetSuccess_op by (auto simp: honest_op_def)
    have "follows m w (Some q)" "SetSuccess m p w = (r, w')"
      using assms(1,4) Some SetSuccess_op by auto
    from SetSuccess_follows [OF this(1) pid this(2)] show ?thesis
      unfolding Some SetSuccess_op using life_step.succeed [OF pid(1), of _ q] life_step.lost [of q p]
      by (metis (no_types))
  qed
qed

inductive life_trace :: "phase option \<Rightarrow> life_op list \<Rightarrow> phase option \<Rightarrow> bool" where
  none: "life_trace ph [] ph"
| step: "life_step ph op ph1 \<Longrightarrow> life_trace ph1 ops ph' \<Longrightarrow> life_trace ph (op # ops) ph'"

fun run_trace :: "StateManager \<Rightarrow> life_op list \<Rightarrow> world \<Rightarrow> world" where
  "run_trace m [] w = w"
| "run_trace m (op # ops) w = run_trace m ops (snd (run_life m op w))"

lemma run_trace_follows:
  "follows m w ph \<Longrightarrow> well_placed m \<Longrightarrow> list_all honest_op ops \<Longrightarrow>
   \<exists>ph'. life_trace ph ops ph' \<and> follows m (run_trace m ops w) ph'"
proof (induction ops arbitrary: w ph)
  case (Cons op ops)
  obtain ph1 where ph1: "life_step ph op ph1" "follows m (snd (run_life m op w)) ph1"
    using run_life_step [OF Cons.prems(1,2), of op] Cons.prems(3) by (metis list.pred_inject(2) prod.collapse)
  then show ?case
    using Cons.IH [OF ph1(2)] Cons.prems by (auto intro: life_trace.intros)
qed (auto intro: life_trace.intros)

text \<open>
  C3: the state file refines the life cycle. Any sequence of the operations of a state
  manager, in any order and whether they succeed or fail, moves the record on disk along
  the steps of the life cycle: initialised containers are created, a start that worked
  records the pid and the start time of the process, a failed start or a process that
  could not be opened is recorded as failed and stays so, and a deleted container has no
  record.
\<close>

theorem state_refines_life_cycle:
  assumes "well_placed m" and "list_all honest_op ops" and "follows m w ph"
  shows "\<exists>ph'. life_trace ph ops ph' \<and> follows m (run_trace m ops w) ph'"
  using run_trace_follows assms by blast

definition example_manager :: StateManager where
  "example_manager = \<lparr>sm_containerId = ''app'', sm_rootDir = rooted_path (CHR ''C'') [''winc'']\<rparr>"

lemma example_placed: "well_placed example_manager"
  by (rule well_placed_rooted [where d = "CHR ''C''" and es = "[''winc'']"])
     (simp_all add: example_manager_def plain_def is_sep_def rooted_path_def)

lemma quiet_follows: "follows m quiet_world None"
  by (simp add: follows_def quiet_calm honest_times_def) (simp add: quiet_defs zero_Filetime_def)

theorem state_refines_life_cycle_witness:
  "\<exists>ph'. life_trace None [Initialize_op ''b'', SetSuccess_op \<lparr>p_Pid = 7, p_Handle = 1\<rparr>] ph'
     \<and> follows example_manager (run_trace example_manager
         [Initialize_op ''b'', SetSuccess_op \<lparr>p_Pid = 7, p_Handle = 1\<rparr>] quiet_world) ph'"
  by (rule state_refines_life_cycle [OF example_placed]) (simp_all add: honest_op_def int64_def quiet_follows)

text \<open>
  C36: the record is never inconsistent. Whatever commands have run on a container that
  started without a record, its file is either absent or decodes to a record that is
  marked as failed or passes \<open>stateValid\<close>, so the status of a container never ends in the
  ``invalid state'' error.
\<close>

theorem record_stays_valid:
  assumes "well_placed m" and "list_all honest_op ops" and "os_calm (w_env w)" and "honest_times (w_env w)"
    and "files w (state_path m) = None"
  shows "case files (run_trace m ops w) (state_path m) of
           None \<Rightarrow> True
         | Some contents \<Rightarrow> \<exists>st. decode_State contents = Some st \<and> (ws_ExecFailed st \<or> stateValid st)"
proof -
  have "follows m w None"
    using assms by (simp add: follows_def)
  then obtain ph' where "follows m (run_trace m ops w) ph'"
    using run_trace_follows assms(1,2) by blast
  then show ?thesis
    by (cases ph') (auto simp: follows_def recorded_def dest: phase_of_valid split: option.splits Option.bind_splits)
qed

theorem record_stays_valid_witness:
  "case files (run_trace example_manager [Initialize_op ''b'', SetFailure_op] quiet_world) (state_path example_manager) of
     None \<Rightarrow> True
   | Some contents \<Rightarrow> \<exists>st. decode_State contents = Some st \<and> (ws_ExecFailed st \<or> stateValid st)"
  by (rule record_stays_valid [OF example_placed])
     (use quiet_follows [of example_manager] in \<open>simp_all add: honest_op_def follows_def\<close>)

section \<open>What a status means\<close>

text \<open>The process that a record names is alive: same pid, still active, same start time.\<close>

definition alive :: "env \<Rightarrow> int \<Rightarrow> Filetime \<Rightarrow> bool" where
  "alive e pid t \<longleftrightarrow> (\<exists>h1 h2 h3 handle.
     o_OpenProcess (e_win e) h1 PROCESS_QUERY_INFORMATION False (word_of_int pid) = Inr handle
     \<and> o_GetExitCodeProcess (e_win e) h2 handle = Inr STILL_ACTIVE_EXIT_CODE
     \<and> o_GetProcessTimes (e_win e) h3 handle = Inr t)"

lemma aliveI:
  "o_OpenProcess (e_win e) h1 PROCESS_QUERY_INFORMATION False (word_of_int pid) = Inr handle \<Longrightarrow>
   o_GetExitCodeProcess (e_win e) h2 handle = Inr STILL_ACTIVE_EXIT_CODE \<Longrightarrow>
   o_GetProcessTimes (e_win e) h3 handle = Inr t \<Longrightarrow> alive e pid t"
  by (auto simp: alive_def)

lemma userProgramStatus_sound:
  assumes "userProgramStatus m st w = (Ok status, w')"
  shows "(status = StateCreated \<longleftrightarrow> (\<exists>b. phase_of st = Some (Created b)))
     \<and> (status = StateRunning \<longrightarrow> (\<exists>b pid t. phase_of st = Some (Started b pid t) \<and> alive (w_env w) pid t))"
proof (cases "phase_of st")
  case None
  then show ?thesis
    using assms phase_of_stateValid [of st] by (auto simp: userProgramStatus_def)
next
  case (Some p)
  show ?thesis
  proof (cases p)
    case (Started b pid t)
    then have st: "ws_PID st = pid" "ws_StartTime st = t" "\<not> ws_ExecFailed st" "stateValid st" "pid \<noteq> 0"
      using Some by (auto simp: phase_of_def stateValid_def split: if_splits)
    then have "status = StateStopped \<or> status = StateRunning \<and> alive (w_env w) pid t"
      using assms
      by (auto simp: userProgramStatus_def win_syscall_defs ask_def annotate_def
          elim!: ok_elims split: if_splits sum.splits) (blast intro: aliveI)
    then show ?thesis using Some Started by auto
  qed (use assms Some in \<open>auto simp: userProgramStatus_def phase_of_def stateValid_def split: if_splits\<close>)
qed

lemma State_State_Ok:
  assumes "State_State m w = (Ok s, w')"
  obtains cp st w1 w2 where "GetContainerProperties (sm_containerId m) w = (Ok cp, w1)" "loadState m w1 = (Ok st, w2)"
    "(if cp_Stopped cp then ret StateStopped else userProgramStatus m st) w2 = (Ok (os_Status s), w')"
    "os_ID s = sm_containerId m" "os_Bundle s = ws_Bundle st" "os_Pid s = ws_PID st"
    "w_env w2 = w_env w" "recorded m w = Some st"
proof -
  obtain cp w1 st w2 where *: "GetContainerProperties (sm_containerId m) w = (Ok cp, w1)" "loadState m w1 = (Ok st, w2)"
    "(if cp_Stopped cp then ret StateStopped else userProgramStatus m st) w2 = (Ok (os_Status s), w')"
    "os_ID s = sm_containerId m" "os_Bundle s = ws_Bundle st" "os_Pid s = ws_PID st"
    using assms unfolding State_State_def by (auto elim!: bind_OkE simp: asks_def)
  have "files w1 = files w" "w_env w1 = w_env w" "w_env w2 = w_env w1"
    using frameD [OF frame_GetContainerProperties *(1), where f = files]
      frameD [OF frame_GetContainerProperties *(1), where f = w_env]
      frameD [OF frame_loadState *(2), where f = w_env] by auto
  then show ?thesis
    using that [OF *] loadState_Ok [OF *(2)] recorded_frame [of w1 w m] by simp
qed

text \<open>
  C13: what a reported status means. ``created'' is reported exactly for a container that is
  not stopped and whose program was never started or marked as failed; ``running'' only
  while the very process that was recorded is alive, with the recorded pid, still active
  and with the recorded start time, so a pid that Windows has reused is never taken for the
  program; and the bundle and the pid of the answer are those on record.
\<close>

theorem State_meaning:
  assumes "State_State m w = (Ok s, w')"
  shows "\<exists>cp st. fst (GetContainerProperties (sm_containerId m) w) = Ok cp \<and> recorded m w = Some st
     \<and> os_ID s = sm_containerId m \<and> os_Bundle s = ws_Bundle st \<and> os_Pid s = ws_PID st
     \<and> (os_Status s = StateCreated \<longleftrightarrow> \<not> cp_Stopped cp \<and> phase_of st = Some (Created (os_Bundle s)))
     \<and> (os_Status s = StateRunning \<longrightarrow>
          \<not> cp_Stopped cp \<and> (\<exists>t. phase_of st = Some (Started (os_Bundle s) (os_Pid s) t) \<and> alive (w_env w) (os_Pid s) t))"
proof -
  obtain cp st w1 w2 where run: "GetContainerProperties (sm_containerId m) w = (Ok cp, w1)"
      "(if cp_Stopped cp then ret StateStopped else userProgramStatus m st) w2 = (Ok (os_Status s), w')"
      "os_ID s = sm_containerId m" "os_Bundle s = ws_Bundle st" "os_Pid s = ws_PID st"
      "w_env w2 = w_env w" "recorded m w = Some st"
    using assms by (rule State_State_Ok)
  have created: "phase_of st = Some (Created b) \<longleftrightarrow> b = ws_Bundle st \<and> phase_of st = Some (Created (ws_Bundle st))" for b
    using phase_of_bundle by force
  have started: "phase_of st = Some (Started b pid t) \<Longrightarrow> b = ws_Bundle st \<and> pid = ws_PID st" for b pid t
    by (auto simp: phase_of_def split: if_splits)
  show ?thesis
  proof (cases "cp_Stopped cp")
    case True
    then show ?thesis using run by auto
  next
    case False
    then have "userProgramStatus m st w2 = (Ok (os_Status s), w')"
      using run(2) by simp
    from userProgramStatus_sound [OF this]
    have "os_Status s = StateCreated \<longleftrightarrow> phase_of st = Some (Created (os_Bundle s))"
      and "os_Status s = StateRunning \<longrightarrow>
             (\<exists>t. phase_of st = Some (Started (os_Bundle s) (os_Pid s) t) \<and> alive (w_env w) (os_Pid s) t)"
      unfolding run(4,5,6) using created started by blast+
    then show ?thesis
      using run False by auto
  qed
qed

text \<open>A container that was created and listed by the host compute service.\<close>

definition listed_env :: env where
  "listed_env = quiet_env\<lparr>e_hcs := quiet_hcs\<lparr>o_GetContainers := (\<lambda>_ _. Inr [\<lparr>cp_ID = ''app'', cp_Stopped = False\<rparr>])\<rparr>\<rparr>"

definition created_world :: world where
  "created_world = quiet_world\<lparr>w_env := listed_env,
     files := [state_path example_manager \<mapsto> print_json (enc_State (zero_State\<lparr>ws_Bundle := ''b''\<rparr>))]\<rparr>"

lemma created_world_env: "w_env created_world = listed_env" "os_calm listed_env" "honest_times listed_env"
  by (simp_all add: created_world_def listed_env_def os_calm_def honest_times_def quiet_defs zero_Filetime_def)

lemma created_world_recorded: "recorded example_manager created_world = Some (zero_State\<lparr>ws_Bundle := ''b''\<rparr>)"
  by (simp add: recorded_def created_world_def decode_enc_State zero_State_def int64_def)

lemma created_world_State:
  "\<exists>w'. State_State example_manager created_world
      = (Ok \<lparr>os_Version = ''1.0.2'', os_ID = ''app'', os_Status = StateCreated, os_Bundle = ''b'', os_Pid = 0\<rparr>, w')
      \<and> files w' = files created_world \<and> w_env w' = listed_env"
proof -
  let ?w1 = "log_event (Hcs (CGetContainers \<lparr>q_IDs = [''app''], q_Owners = []\<rparr>)) created_world"
  have "GetContainerProperties (sm_containerId example_manager) created_world
      = (Ok \<lparr>cp_ID = ''app'', cp_Stopped = False\<rparr>, ?w1)"
    by (simp add: GetContainerProperties_def GetContainers_def ask_def bind_def created_world_env
        example_manager_def) (simp add: listed_env_def)
  moreover have "loadState example_manager ?w1
      = (Ok (zero_State\<lparr>ws_Bundle := ''b''\<rparr>), log_event (Os (OReadFile (state_path example_manager))) ?w1)"
    using created_world_env created_world_recorded by (intro calm_loadState) (simp_all add: recorded_def)
  ultimately show ?thesis
    by (simp add: State_State_def bind_Ok userProgramStatus_def zero_State_def stateValid_def asks_def bind_def
        created_world_env listed_env_def quiet_env_def quiet_lib_def example_manager_def)
qed

theorem State_meaning_witness:
  "\<exists>s w'. State_State example_manager created_world = (Ok s, w') \<and> os_Status s = StateCreated
     \<and> (\<exists>st. recorded example_manager created_world = Some st \<and> phase_of st = Some (Created ''b''))"
proof -
  obtain w' where run: "State_State example_manager created_world
      = (Ok \<lparr>os_Version = ''1.0.2'', os_ID = ''app'', os_Status = StateCreated, os_Bundle = ''b'', os_Pid = 0\<rparr>, w')"
    using created_world_State by blast
  show ?thesis
    using State_meaning [OF run] run by auto
qed

end
