(* ===== verification/Container_Manager.thy ===== *)
theory Container_Manager
  imports Winc_Config Hcs_Client "HOL-Library.AList"
begin

text \<open>
  runtime/container/container.go: the manager of one container of the host compute service,
  from the bundle's specification to its creation, its processes, its statistics and its
  removal. The lemmas show that the command line of a process is split by the rules of
  Windows into exactly the arguments it was made from, which directories a container is
  given and which of them it may write to, and what creation and removal leave behind on
  their error paths.
\<close>

section \<open>Command lines\<close>

text \<open>\<open>syscall.EscapeArg\<close>: the loop with the number of backslashes just written.\<close>

fun escape_loop :: "nat \<Rightarrow> string \<Rightarrow> string \<times> nat" where
  "escape_loop slashes [] = ([], slashes)"
| "escape_loop slashes (c # cs) =
     (if c = bs then (case escape_loop (Suc slashes) cs of (b, n) \<Rightarrow> (c # b, n))
      else if c = CHR 0x22 then
        (case escape_loop 0 cs of (b, n) \<Rightarrow> (replicate (Suc slashes) bs @ c # b, n))
      else (case escape_loop 0 cs of (b, n) \<Rightarrow> (c # b, n)))"

definition is_blank :: "char \<Rightarrow> bool" where
  "is_blank c \<longleftrightarrow> c = CHR '' '' \<or> c = CHR 0x09"

definition EscapeArg :: "string \<Rightarrow> string" where
  "EscapeArg s =
     (let needsBackslash = list_ex (\<lambda>c. c = CHR 0x22 \<or> c = bs) s; hasSpace = list_ex is_blank s in
      if s = [] then [CHR 0x22, CHR 0x22]
      else if \<not> needsBackslash \<and> \<not> hasSpace then s
      else if \<not> needsBackslash then [CHR 0x22] @ s @ [CHR 0x22]
      else (case escape_loop 0 s of (b, slashes) \<Rightarrow>
        (if hasSpace then [CHR 0x22] @ b @ replicate slashes bs @ [CHR 0x22] else b)))"

text \<open>The regular expression for a file name with an extension of three letters.\<close>

definition is_letter :: "char \<Rightarrow> bool" where
  "is_letter c = (let n = (of_char c :: nat) in (97 \<le> n \<and> n \<le> 122) \<or> (65 \<le> n \<and> n \<le> 90))"

definition has_extension :: "string \<Rightarrow> bool" where
  "has_extension base =
     (case rev base of x # y # z # d # _ \<Rightarrow> is_letter x \<and> is_letter y \<and> is_letter z \<and> d = CHR ''.'' | _ \<Rightarrow> False)"

text \<open>
  \<open>makeCmdLine\<close> rewrites the first argument in place, so its caller sees the new argument
  afterwards.
\<close>

definition program_args :: "string list \<Rightarrow> string list" where
  "program_args args =
     (case args of
        [] \<Rightarrow> []
      | a # as \<Rightarrow> (let a' = Clean a in if has_extension (Base a') then a' else a' @ ''.exe'') # as)"

definition add_arg :: "string \<Rightarrow> string \<Rightarrow> string" where
  "add_arg v s = (if s \<noteq> [] then s @ '' '' else s) @ EscapeArg v"

definition makeCmdLine :: "string list \<Rightarrow> string" where
  "makeCmdLine args = fold add_arg (program_args args) []"

section \<open>The manager\<close>

record ContainerManager =
  cm_id :: string

record Statistics =
  stat_CPUUsage :: u64
  stat_CPUSystem :: u64
  stat_CPUUser :: u64
  stat_TotalRss :: u64
  stat_PidsCurrent :: u64
  stat_PidsLimit :: u64

definition destroyTimeout :: nat where
  "destroyTimeout = 60000"

definition gmsaCredentialsRef :: string where
  "gmsaCredentialsRef = ''WINDOWS_GMSA_CREDENTIAL_REF''"

definition nil_dereference :: string where
  "nil_dereference = ''runtime error: invalid memory address or nil pointer dereference''"

definition Container_Spec :: "ContainerManager \<Rightarrow> string \<Rightarrow> Spec op" where
  "Container_Spec m bundlePath0 =
     bind (if bundlePath0 = [] then Getwd else ret bundlePath0) (\<lambda>bundlePath1.
     let bundlePath = Clean bundlePath1 in
     bind (ValidateBundle bundlePath) (\<lambda>spec.
     bind (ValidateProcess [] (s_Process spec)) (\<lambda>_.
       if Base bundlePath \<noteq> cm_id m then throw (ContainerError (InvalidIdError (cm_id m)))
       else ret spec)))"

definition CredentialSpecFromFile :: "ContainerManager \<Rightarrow> string \<Rightarrow> string op" where
  "CredentialSpecFromFile m credentialSpecPath =
     (if credentialSpecPath = [] then ret [] else ReadFile (Clean credentialSpecPath))"

fun CredentialSpecFromEnv ::
    "ContainerManager \<Rightarrow> string list \<Rightarrow> string \<Rightarrow> string \<Rightarrow> string \<Rightarrow> string \<Rightarrow> string op" where
  "CredentialSpecFromEnv m [] credhubEndpoint clientId clientSecret caCertificate = ret []"
| "CredentialSpecFromEnv m (env # envs) credhubEndpoint clientId clientSecret caCertificate =
     (case split_first (CHR ''='') env of
        [key, ref] \<Rightarrow>
          if key = gmsaCredentialsRef then
            bind (ask (Credhub (CredhubNew credhubEndpoint clientId clientSecret caCertificate))
                    (\<lambda>e h. o_CredhubNew (e_lib e) h credhubEndpoint clientId clientSecret caCertificate)) (\<lambda>_.
            bind (ask (Credhub (CredhubGetLatestVersion ref)) (\<lambda>e h. o_GetLatestVersion (e_lib e) h ref)) (\<lambda>credential.
              ret (print_json credential)))
          else CredentialSpecFromEnv m envs credhubEndpoint clientId clientSecret caCertificate
      | _ \<Rightarrow> CredentialSpecFromEnv m envs credhubEndpoint clientId clientSecret caCertificate)"

subsection \<open>Create\<close>

definition parseMountOptions :: "ContainerManager \<Rightarrow> string list \<Rightarrow> error + bool" where
  "parseMountOptions m options =
     (let hasReadWrite = list_ex (\<lambda>option. option = ''rw'') options;
          hasReadOnly = list_ex (\<lambda>option. option = ''ro'') options
      in if hasReadOnly \<and> hasReadWrite then Inl (ContainerError (InvalidMountOptionsError (cm_id m) options))
         else Inr (if hasReadWrite then False else True))"

definition destToWindowsPath :: "string \<Rightarrow> string" where
  "destToWindowsPath input =
     (let input' = (if VolumeName input = [] then Join [''C:'', input] else input) in Clean input')"

definition layer_info :: "string \<Rightarrow> Layer op" where
  "layer_info layerPath =
     bind (NameToGuid (Base layerPath)) (\<lambda>layerGuid. ret \<lparr>l_ID = layerGuid, l_Path = layerPath\<rparr>)"

text \<open>One mount: at most one mapped directory, since other files are skipped.\<close>

definition mapped_dir :: "ContainerManager \<Rightarrow> Mount \<Rightarrow> MappedDir list op" where
  "mapped_dir m d =
     bind (Stat (m_Source d)) (\<lambda>isDir.
       if \<not> isDir then ret []
       else
         bind (lift_sum (parseMountOptions m (m_Options d))) (\<lambda>readOnly.
           ret [\<lparr>md_HostPath = m_Source d, md_ContainerPath = destToWindowsPath (m_Destination d),
                 md_ReadOnly = readOnly\<rparr>]))"

definition base_config :: "Spec \<Rightarrow> string \<Rightarrow> Layer list \<Rightarrow> MappedDir list \<Rightarrow> string \<Rightarrow> ContainerConfig" where
  "base_config spec rootPath layerInfos mappedDirs credentialSpec =
     \<lparr>cc_SystemType = ''Container'', cc_HostName = s_Hostname spec, cc_VolumePath = rootPath,
      cc_LayerFolderPath = ''ignored'', cc_Layers = layerInfos, cc_MappedDirectories = mappedDirs,
      cc_Credentials = credentialSpec, cc_MemoryMaximumInMB = 0, cc_ProcessorWeight = 0,
      cc_NetworkSharedContainerName = [], cc_Owner = [], cc_EndpointList = []\<rparr>"

definition with_resources :: "SpecWindows \<Rightarrow> ContainerConfig \<Rightarrow> ContainerConfig" where
  "with_resources windows config =
     (let config1 = (case sw_MemoryLimit windows of
            None \<Rightarrow> config
          | Some memBytes \<Rightarrow> config\<lparr>cc_MemoryMaximumInMB := memBytes div 1024 div 1024\<rparr>)
      in case sw_CPUShares windows of
           None \<Rightarrow> config1
         | Some shares \<Rightarrow> config1\<lparr>cc_ProcessorWeight := ucast shares\<rparr>)"

definition with_shared_network :: "SpecWindows \<Rightarrow> ContainerConfig \<Rightarrow> ContainerConfig op" where
  "with_shared_network windows config =
     (case sw_NetworkSharedContainerName windows of
        None \<Rightarrow> ret config
      | Some name \<Rightarrow>
          if name \<noteq> [] then
            bind (GetHNSEndpointByName name) (\<lambda>endpoint.
              ret (config\<lparr>cc_NetworkSharedContainerName := name, cc_Owner := name,
                          cc_EndpointList := [ep_Id endpoint]\<rparr>))
          else ret config)"

definition containerConfig :: "ContainerManager \<Rightarrow> Spec \<Rightarrow> string \<Rightarrow> ContainerConfig op" where
  "containerConfig m spec credentialSpec =
     (case s_Windows spec of
        None \<Rightarrow> crash nil_dereference
      | Some windows \<Rightarrow>
          bind (mapM layer_info (sw_LayerFolders windows)) (\<lambda>layerInfos.
          bind (mapM (mapped_dir m) (s_Mounts spec)) (\<lambda>mappedDirs.
          case s_Root spec of
            None \<Rightarrow> crash nil_dereference
          | Some rootPath \<Rightarrow>
              with_shared_network windows
                (with_resources windows (base_config spec rootPath layerInfos (concat mappedDirs) credentialSpec)))))"

subsection \<open>Removal\<close>

definition await_destroyed :: "unit op \<Rightarrow> Container \<Rightarrow> unit op" where
  "await_destroyed call container =
     bind (attempt call) (\<lambda>r. case r of
       Inr _ \<Rightarrow> ret ()
     | Inl err \<Rightarrow>
         bind (IsPending err) (\<lambda>pending.
           if pending then Container_WaitTimeout container destroyTimeout else throw err))"

definition shutdownContainer :: "ContainerManager \<Rightarrow> Container \<Rightarrow> unit op" where
  "shutdownContainer m container = await_destroyed (Container_Shutdown container) container"

definition terminateContainer :: "ContainerManager \<Rightarrow> Container \<Rightarrow> unit op" where
  "terminateContainer m container = await_destroyed (Container_Terminate container) container"

definition deleteContainer :: "ContainerManager \<Rightarrow> Container \<Rightarrow> unit op" where
  "deleteContainer m container =
     bind (GetContainerProperties (cm_id m)) (\<lambda>props.
       if cp_Stopped props then Container_Close container
       else
         bind (attempt (shutdownContainer m container)) (\<lambda>r. case r of
           Inr _ \<Rightarrow> ret ()
         | Inl _ \<Rightarrow> terminateContainer m container))"

definition Container_Delete :: "ContainerManager \<Rightarrow> bool \<Rightarrow> unit op" where
  "Container_Delete m force =
     bind (attempt (OpenContainer (cm_id m))) (\<lambda>r. case r of
       Inl err \<Rightarrow> if force \<and> is_NotFoundError err then ret () else throw err
     | Inr container \<Rightarrow> deleteContainer m container)"

definition start_container :: "ContainerManager \<Rightarrow> Container \<Rightarrow> unit op" where
  "start_container m container =
     bind (attempt (Container_Start container)) (\<lambda>started. case started of
       Inr _ \<Rightarrow> ret ()
     | Inl err \<Rightarrow> bind (ignore (deleteContainer m container)) (\<lambda>_. throw err))"

definition Container_Create :: "ContainerManager \<Rightarrow> Spec \<Rightarrow> string \<Rightarrow> unit op" where
  "Container_Create m spec credentialSpec =
     bind (attempt (GetContainerProperties (cm_id m))) (\<lambda>existing. case existing of
       Inr _ \<Rightarrow> throw (ContainerError (AlreadyExistsError (cm_id m)))
     | Inl err \<Rightarrow>
         if \<not> is_NotFoundError err then throw err
         else
           bind (containerConfig m spec credentialSpec) (\<lambda>config.
           bind (CreateContainer (cm_id m) config) (\<lambda>container.
             start_container m container)))"

subsection \<open>Processes and statistics\<close>

definition exec_env :: "string list \<Rightarrow> (string \<times> string) list" where
  "exec_env env = fold (\<lambda>e m. let v = split_on (CHR ''='') e in AList.update (hd v) (join ''='' (tl v)) m) env []"

definition process_config :: "SpecProcess \<Rightarrow> bool \<Rightarrow> ProcessConfig" where
  "process_config processSpec createIOPipes =
     \<lparr>pc_CommandLine = makeCmdLine (sp_Args processSpec), pc_CreateStdInPipe = createIOPipes,
      pc_CreateStdOutPipe = createIOPipes, pc_CreateStdErrPipe = createIOPipes,
      pc_WorkingDirectory = sp_Cwd processSpec, pc_User = sp_Username processSpec,
      pc_Environment = exec_env (sp_Env processSpec)\<rparr>"

definition Container_Exec :: "ContainerManager \<Rightarrow> SpecProcess \<Rightarrow> bool \<Rightarrow> Process op" where
  "Container_Exec m processSpec createIOPipes =
     bind (OpenContainer (cm_id m)) (\<lambda>container.
     bind (attempt (Container_CreateProcess container (process_config processSpec createIOPipes))) (\<lambda>r. case r of
       Inr p \<Rightarrow> ret p
     | Inl err \<Rightarrow>
         let args = program_args (sp_Args processSpec);
             command = (if length args \<noteq> 0 then hd args else [])
         in throw (Wrapped (ContainerError (CouldNotCreateProcessError (cm_id m) command)) (Error (CleanError err)))))"

definition Container_Stats :: "ContainerManager \<Rightarrow> Statistics op" where
  "Container_Stats m =
     bind (OpenContainer (cm_id m)) (\<lambda>container.
     bind (Container_Statistics container) (\<lambda>containerStats.
     bind (Container_ProcessList container) (\<lambda>processes.
       ret \<lparr>stat_CPUUsage = st_TotalRuntime100ns containerStats * 100,
            stat_CPUSystem = st_RuntimeKernel100ns containerStats * 100,
            stat_CPUUser = st_RuntimeUser100ns containerStats * 100,
            stat_TotalRss = st_UsageCommitBytes containerStats,
            stat_PidsCurrent = word_of_nat processes, stat_PidsLimit = 0\<rparr>)))"

section \<open>Splitting a command line\<close>

text \<open>
  How Windows programs split their command line, as the C runtime documents it and as Go's
  start-up code does it: outside quotes a blank ends the argument; \<open>2n\<close> backslashes before
  a quote stand for \<open>n\<close> of them and the quote opens or closes a quoted part (inside one, a
  doubled quote stands for itself and closes it); \<open>2n+1\<close> backslashes before a quote stand
  for \<open>n\<close> of them and the quote itself; other backslashes stand for themselves.
\<close>

definition prepend :: "string \<Rightarrow> string \<times> string \<Rightarrow> string \<times> string" where
  "prepend p r = (p @ fst r, snd r)"

fun read_arg :: "bool \<Rightarrow> nat \<Rightarrow> string \<Rightarrow> string \<times> string" where
  "read_arg inquote n [] = (replicate n bs, [])"
| "read_arg inquote n (c # cs) =
     (if is_blank c \<and> \<not> inquote then (replicate n bs, cs)
      else if c = CHR 0x22 then
        (if even n then
           (if inquote \<and> take 1 cs = [CHR 0x22]
            then prepend (replicate (n div 2) bs @ [c]) (read_arg False 0 (drop 1 cs))
            else prepend (replicate (n div 2) bs) (read_arg (\<not> inquote) 0 cs))
         else prepend (replicate (n div 2) bs @ [c]) (read_arg inquote 0 cs))
      else if c = bs then read_arg inquote (Suc n) cs
      else prepend (replicate n bs @ [c]) (read_arg inquote 0 cs))"

lemma snd_prepend [simp]: "snd (prepend p r) = snd r"
  by (simp add: prepend_def)

lemma read_arg_rest:
  "snd (read_arg q n (c # cs)) = cs \<or> (\<exists>q' n' k. snd (read_arg q n (c # cs)) = snd (read_arg q' n' (drop k cs)))"
  by auto (metis drop0)+

lemma read_arg_length: "length (snd (read_arg q n cs)) \<le> length cs"
proof (induction cs arbitrary: q n rule: length_induct)
  case (1 cs)
  have le: "length (snd (read_arg q' n' (drop k ds))) \<le> length ds" if "length ds < length cs" for ds q' n' k
  proof -
    have "length (drop k ds) < length cs"
      using that by simp
    then have "length (snd (read_arg q' n' (drop k ds))) \<le> length (drop k ds)"
      using 1 by blast
    then show ?thesis by simp
  qed
  show ?case
  proof (cases cs)
    case (Cons c ds)
    then show ?thesis
      using read_arg_rest [of q n c ds] le [of ds] by (metis le_SucI length_Cons lessI order_refl)
  qed simp
qed

lemma read_arg_shorter: "length (snd (read_arg q n cs)) \<le> length cs - 1"
proof (cases cs)
  case (Cons c ds)
  have "length (snd (read_arg q' n' (drop k ds))) \<le> length ds" for q' n' k
    using read_arg_length [of q' n' "drop k ds"] by simp
  then show ?thesis
    using read_arg_rest [of q n c ds] Cons by (metis diff_Suc_1 length_Cons order_refl)
qed simp

function split_args :: "string \<Rightarrow> string list" where
  "split_args cmd =
     (if cmd = [] then []
      else if is_blank (hd cmd) then split_args (tl cmd)
      else fst (read_arg False 0 cmd) # split_args (snd (read_arg False 0 cmd)))"
  by pat_completeness auto
termination
proof (relation "measure length")
  fix cmd :: string
  assume "cmd \<noteq> []"
  then show "(snd (read_arg False 0 cmd), cmd) \<in> measure length"
    using read_arg_shorter [of False 0 cmd] by (cases cmd) auto
qed auto

declare split_args.simps [simp del]

lemma prepend_prepend [simp]: "prepend p (prepend q r) = prepend (p @ q) r"
  by (simp add: prepend_def)

lemma prepend_Nil [simp]: "prepend [] r = r"
  by (simp add: prepend_def)

lemma blank_simps [simp]: "\<not> is_blank bs" "\<not> is_blank (CHR 0x22)" "is_blank (CHR '' '')"
  by (simp_all add: is_blank_def)

lemma read_slashes: "read_arg q n (replicate k bs @ t) = read_arg q (n + k) t"
  by (induction k arbitrary: n) auto

lemma replicate_bs_Suc: "replicate n bs @ bs # t = bs # replicate n bs @ t"
  by (induction n) auto

text \<open>Reading what the loop wrote: all of the argument but the backslashes still pending.\<close>

lemma read_escape_loop:
  assumes "escape_loop k s = (b, n)" "q \<or> \<not> list_ex is_blank s"
  shows "\<exists>x. x @ replicate n bs = replicate k bs @ s \<and> read_arg q k (b @ t) = prepend x (read_arg q n t)"
  using assms
proof (induction s arbitrary: k b)
  case (Cons c s)
  obtain b' n' where rest: "escape_loop (if c = bs then Suc k else 0) s = (b', n')"
    by (cases "escape_loop (if c = bs then Suc k else 0) s")
  have "n' = n"
    using Cons.prems(1) rest by (auto split: if_splits)
  then obtain x where x: "x @ replicate n bs = replicate (if c = bs then Suc k else 0) bs @ s"
      "read_arg q (if c = bs then Suc k else 0) (b' @ t) = prepend x (read_arg q n t)"
    using Cons.IH [of "if c = bs then Suc k else 0" b'] rest Cons.prems(2) by auto
  consider "c = bs" | "c = CHR 0x22" | "c \<noteq> bs" "c \<noteq> CHR 0x22" by blast
  then show ?case
  proof cases
    case 1
    then show ?thesis
      using Cons.prems(1) rest x by (auto simp: replicate_bs_Suc)
  next
    case 2
    then have "read_arg q k (b @ t) = prepend (replicate k bs @ [c] @ x) (read_arg q n t)"
      using Cons.prems(1) rest x by (auto simp: replicate_bs_Suc [symmetric] read_slashes)
    then show ?thesis
      using 2 x(1) by (intro exI [of _ "replicate k bs @ [c] @ x"]) simp
  next
    case 3
    then have "read_arg q k (b @ t) = prepend (replicate k bs @ [c] @ x) (read_arg q n t)"
      using Cons.prems rest x by auto
    then show ?thesis
      using 3 x(1) by (intro exI [of _ "replicate k bs @ [c] @ x"]) simp
  qed
qed auto

lemma escape_loop_plain:
  "\<not> list_ex (\<lambda>c. c = CHR 0x22 \<or> c = bs) s \<Longrightarrow> escape_loop k s = (s, if s = [] then k else 0)"
  by (induction s arbitrary: k) auto

lemma EscapeArg_alt:
  "EscapeArg s =
     (if s = [] then [CHR 0x22, CHR 0x22]
      else let (b, n) = escape_loop 0 s in
        if list_ex is_blank s then [CHR 0x22] @ b @ replicate n bs @ [CHR 0x22] else b)"
  using escape_loop_plain [of s 0] by (auto simp: EscapeArg_def Let_def split: prod.splits)

definition ends_arg :: "string \<Rightarrow> bool" where
  "ends_arg t \<longleftrightarrow> t = [] \<or> is_blank (hd t)"

lemma read_ends: "ends_arg t \<Longrightarrow> read_arg False n t = (replicate n bs, tl t)"
  by (cases t) (auto simp: ends_arg_def)

lemma read_quote_ends: "ends_arg t \<Longrightarrow> even n \<Longrightarrow> read_arg True n (CHR 0x22 # t) = (replicate (n div 2) bs, tl t)"
  by (cases t) (auto simp: ends_arg_def read_ends prepend_def)

lemma read_EscapeArg:
  assumes "ends_arg t"
  shows "read_arg False 0 (EscapeArg s @ t) = (s, tl t)"
proof -
  obtain b n where loop: "escape_loop 0 s = (b, n)"
    by (cases "escape_loop 0 s")
  consider "s = []" | "s \<noteq> []" "list_ex is_blank s" | "s \<noteq> []" "\<not> list_ex is_blank s" by blast
  then show ?thesis
  proof cases
    case 1
    then show ?thesis
      using read_quote_ends [OF assms, of 0] by (simp add: EscapeArg_alt)
  next
    case 2
    obtain x where x: "x @ replicate n bs = s"
        "read_arg True 0 (b @ replicate n bs @ CHR 0x22 # t) = prepend x (read_arg True n (replicate n bs @ CHR 0x22 # t))"
      using read_escape_loop [OF loop, of True] by auto
    have "read_arg True n (replicate n bs @ CHR 0x22 # t) = (replicate n bs, tl t)"
      using read_quote_ends [OF assms, of "n + n"] by (simp add: read_slashes)
    then show ?thesis
      using 2 loop x by (simp add: EscapeArg_alt prepend_def)
  next
    case 3
    then obtain x where "x @ replicate n bs = s" "read_arg False 0 (b @ t) = prepend x (read_arg False n t)"
      using read_escape_loop [OF loop, of False] by auto
    then show ?thesis
      using 3 loop read_ends [OF assms, of n] by (simp add: EscapeArg_alt prepend_def)
  qed
qed

lemma EscapeArg_start: "EscapeArg s \<noteq> [] \<and> \<not> is_blank (hd (EscapeArg s))"
  by (cases s) (auto simp: EscapeArg_alt split: prod.splits if_splits)

lemma split_EscapeArg:
  "ends_arg t \<Longrightarrow> split_args (EscapeArg s @ t) = s # split_args (tl t)"
  using EscapeArg_start [of s] read_EscapeArg [of t s]
  by (subst split_args.simps) (auto simp: hd_append)

lemma fold_add_arg:
  "s \<noteq> [] \<Longrightarrow> fold add_arg as s = s @ concat (map (\<lambda>a. CHR '' '' # EscapeArg a) as)"
  by (induction as arbitrary: s) (auto simp: add_arg_def)

lemma split_blank: "split_args (CHR '' '' # t) = split_args t"
  by (subst split_args.simps) simp

lemma split_fold_args:
  "split_args (EscapeArg a @ concat (map (\<lambda>a. CHR '' '' # EscapeArg a) as)) = a # as"
proof (induction as arbitrary: a)
  case Nil
  have "split_args [] = []"
    by (subst split_args.simps) simp
  then show ?case
    using split_EscapeArg [of "[]" a] by (simp add: ends_arg_def)
next
  case (Cons b as)
  then show ?case
    using split_EscapeArg [of "concat (map (\<lambda>a. CHR '' '' # EscapeArg a) (b # as))" a]
    by (simp add: ends_arg_def)
qed

text \<open>
  C10: the program sees the arguments it was given. Splitting the command line that
  \<open>makeCmdLine\<close> makes, by the rules Windows programs use, gives back every argument
  unchanged, whatever blanks, quotes and backslashes it holds, except that the program name
  is cleaned and has \<open>.exe\<close> appended when it has no extension of three letters; an empty
  argument is kept, and nothing in an argument can start another one.
\<close>

theorem makeCmdLine_roundtrip: "split_args (makeCmdLine args) = program_args args"
proof (cases "program_args args")
  case Nil
  then show ?thesis
    by (simp add: makeCmdLine_def) (subst split_args.simps, simp)
next
  case (Cons a as)
  then have "makeCmdLine args = EscapeArg a @ concat (map (\<lambda>a. CHR '' '' # EscapeArg a) as)"
    using fold_add_arg [of "EscapeArg a" as] EscapeArg_start [of a] by (simp add: makeCmdLine_def add_arg_def)
  then show ?thesis
    using split_fold_args Cons by simp
qed

section \<open>What the operations leave alone\<close>

lemma frame_credentials_env:
  assumes "\<And>ev w. f (log_event ev w) = f w"
  shows "frame f (CredentialSpecFromEnv m envs a b c d)"
proof (induction envs)
  case (Cons e envs)
  have "frame f (case xs of [k, v] \<Rightarrow> g k v | _ \<Rightarrow> CredentialSpecFromEnv m envs a b c d)"
    if "\<And>k v. frame f (g k v)" for g and xs :: "string list"
    using Cons that by (auto split: list.split)
  then show ?case
    unfolding CredentialSpecFromEnv.simps using Cons by (intro frame_intros assms; blast?)
qed (simp only: CredentialSpecFromEnv.simps, rule frame_ret)

lemma frame_config_steps [frame_intros]:
  assumes "\<And>ev w. f (log_event ev w) = f w"
  shows "frame f (layer_info p)" "frame f (mapped_dir m d)" "frame f (with_shared_network ws cc)"
  unfolding layer_info_def mapped_dir_def with_shared_network_def by (intro frame_intros assms)+

lemma frame_containerConfig [frame_intros]:
  assumes "\<And>ev w. f (log_event ev w) = f w"
  shows "frame f (containerConfig m spec cred)"
  unfolding containerConfig_def by (intro frame_intros assms)

lemma frame_removal [frame_intros]:
  assumes "\<And>ev w. f (log_event ev w) = f w"
  shows "frame f (shutdownContainer m c)" "frame f (terminateContainer m c)" "frame f (deleteContainer m c)"
    "frame f (Container_Delete m force)" "frame f (start_container m c)"
  unfolding shutdownContainer_def terminateContainer_def await_destroyed_def deleteContainer_def
    Container_Delete_def start_container_def
  by (intro frame_intros assms)+

lemma frame_container [frame_intros]:
  assumes "\<And>ev w. f (log_event ev w) = f w"
  shows "frame f (Container_Spec m b)" "frame f (CredentialSpecFromFile m p)"
    "frame f (CredentialSpecFromEnv m envs e i sec ca)"
    "frame f (Container_Create m spec cred)" "frame f (Container_Exec m ps io)" "frame f (Container_Stats m)"
  unfolding Container_Spec_def CredentialSpecFromFile_def Container_Create_def Container_Exec_def
    Container_Stats_def Let_def
  by (intro frame_intros frame_credentials_env assms)+

lemma no_panic_removal [safe_intros]:
  "no_panic (shutdownContainer m c)" "no_panic (terminateContainer m c)" "no_panic (deleteContainer m c)"
  "no_panic (Container_Delete m force)" "no_panic (start_container m c)"
  unfolding shutdownContainer_def terminateContainer_def await_destroyed_def deleteContainer_def
    Container_Delete_def start_container_def
  by (intro safe_intros)+

lemma no_panic_container [safe_intros]:
  "no_panic (Container_Spec m b)" "no_panic (CredentialSpecFromFile m p)"
  "no_panic (Container_Exec m ps io)" "no_panic (Container_Stats m)"
  unfolding Container_Spec_def CredentialSpecFromFile_def Container_Exec_def Container_Stats_def Let_def
  by (intro safe_intros)+

section \<open>Which calls are made\<close>

definition no_create :: "event \<Rightarrow> bool" where
  "no_create ev = (case ev of Hcs (CCreateContainer _ _) \<Rightarrow> False | _ \<Rightarrow> True)"

lemma logs_hcs_calls [logs_intros]:
  "P (Hcs (CGetContainers q)) \<Longrightarrow> logs P (GetContainers q)"
  "P (Hcs (CNameToGuid n)) \<Longrightarrow> logs P (NameToGuid n)"
  "P (Hcs (COpenContainer i)) \<Longrightarrow> logs P (OpenContainer i)"
  "P (Hcs (CCreateContainer i cc)) \<Longrightarrow> logs P (CreateContainer i cc)"
  "P (Hcs (CStart c)) \<Longrightarrow> logs P (Container_Start c)"
  "P (Hcs (CShutdown c)) \<Longrightarrow> logs P (Container_Shutdown c)"
  "P (Hcs (CTerminate c)) \<Longrightarrow> logs P (Container_Terminate c)"
  "P (Hcs (CWaitTimeout c ms)) \<Longrightarrow> logs P (Container_WaitTimeout c ms)"
  "P (Hcs (CCloseContainer c)) \<Longrightarrow> logs P (Container_Close c)"
  "P (Hcs (CCreateProcess c pc)) \<Longrightarrow> logs P (Container_CreateProcess c pc)"
  "logs P (IsPending err)"
  "P (Hns (NGetEndpointByName n)) \<Longrightarrow> logs P (GetHNSEndpointByName n)"
  unfolding hcs_call_defs hns_call_defs by (intro logs_ask logs_asks; assumption)+

lemma logs_GetContainerProperties [logs_intros]:
  "P (Hcs (CGetContainers \<lparr>q_IDs = [i], q_Owners = []\<rparr>)) \<Longrightarrow> logs P (GetContainerProperties i)"
  unfolding GetContainerProperties_def by (intro logs_intros; assumption?)

lemma no_create_simps [simp]:
  "no_create (Hcs (CGetContainers q))" "no_create (Hcs (CNameToGuid n))" "no_create (Hcs (COpenContainer i))"
  "no_create (Hcs (CStart c))" "no_create (Hcs (CShutdown c))" "no_create (Hcs (CTerminate c))"
  "no_create (Hcs (CWaitTimeout c ms))" "no_create (Hcs (CCloseContainer c))" "no_create (Hns nc)" "no_create (Os oc)"
  "\<not> no_create (Hcs (CCreateContainer i cc))"
  by (simp_all add: no_create_def)

lemma no_create_steps [logs_intros]:
  "logs no_create (containerConfig m spec cred)" "logs no_create (start_container m c)"
  unfolding containerConfig_def layer_info_def mapped_dir_def with_shared_network_def start_container_def
    deleteContainer_def shutdownContainer_def terminateContainer_def await_destroyed_def
  by (intro logs_intros no_create_simps)+

lemma no_create_new:
  assumes "logs no_create m" "m w = (r, w')" "Hcs (CCreateContainer i cc) \<in> set (drop k (hist w'))" "k \<le> length (hist w)"
  shows "Hcs (CCreateContainer i cc) \<in> set (drop k (hist w))"
proof -
  obtain evs where "hist w' = hist w @ evs" "list_all no_create evs"
    using logsD [OF assms(1,2)] by blast
  then show ?thesis
    using assms(3,4) by (auto simp: list_all_iff)
qed

section \<open>Creation\<close>

lemma mapped_dir_Ok:
  assumes "mapped_dir m d w = (Ok mds, w')" "md \<in> set mds"
  shows "md_HostPath md = m_Source d \<and> md_ContainerPath md = destToWindowsPath (m_Destination d)
     \<and> dirs w (m_Source d) \<and> md_ReadOnly md = (''rw'' \<notin> set (m_Options d))
     \<and> (''rw'' \<in> set (m_Options d) \<longrightarrow> ''ro'' \<notin> set (m_Options d))"
  using assms
  by (auto simp: mapped_dir_def Stat_def os_op_def parseMountOptions_def Let_def list_ex_iff
      elim!: ok_elims split: if_splits option.splits)

lemma mapM_mapped_dir:
  "mapM (mapped_dir m) ds w = (Ok mdss, w') \<Longrightarrow> md \<in> set (concat mdss) \<Longrightarrow>
   \<exists>d \<in> set ds. md_HostPath md = m_Source d \<and> md_ContainerPath md = destToWindowsPath (m_Destination d)
     \<and> dirs w (m_Source d) \<and> md_ReadOnly md = (''rw'' \<notin> set (m_Options d))
     \<and> (''rw'' \<in> set (m_Options d) \<longrightarrow> ''ro'' \<notin> set (m_Options d))"
proof (induction ds arbitrary: w mdss)
  case (Cons d ds)
  obtain mds w1 mdss' where one: "mapped_dir m d w = (Ok mds, w1)" and rest: "mapM (mapped_dir m) ds w1 = (Ok mdss', w')"
      and mdss: "mdss = mds # mdss'"
    using Cons.prems(1) by (auto elim!: bind_OkE)
  have "dirs w1 = dirs w"
    using frameD [OF frame_config_steps(2) one, where f = dirs] by simp
  then show ?case
    using Cons.prems(2) mdss mapped_dir_Ok [OF one] Cons.IH [OF rest] by auto
qed simp

lemma containerConfig_mounts:
  assumes "containerConfig m spec cred w = (Ok config, w')"
  obtains mdss w1 w2 where "mapM (mapped_dir m) (s_Mounts spec) w1 = (Ok mdss, w2)" "dirs w1 = dirs w"
    "cc_MappedDirectories config = concat mdss"
proof -
  obtain ws where ws: "s_Windows spec = Some ws"
    using assms by (auto simp: containerConfig_def split: option.splits)
  obtain ls w1 mdss w2 root where layers: "mapM layer_info (sw_LayerFolders ws) w = (Ok ls, w1)"
      and mdss: "mapM (mapped_dir m) (s_Mounts spec) w1 = (Ok mdss, w2)"
      and last: "with_shared_network ws (with_resources ws (base_config spec root ls (concat mdss) cred)) w2 = (Ok config, w')"
    using assms ws by (auto simp: containerConfig_def elim!: bind_OkE split: option.splits)
  have "dirs w1 = dirs w"
    using frameD [OF frame_mapM [OF frame_config_steps(1)] layers, where f = dirs] by simp
  moreover have "cc_MappedDirectories config = concat mdss"
    using last by (auto simp: with_shared_network_def with_resources_def base_config_def Let_def
        elim!: bind_OkE split: option.splits if_splits)
  ultimately show ?thesis
    using that mdss by blast
qed

text \<open>A creation either ends before the container exists, or makes exactly one attempt to create it.\<close>

lemma Container_Create_cases:
  assumes "Container_Create m spec cred w = (r, w')"
  obtains (not_created) evs where "hist w' = hist w @ evs" "list_all no_create evs" "\<forall>u. r \<noteq> Ok u"
  | (created) w1 config w2 rc evs where "containerConfig m spec cred w1 = (Ok config, w2)" "dirs w1 = dirs w"
      "hist w2 = hist w @ evs" "list_all no_create evs"
      "CreateContainer (cm_id m) config w2 = (rc, log_event (Hcs (CCreateContainer (cm_id m) config)) w2)"
      "case rc of Ok c \<Rightarrow> start_container m c (log_event (Hcs (CCreateContainer (cm_id m) config)) w2) = (r, w')
       | Err e \<Rightarrow> r = Err e \<and> w' = log_event (Hcs (CCreateContainer (cm_id m) config)) w2
       | Panic s \<Rightarrow> False"
proof -
  obtain re w1 where ex: "GetContainerProperties (cm_id m) w = (re, w1)"
    by (cases "GetContainerProperties (cm_id m) w")
  obtain evs1 where evs1: "hist w1 = hist w @ evs1" "list_all no_create evs1"
    using logsD [OF logs_GetContainerProperties ex, of no_create] by auto
  have dirs1: "dirs w1 = dirs w"
    using frameD [OF frame_GetContainerProperties ex, where f = dirs] by simp
  show ?thesis
  proof (cases "\<exists>err. re = Err err \<and> is_NotFoundError err")
    case False
    then have "hist w' = hist w1" "\<forall>u. r \<noteq> Ok u"
      using assms ex by (cases re; auto simp: Container_Create_def bind_def attempt_def split: if_splits)+
    then show ?thesis using not_created evs1 by simp
  next
    case True
    then have run: "bind (containerConfig m spec cred) (\<lambda>config.
        bind (CreateContainer (cm_id m) config) (start_container m)) w1 = (r, w')"
      using assms ex by (auto simp: Container_Create_def bind_def attempt_def)
    obtain rcfg w2 where cfg: "containerConfig m spec cred w1 = (rcfg, w2)"
      by (cases "containerConfig m spec cred w1")
    obtain evs2 where evs2: "hist w2 = hist w1 @ evs2" "list_all no_create evs2"
      using logsD [OF no_create_steps(1) cfg] by blast
    show ?thesis
    proof (cases rcfg)
      case (Ok config)
      let ?w3 = "log_event (Hcs (CCreateContainer (cm_id m) config)) w2"
      obtain rc where rc: "CreateContainer (cm_id m) config w2 = (rc, ?w3)" "\<And>s. rc \<noteq> Panic s"
        by (cases "o_CreateContainer (e_hcs (w_env w2)) (hist w2) (cm_id m) config")
           (simp_all add: CreateContainer_def ask_def)
      have "case rc of Ok c \<Rightarrow> start_container m c ?w3 = (r, w') | Err e \<Rightarrow> r = Err e \<and> w' = ?w3 | Panic s \<Rightarrow> False"
        using run cfg Ok rc by (cases rc) (auto simp: bind_def)
      then show ?thesis
        using created [of w1 config w2 "evs1 @ evs2" rc] cfg Ok dirs1 evs1 evs2 rc by simp
    qed (use run cfg evs1 evs2 not_created [of "evs1 @ evs2"] in \<open>auto simp: bind_def\<close>)
  qed
qed

text \<open>
  C11: what a container may touch. Every directory that a new container is given is a mount
  of the bundle whose source is a directory, under the Windows form of its destination,
  and the container may write to it only if the mount asks for \<open>rw\<close> and not for \<open>ro\<close>; a
  mount that says nothing is read-only. No other container is created.
\<close>

theorem created_mounts:
  assumes "Container_Create m spec cred w = (r, w')"
    and "Hcs (CCreateContainer i config) \<in> set (drop (length (hist w)) (hist w'))"
    and "md \<in> set (cc_MappedDirectories config)"
  shows "i = cm_id m \<and> (\<exists>d \<in> set (s_Mounts spec).
           md_HostPath md = m_Source d \<and> dirs w (m_Source d)
           \<and> md_ContainerPath md = destToWindowsPath (m_Destination d)
           \<and> md_ReadOnly md = (''rw'' \<notin> set (m_Options d))
           \<and> (''rw'' \<in> set (m_Options d) \<longrightarrow> ''ro'' \<notin> set (m_Options d)))"
  using assms(1)
proof (cases rule: Container_Create_cases)
  case (not_created evs)
  then show ?thesis using assms(2) by (auto simp: list_all_iff)
next
  case (created w1 config' w2 rc evs)
  let ?w3 = "log_event (Hcs (CCreateContainer (cm_id m) config')) w2"
  have "Hcs (CCreateContainer i config) \<in> set (drop (length (hist w)) (hist ?w3))"
  proof (cases rc)
    case (Ok c)
    then have "start_container m c ?w3 = (r, w')" "length (hist w) \<le> length (hist ?w3)"
      using created by simp_all
    then show ?thesis
      by (rule no_create_new [OF no_create_steps(2) _ assms(2)])
  qed (use created assms(2) in auto)
  then have "i = cm_id m \<and> config = config'"
    using created by (auto simp: list_all_iff)
  then show ?thesis
    using containerConfig_mounts [OF created(1)] mapM_mapped_dir assms(3) created(2) by metis
qed

text \<open>
  C15: a failed creation leaves no container behind unless its removal fails as well. When
  creation does not succeed, either no container was asked for, or asking for it failed, or
  the container was created but did not start: then its removal was carried out before the
  error of the start was returned.
\<close>

theorem failed_create_removes:
  assumes "Container_Create m spec cred w = (Err e, w')"
  shows "(\<exists>evs. hist w' = hist w @ evs \<and> list_all no_create evs)
     \<or> (\<exists>config w2. CreateContainer (cm_id m) config w2 = (Err e, w'))
     \<or> (\<exists>config w2 c w3 w4. CreateContainer (cm_id m) config w2 = (Ok c, w3)
          \<and> Container_Start c w3 = (Err e, w4) \<and> w' = snd (deleteContainer m c w4))"
  using assms
proof (cases rule: Container_Create_cases)
  case (created w1 config w2 rc evs)
  let ?w3 = "log_event (Hcs (CCreateContainer (cm_id m) config)) w2"
  show ?thesis
  proof (cases rc)
    case (Ok c)
    then have start: "start_container m c ?w3 = (Err e, w')"
      using created by simp
    obtain rs w4 where rs: "Container_Start c ?w3 = (rs, w4)"
      by (cases "Container_Start c ?w3")
    have "rs = Err e \<and> w' = snd (deleteContainer m c w4)"
      using start rs no_panic_removal(3) [of m c]
      by (cases rs) (auto simp: start_container_def bind_def attempt_def ignore_def no_panic_def
          split: prod.splits outcome.splits)
    then show ?thesis
      using created Ok rs by blast
  qed (use created in auto)
qed blast

text \<open>A bundle with one mount, and worlds in which its source is a directory.\<close>

definition example_spec :: Spec where
  "example_spec = \<lparr>s_Version = ''1.0.0'',
     s_Process = Some \<lparr>sp_Args = [''app.exe''], sp_Cwd = [], sp_Env = [], sp_Username = []\<rparr>,
     s_Root = Some ''vol'', s_Hostname = ''h'',
     s_Mounts = [\<lparr>m_Destination = ''d'', m_Source = ''data'', m_Options = []\<rparr>],
     s_Windows = Some \<lparr>sw_LayerFolders = [], sw_MemoryLimit = None, sw_CPUShares = None,
       sw_NetworkSharedContainerName = None\<rparr>\<rparr>"

definition mount_world :: "env \<Rightarrow> world" where
  "mount_world e = quiet_world\<lparr>w_env := e, dirs := (\<lambda>p. p = ''data'')\<rparr>"

definition broken_start :: env where
  "broken_start = quiet_env\<lparr>e_hcs := quiet_hcs\<lparr>o_ContainerCall :=
     (\<lambda>_ c. case c of CStart _ \<Rightarrow> Inl (OtherError ''no start'') | _ \<Rightarrow> Inr ())\<rparr>\<rparr>"

lemmas example_container_defs = example_spec_def mount_world_def containerConfig_def
  mapped_dir_def parseMountOptions_def with_shared_network_def with_resources_def base_config_def
  Stat_def os_op_def GetContainerProperties_def hcs_call_defs ask_def bind_def attempt_def Let_def

theorem created_mounts_witness:
  "\<exists>r w' config md. Container_Create \<lparr>cm_id = ''c''\<rparr> example_spec [] (mount_world quiet_env) = (r, w')
     \<and> Hcs (CCreateContainer ''c'' config) \<in> set (hist w')
     \<and> md \<in> set (cc_MappedDirectories config) \<and> md_ReadOnly md
     \<and> (\<exists>d \<in> set (s_Mounts example_spec). md_HostPath md = m_Source d \<and> ''rw'' \<notin> set (m_Options d))"
proof -
  let ?md = "\<lparr>md_HostPath = ''data'', md_ContainerPath = destToWindowsPath ''d'', md_ReadOnly = True\<rparr>"
  let ?config = "base_config example_spec ''vol'' [] [?md] []"
  let ?w = "mount_world quiet_env"
  obtain w' where run: "Container_Create \<lparr>cm_id = ''c''\<rparr> example_spec [] ?w = (Ok (), w')"
      and h: "hist w' = [Hcs (CGetContainers \<lparr>q_IDs = [''c''], q_Owners = []\<rparr>), Os (OStat ''data''),
        Hcs (CCreateContainer ''c'' ?config), Hcs (CStart 1)]"
    by (simp add: Container_Create_def example_container_defs start_container_def
        is_NotFoundError_def quiet_defs)
  have ev: "Hcs (CCreateContainer ''c'' ?config) \<in> set (drop (length (hist ?w)) (hist w'))"
    unfolding h by (simp add: mount_world_def quiet_world_def)
  have md: "?md \<in> set (cc_MappedDirectories ?config)"
    by (simp add: base_config_def)
  have d: "\<exists>d \<in> set (s_Mounts example_spec). md_HostPath ?md = m_Source d \<and> ''rw'' \<notin> set (m_Options d)"
    using created_mounts [OF run ev md] by fastforce
  have "Hcs (CCreateContainer ''c'' ?config) \<in> set (hist w')"
    unfolding h by simp
  moreover have "md_ReadOnly ?md"
    by simp
  ultimately show ?thesis
    using run md d by blast
qed

theorem failed_create_removes_witness:
  "\<exists>e w'. Container_Create \<lparr>cm_id = ''c''\<rparr> example_spec [] (mount_world broken_start) = (Err e, w')
     \<and> (\<exists>w2 config c w3 w4. CreateContainer ''c'' config w2 = (Ok c, w3) \<and> Container_Start c w3 = (Err e, w4)
          \<and> w' = snd (deleteContainer \<lparr>cm_id = ''c''\<rparr> c w4))"
proof -
  let ?w = "mount_world broken_start"
  obtain w' where run: "Container_Create \<lparr>cm_id = ''c''\<rparr> example_spec [] ?w = (Err (OtherError ''no start''), w')"
      and ev: "\<not> list_all no_create (hist w')" and env: "w_env w' = broken_start"
    by (simp add: Container_Create_def example_container_defs start_container_def deleteContainer_def ignore_def
        is_NotFoundError_def broken_start_def quiet_defs)
  have "hist ?w = []" "w_env ?w = broken_start"
    by (simp_all add: mount_world_def quiet_defs)
  moreover have "CreateContainer ''c'' config w2 \<noteq> (Err e, w')" for config w2 e
  proof
    assume "CreateContainer ''c'' config w2 = (Err e, w')"
    then show False
      using env by (auto simp: CreateContainer_def ask_def broken_start_def quiet_defs)
  qed
  ultimately show ?thesis
    using failed_create_removes [OF run] ev run by simp blast
qed

end
