(* ===== verification/Runtime.thy ===== *)
theory Runtime
  imports State_Manager Container_Manager Mount_Process
begin

text \<open>
  runtime/runtime.go: the commands of winc over the state manager, the container manager,
  the mounter and the wrapped process, which are records of operations, as the Go
  interfaces are. The contract of the collaborators is a locale that is interpreted on the
  managers of this development; the lemmas follow the life cycle of a container through
  the commands and say which clean-up happens on which error.
\<close>

section \<open>Printing with indentation\<close>

text \<open>\<open>json.MarshalIndent(v, "", "  ")\<close>\<close>

definition newline :: "nat \<Rightarrow> string" where
  "newline n = CHR 0x0A # replicate (2 * n) (CHR '' '')"

fun print_indent :: "nat \<Rightarrow> json \<Rightarrow> string" where
  "print_indent n (JArr vs) =
     (if vs = [] then ''[]''
      else ''['' @ newline (Suc n) @ join ('','' @ newline (Suc n)) (map (print_indent (Suc n)) vs) @ newline n @ '']'')"
| "print_indent n (JObj kvs) =
     (if kvs = [] then ''{}''
      else ''{'' @ newline (Suc n)
           @ join ('','' @ newline (Suc n)) (map (\<lambda>(k, v). print_str k @ '': '' @ print_indent (Suc n) v) kvs)
           @ newline n @ ''}'')"
| "print_indent n v = print_json v"

definition status_text :: "ContainerState \<Rightarrow> string" where
  "status_text s = (case s of StateCreated \<Rightarrow> ''created'' | StateRunning \<Rightarrow> ''running'' | StateStopped \<Rightarrow> ''stopped'')"

definition enc_OCIState :: "OCIState \<Rightarrow> json" where
  "enc_OCIState s = JObj ([(''ociVersion'', JStr (os_Version s)), (''id'', JStr (os_ID s)),
       (''status'', JStr (status_text (os_Status s)))]
     @ (if os_Pid s = 0 then [] else [(''pid'', enc_int (os_Pid s))])
     @ [(''bundle'', JStr (os_Bundle s))])"

definition nonzero :: "string \<Rightarrow> u64 \<Rightarrow> (string \<times> json) list" where
  "nonzero k v = (if v = 0 then [] else [(k, enc_uint v)])"

definition enc_Statistics :: "Statistics \<Rightarrow> json" where
  "enc_Statistics s = JObj [(''data'', JObj
     [(''cpu'', JObj [(''usage'', JObj [(''total'', enc_uint (stat_CPUUsage s)), (''kernel'', enc_uint (stat_CPUSystem s)),
         (''user'', enc_uint (stat_CPUUser s))])]),
      (''memory'', JObj [(''raw'', JObj (nonzero ''total_rss'' (stat_TotalRss s)))]),
      (''pids'', JObj (nonzero ''current'' (stat_PidsCurrent s) @ nonzero ''limit'' (stat_PidsLimit s)))])]"

section \<open>The collaborators\<close>

record MounterIface =
  mo_Mount :: "int \<Rightarrow> string \<Rightarrow> unit op"
  mo_Unmount :: "int \<Rightarrow> unit op"

record StateIface =
  si_Initialize :: "string \<Rightarrow> unit op"
  si_Delete :: "unit op"
  si_SetFailure :: "unit op"
  si_SetSuccess :: "Process \<Rightarrow> unit op"
  si_State :: "OCIState op"

record ContainerIface =
  ci_Spec :: "string \<Rightarrow> Spec op"
  ci_CredentialSpecFromFile :: "string \<Rightarrow> string op"
  ci_CredentialSpecFromEnv :: "string list \<Rightarrow> string \<Rightarrow> string \<Rightarrow> string \<Rightarrow> string \<Rightarrow> string op"
  ci_Create :: "Spec \<Rightarrow> string \<Rightarrow> unit op"
  ci_Exec :: "SpecProcess \<Rightarrow> bool \<Rightarrow> Process op"
  ci_Stats :: "Statistics op"
  ci_Delete :: "bool \<Rightarrow> unit op"

record WrapperIface =
  wr_AttachIO :: "Process \<Rightarrow> bool \<Rightarrow> int op"
  wr_SetInterrupt :: "Process \<Rightarrow> unit op"
  wr_WritePIDFile :: "Process \<Rightarrow> string \<Rightarrow> unit op"

record RuntimeConfig =
  rc_UaaCredhubClientId :: string
  rc_UaaCredhubClientSecret :: string
  rc_CredhubEndpoint :: string
  rc_CredhubCaCertificate :: string

record Runtime =
  rt_stateFactory :: "string \<Rightarrow> string \<Rightarrow> StateIface"
  rt_containerFactory :: "string \<Rightarrow> ContainerIface"
  rt_mounter :: MounterIface
  rt_hcsQuery :: "ComputeSystemQuery \<Rightarrow> ContainerProperties list op"
  rt_processWrapper :: WrapperIface
  rt_rootDir :: string
  rt_credentialSpecPath :: string
  rt_config :: RuntimeConfig

section \<open>Shared steps\<close>

definition credentials :: "Runtime \<Rightarrow> ContainerIface \<Rightarrow> Spec \<Rightarrow> string op" where
  "credentials r cm spec =
     (let config = rt_config r in
      if rc_UaaCredhubClientId config \<noteq> [] \<and> rc_UaaCredhubClientSecret config \<noteq> [] then
        (case s_Process spec of
           None \<Rightarrow> crash nil_dereference
         | Some process \<Rightarrow>
             ci_CredentialSpecFromEnv cm (sp_Env process) (rc_CredhubEndpoint config) (rc_UaaCredhubClientId config)
               (rc_UaaCredhubClientSecret config) (rc_CredhubCaCertificate config))
      else if rt_credentialSpecPath r \<noteq> [] then ci_CredentialSpecFromFile cm (rt_credentialSpecPath r)
      else ret [])"

definition initialize_or_delete :: "ContainerIface \<Rightarrow> StateIface \<Rightarrow> string \<Rightarrow> unit op" where
  "initialize_or_delete cm sm bundlePath =
     bind (attempt (si_Initialize sm bundlePath)) (\<lambda>r. case r of
       Inr _ \<Rightarrow> ret ()
     | Inl err \<Rightarrow> bind (ignore (ci_Delete cm False)) (\<lambda>_. throw err))"

definition createContainer :: "Runtime \<Rightarrow> ContainerIface \<Rightarrow> StateIface \<Rightarrow> string \<Rightarrow> Spec op" where
  "createContainer r cm sm bundlePath =
     bind (ci_Spec cm bundlePath) (\<lambda>spec.
     bind (credentials r cm spec) (\<lambda>credentialSpec.
     bind (ci_Create cm spec credentialSpec) (\<lambda>_.
     bind (initialize_or_delete cm sm bundlePath) (\<lambda>_. ret spec))))"

text \<open>A step of the removal: its error text is added to the list.\<close>

definition collect :: "string list \<Rightarrow> 'a op \<Rightarrow> string list op" where
  "collect errs m = bind (attempt m) (\<lambda>r. ret (case r of Inl err \<Rightarrow> errs @ [Error err] | Inr _ \<Rightarrow> errs))"

definition delete_rest :: "ContainerIface \<Rightarrow> StateIface \<Rightarrow> bool \<Rightarrow> string list \<Rightarrow> unit op" where
  "delete_rest cm sm force errs =
     bind (collect errs (si_Delete sm)) (\<lambda>errs1.
     bind (collect errs1 (ci_Delete cm force)) (\<lambda>errs2.
       if length errs2 \<noteq> 0 then throw (Errorf (join [CHR 0x0A] errs2)) else ret ()))"

definition runtime_deleteContainer :: "Runtime \<Rightarrow> ContainerIface \<Rightarrow> StateIface \<Rightarrow> bool \<Rightarrow> unit op" where
  "runtime_deleteContainer r cm sm force =
     bind (attempt (si_State sm)) (\<lambda>st. case st of
       Inl err \<Rightarrow>
         if is_NotFoundError err then (if force then ret () else throw err)
         else delete_rest cm sm force [Error err]
     | Inr ociState \<Rightarrow>
         bind (if os_Pid ociState \<noteq> 0 then collect [] (mo_Unmount (rt_mounter r) (os_Pid ociState)) else ret [])
           (delete_rest cm sm force))"

definition startProcess :: "Runtime \<Rightarrow> ContainerIface \<Rightarrow> StateIface \<Rightarrow> Spec \<Rightarrow> bool \<Rightarrow> Process op" where
  "startProcess r cm sm spec detach =
     (case s_Process spec of
        None \<Rightarrow> crash nil_dereference
      | Some processSpec \<Rightarrow>
          bind (attempt (ci_Exec cm processSpec (\<not> detach))) (\<lambda>e. case e of
            Inl err \<Rightarrow>
              (case Cause err of
                 ContainerError (CouldNotCreateProcessError i command) \<Rightarrow>
                   bind (ignore (si_SetFailure sm)) (\<lambda>_.
                     throw (ContainerError (CouldNotCreateProcessError i command)))
               | _ \<Rightarrow> throw err)
          | Inr process \<Rightarrow>
              bind (si_SetSuccess sm process) (\<lambda>_.
              case s_Root spec of
                None \<Rightarrow> crash nil_dereference
              | Some volume \<Rightarrow>
                  bind (mo_Mount (rt_mounter r) (p_Pid process) volume) (\<lambda>_. ret process))))"

section \<open>The commands\<close>

definition sm_for :: "Runtime \<Rightarrow> string \<Rightarrow> StateIface" where
  "sm_for r containerId = rt_stateFactory r containerId (rt_rootDir r)"

definition Runtime_Create :: "Runtime \<Rightarrow> string \<Rightarrow> string \<Rightarrow> unit op" where
  "Runtime_Create r containerId bundlePath =
     bind (createContainer r (rt_containerFactory r containerId) (sm_for r containerId) bundlePath) (\<lambda>_. ret ())"

text \<open>Every container of the list is deleted; the errors are collected.\<close>

fun delete_all :: "Runtime \<Rightarrow> bool \<Rightarrow> string list \<Rightarrow> string list \<Rightarrow> string list op" where
  "delete_all r force [] allErrors = ret allErrors"
| "delete_all r force (i # ids) allErrors =
     bind (collect allErrors (runtime_deleteContainer r (rt_containerFactory r i) (sm_for r i) force))
       (delete_all r force ids)"

definition Runtime_Delete :: "Runtime \<Rightarrow> string \<Rightarrow> bool \<Rightarrow> unit op" where
  "Runtime_Delete r containerId force =
     bind (rt_hcsQuery r \<lparr>q_IDs = [], q_Owners = [containerId]\<rparr>) (\<lambda>sidecars.
     bind (delete_all r force (map cp_ID sidecars @ [containerId]) []) (\<lambda>allErrors.
       if length allErrors = 0 then ret () else throw (Errorf (join [CHR 0x0A] allErrors))))"

text \<open>An output is absent when the caller passed nil; it is written to in one call.\<close>

definition write_json :: "bool \<Rightarrow> json \<Rightarrow> unit op" where
  "write_json output j =
     (if \<not> output then throw (Errorf ''provided output is nil'') else write_out (print_indent 0 j))"

definition Runtime_Events :: "Runtime \<Rightarrow> string \<Rightarrow> bool \<Rightarrow> bool \<Rightarrow> unit op" where
  "Runtime_Events r containerId output showStats =
     bind (ci_Stats (rt_containerFactory r containerId)) (\<lambda>stats.
       if showStats then write_json output (enc_Statistics stats) else ret ())"

definition Runtime_Exec ::
    "Runtime \<Rightarrow> string \<Rightarrow> string \<Rightarrow> string \<Rightarrow> SpecProcess option \<Rightarrow> bool \<Rightarrow> bool \<Rightarrow> int op" where
  "Runtime_Exec r containerId processConfigFile pidFile processOverrides stdin0 detach =
     bind (ValidateProcess processConfigFile processOverrides) (\<lambda>processSpec.
     bind (ci_Exec (rt_containerFactory r containerId) processSpec (\<not> detach)) (\<lambda>p.
     deferring (Process_Close p)
       (bind (wr_WritePIDFile (rt_processWrapper r) p pidFile) (\<lambda>_.
          if \<not> detach then
            bind (wr_SetInterrupt (rt_processWrapper r) p) (\<lambda>_. wr_AttachIO (rt_processWrapper r) p stdin0)
          else ret 0))))"

definition Runtime_Run :: "Runtime \<Rightarrow> string \<Rightarrow> string \<Rightarrow> string \<Rightarrow> bool \<Rightarrow> bool \<Rightarrow> int op" where
  "Runtime_Run r containerId bundlePath pidFile stdin0 detach =
     (let cm = rt_containerFactory r containerId; sm = sm_for r containerId in
      bind (createContainer r cm sm bundlePath) (\<lambda>spec.
      bind (startProcess r cm sm spec detach) (\<lambda>process.
      deferring (Process_Close process)
        (bind (wr_WritePIDFile (rt_processWrapper r) process pidFile) (\<lambda>_.
           if \<not> detach then
             bind (wr_SetInterrupt (rt_processWrapper r) process) (\<lambda>_.
             bind (attempt (wr_AttachIO (rt_processWrapper r) process stdin0)) (\<lambda>attached.
             bind (attempt (runtime_deleteContainer r cm sm False)) (\<lambda>deleted.
               case (attached, deleted) of
                 (Inl attachErr, _) \<Rightarrow> throw attachErr
               | (Inr exitCode, Inl deleteErr) \<Rightarrow> throw deleteErr
               | (Inr exitCode, Inr _) \<Rightarrow> ret exitCode)))
           else ret 0)))))"

definition Runtime_Start :: "Runtime \<Rightarrow> string \<Rightarrow> string \<Rightarrow> unit op" where
  "Runtime_Start r containerId pidFile =
     (let cm = rt_containerFactory r containerId; sm = sm_for r containerId in
      bind (si_State sm) (\<lambda>ociState.
        if os_Status ociState \<noteq> StateCreated
        then throw (Errorf (''cannot start a container in the '' @ status_text (os_Status ociState) @ '' state''))
        else
          bind (ci_Spec cm (os_Bundle ociState)) (\<lambda>spec.
          bind (startProcess r cm sm spec False) (\<lambda>process.
          deferring (Process_Close process)
            (wr_WritePIDFile (rt_processWrapper r) process pidFile)))))"

definition Runtime_State :: "Runtime \<Rightarrow> string \<Rightarrow> bool \<Rightarrow> unit op" where
  "Runtime_State r containerId output =
     (if \<not> output then throw (Errorf ''provided output is nil'')
      else bind (si_State (sm_for r containerId)) (\<lambda>state. write_json output (enc_OCIState state)))"

section \<open>The wired runtime\<close>

definition state_iface :: "StateManager \<Rightarrow> StateIface" where
  "state_iface m = \<lparr>si_Initialize = State_Initialize m, si_Delete = State_Delete m, si_SetFailure = SetFailure m,
     si_SetSuccess = SetSuccess m, si_State = State_State m\<rparr>"

definition container_iface :: "ContainerManager \<Rightarrow> ContainerIface" where
  "container_iface m = \<lparr>ci_Spec = Container_Spec m, ci_CredentialSpecFromFile = CredentialSpecFromFile m,
     ci_CredentialSpecFromEnv = CredentialSpecFromEnv m, ci_Create = Container_Create m, ci_Exec = Container_Exec m,
     ci_Stats = Container_Stats m, ci_Delete = Container_Delete m\<rparr>"

definition mounter_iface :: MounterIface where
  "mounter_iface = \<lparr>mo_Mount = Mounter_Mount, mo_Unmount = Mounter_Unmount\<rparr>"

definition wrapper_iface :: WrapperIface where
  "wrapper_iface = \<lparr>wr_AttachIO = AttachIO, wr_SetInterrupt = SetInterrupt, wr_WritePIDFile = WritePIDFile\<rparr>"

text \<open>\<open>runtime.New\<close> with the factories of cmd/winc/main.go.\<close>

definition state_factory :: "string \<Rightarrow> string \<Rightarrow> StateIface" where
  "state_factory i rootDir = state_iface \<lparr>sm_containerId = i, sm_rootDir = rootDir\<rparr>"

definition container_factory :: "string \<Rightarrow> ContainerIface" where
  "container_factory i = container_iface \<lparr>cm_id = i\<rparr>"

definition winc_runtime :: "string \<Rightarrow> string \<Rightarrow> RuntimeConfig \<Rightarrow> Runtime" where
  "winc_runtime rootDir credentialSpecPath config =
     \<lparr>rt_stateFactory = state_factory, rt_containerFactory = container_factory, rt_mounter = mounter_iface,
      rt_hcsQuery = GetContainers, rt_processWrapper = wrapper_iface, rt_rootDir = rootDir,
      rt_credentialSpecPath = credentialSpecPath, rt_config = config\<rparr>"

section \<open>Stages of a command\<close>

text \<open>
  A command that is in the world \<open>w\<close> may later be in \<open>w'\<close>: the environment is the same, and
  the calls made up to \<open>w\<close> are followed by others.
\<close>

definition leads :: "world \<Rightarrow> world \<Rightarrow> bool" where
  "leads w w' \<longleftrightarrow> w_env w' = w_env w \<and> (\<exists>evs. hist w' = hist w @ evs)"

lemma leads_refl [simp]: "leads w w"
  by (simp add: leads_def)

lemma leads_trans [trans]: "leads w w1 \<Longrightarrow> leads w1 w2 \<Longrightarrow> leads w w2"
  by (auto simp: leads_def)

text \<open>\<open>trails m\<close>: every run of \<open>m\<close> leads from its first world to its last.\<close>

named_theorems trails_intros \<open>computations that keep the environment and the calls made so far\<close>

definition trails :: "'a op \<Rightarrow> bool" where
  "trails m \<longleftrightarrow> frame w_env m \<and> logs (\<lambda>_. True) m"

lemma trailsI: "frame w_env m \<Longrightarrow> logs (\<lambda>_. True) m \<Longrightarrow> trails m"
  by (simp add: trails_def)

lemma trailsD: "trails m \<Longrightarrow> m w = (r, w') \<Longrightarrow> leads w w'"
  using frameD [of w_env m w r w'] logsD [of "\<lambda>_. True" m w r w'] by (auto simp: trails_def leads_def)

lemma trails_combinators [trails_intros]:
  "trails (ret x)" "trails (throw e)" "trails (crash s)" "trails m \<Longrightarrow> trails (attempt m)" "trails m \<Longrightarrow> trails (ignore m)"
  "trails n \<Longrightarrow> (\<And>x. trails (g x)) \<Longrightarrow> trails (bind n g)" "trails d \<Longrightarrow> trails m \<Longrightarrow> trails (deferring d m)"
  by (auto simp: trails_def intro!: frame_intros logs_intros simp del: ret_apply)

lemma trails_cases [trails_intros]:
  "trails k \<Longrightarrow> (\<And>y. trails (g y)) \<Longrightarrow> trails (case q of None \<Rightarrow> k | Some y \<Rightarrow> g y)"
  "(\<And>x. trails (f x)) \<Longrightarrow> (\<And>y. trails (h y)) \<Longrightarrow> trails (case c of Inl x \<Rightarrow> f x | Inr y \<Rightarrow> h y)"
  "(b \<Longrightarrow> trails k) \<Longrightarrow> (\<not> b \<Longrightarrow> trails k') \<Longrightarrow> trails (if b then k else k')"
  by (auto split: option.split sum.split)

lemma trails_Close [trails_intros]: "trails (Process_Close p)"
  by (intro trailsI frame_intros log_event_simps) (simp add: hcs_call_defs logs_intros)

text \<open>The calls that do not start a program.\<close>

definition no_process :: "event \<Rightarrow> bool" where
  "no_process ev = (case ev of Hcs (CCreateProcess _ _) \<Rightarrow> False | _ \<Rightarrow> True)"

text \<open>The error after which \<open>startProcess\<close> records a failure.\<close>

definition could_not_create :: "error \<Rightarrow> bool" where
  "could_not_create err =
     (case Cause err of ContainerError (CouldNotCreateProcessError i command) \<Rightarrow> True | _ \<Rightarrow> False)"

text \<open>
  What an attempt to start the program of the container created from \<open>b\<close> leaves, when it
  gave \<open>x\<close> in the world \<open>w1\<close>, the command ends in \<open>w'\<close> with the outcome \<open>r\<close>, and \<open>tracking\<close> says
  which phase the record in a world is in.
\<close>

definition started_as ::
    "(world \<Rightarrow> phase option \<Rightarrow> bool) \<Rightarrow> StateIface \<Rightarrow> string \<Rightarrow> (error, Process) outcome \<Rightarrow> world
     \<Rightarrow> (error, 'a) outcome \<Rightarrow> world \<Rightarrow> bool" where
  "started_as tracking sm b x w1 r w' \<longleftrightarrow>
     (case x of
        Ok p \<Rightarrow> (if fst (si_SetSuccess sm p w1) = Ok () then \<exists>t. tracking w' (Some (Started b (p_Pid p) t))
                 else (\<forall>y. r \<noteq> Ok y) \<and> tracking w' (Some (Failed b)))
      | Err e \<Rightarrow> (\<forall>y. r \<noteq> Ok y) \<and> tracking w' (Some (if could_not_create e then Failed b else Created b))
      | Panic m \<Rightarrow> (\<forall>y. r \<noteq> Ok y) \<and> tracking w' (Some (Created b)))"

section \<open>The contract of the collaborators\<close>

text \<open>
  What the commands need of a state manager: a relation \<open>tracks\<close> between the world and the
  phase of the container that every operation moves along the life cycle, and a status that
  is ``created'' only in the phase \<open>Created\<close>.
\<close>

locale state_store =
  fixes sm :: StateIface and tracks :: "world \<Rightarrow> phase option \<Rightarrow> bool"
  assumes tracks_frame: "tracks w ph \<Longrightarrow> w_env w' = w_env w \<Longrightarrow> files w' = files w \<Longrightarrow> tracks w' ph"
    and initialize_law: "tracks w ph \<Longrightarrow> si_Initialize sm b w = (r, w') \<Longrightarrow> r = Ok () \<and> tracks w' (Some (Created b))"
    and failure_law: "tracks w (Some p) \<Longrightarrow> si_SetFailure sm w = (r, w') \<Longrightarrow>
          r = Ok () \<and> tracks w' (Some (Failed (phase_bundle p)))"
    and success_law: "tracks w (Some p) \<Longrightarrow> p_Pid proc \<noteq> 0 \<Longrightarrow> int64 (p_Pid proc) \<Longrightarrow>
          si_SetSuccess sm proc w = (r, w') \<Longrightarrow>
          if r = Ok () \<and> \<not> (\<exists>b. p = Failed b)
          then \<exists>t. tracks w' (Some (Started (phase_bundle p) (p_Pid proc) t))
          else tracks w' (Some (Failed (phase_bundle p)))"
    and delete_law: "tracks w ph \<Longrightarrow> si_Delete sm w = (r, w') \<Longrightarrow> r = Ok () \<and> tracks w' None"
    and status_frame: "frame w_env (si_State sm)" "frame files (si_State sm)"
    and created_law: "tracks w ph \<Longrightarrow> si_State sm w = (Ok s, w') \<Longrightarrow> os_Status s = StateCreated \<Longrightarrow>
          ph = Some (Created (os_Bundle s))"
    and success_safe: "no_panic (si_SetSuccess sm proc)"
    and state_trails: "trails (si_Initialize sm b)" "trails (si_Delete sm)" "trails (si_SetFailure sm)"
          "trails (si_SetSuccess sm proc)" "trails (si_State sm)"
    and status_starts_nothing: "logs no_process (si_State sm)"

text \<open>
  What they need of a container manager and of the mounter: none of their operations
  touches files that the record lives in (the mounter's removal of a tree apart), and
  processes have a pid that is not 0.
\<close>

locale container_parts = state_store +
  fixes cm :: ContainerIface and mounter :: MounterIface
  assumes exec_frame: "frame w_env (ci_Exec cm ps io)" "frame files (ci_Exec cm ps io)"
    and exec_pid: "tracks w ph \<Longrightarrow> ci_Exec cm ps io w = (Ok p, w') \<Longrightarrow> p_Pid p \<noteq> 0 \<and> int64 (p_Pid p)"
    and spec_frame: "frame w_env (ci_Spec cm b)" "frame files (ci_Spec cm b)"
    and create_frame: "frame w_env (ci_Create cm spec cred)" "frame files (ci_Create cm spec cred)"
    and delete_frame: "frame w_env (ci_Delete cm force)" "frame files (ci_Delete cm force)"
    and delete_safe: "no_panic (ci_Delete cm force)"
    and mount_frame: "frame w_env (mo_Mount mounter pid vol)" "frame files (mo_Mount mounter pid vol)"
    and container_trails: "trails (ci_Exec cm ps io)" "trails (ci_Spec cm b)" "trails (ci_Create cm spec cred)"
          "trails (ci_Delete cm force)" "trails (mo_Mount mounter pid vol)"
    and spec_starts_nothing: "logs no_process (ci_Spec cm b)"
begin

lemma tracks_keep:
  "tracks w ph \<Longrightarrow> frame w_env m \<Longrightarrow> frame files m \<Longrightarrow> m w = (r, w') \<Longrightarrow> tracks w' ph"
  using tracks_frame [of w ph w'] frameD [of w_env m w r w'] frameD [of files m w r w'] by simp

text \<open>Starting the program of a created container.\<close>

text \<open>
  The record says what came of the attempt: a program that could not be created is recorded
  as failed, any other error of the attempt leaves the container created, and a program
  that runs is recorded, or the container as failed when its start time is not known.
\<close>

lemma exec_failure_tracks:
  assumes "tracks w (Some (Created b))"
    and "(case Cause e of
        ContainerError (CouldNotCreateProcessError i command) \<Rightarrow>
          bind (ignore (si_SetFailure sm)) (\<lambda>_. throw (ContainerError (CouldNotCreateProcessError i command)))
      | _ \<Rightarrow> throw e) w = (r, w')" (is "?rest w = _")
  shows "(\<forall>p. r \<noteq> Ok p) \<and> tracks w' (Some (if could_not_create e then Failed b else Created b)) \<and> leads w w'"
proof (cases "could_not_create e")
  case True
  obtain rf wf where f: "si_SetFailure sm w = (rf, wf)"
    by (cases "si_SetFailure sm w")
  have "rf = Ok ()" "tracks wf (Some (Failed b))"
    using failure_law [OF assms(1) f] by simp_all
  then show ?thesis
    using assms(2) f True trailsD [OF state_trails(3) f]
    by (auto simp: could_not_create_def bind_def ignore_def split: error.splits container_error.splits)
next
  case False
  then have "?rest = throw e"
    by (auto simp: could_not_create_def split: error.split container_error.split)
  then show ?thesis
    using assms False by auto
qed

lemma exec_success_tracks:
  assumes "tracks w (Some (Created b))" "p_Pid p \<noteq> 0" "int64 (p_Pid p)"
    and "bind (si_SetSuccess sm p) (\<lambda>_. case root of
        None \<Rightarrow> crash nil_dereference
      | Some volume \<Rightarrow> bind (mo_Mount mounter (p_Pid p) volume) (\<lambda>_. ret p)) w = (r, w')" (is "?m w = _")
  shows "(if fst (si_SetSuccess sm p w) = Ok ()
          then (\<exists>t. tracks w' (Some (Started b (p_Pid p) t))) \<and> (r = Ok p \<or> (\<forall>p. r \<noteq> Ok p))
          else (\<forall>p. r \<noteq> Ok p) \<and> tracks w' (Some (Failed b))) \<and> leads w w'"
proof -
  obtain rs w2 where s: "si_SetSuccess sm p w = (rs, w2)"
    by (cases "si_SetSuccess sm p w")
  have t2: "if rs = Ok () then \<exists>t. tracks w2 (Some (Started b (p_Pid p) t)) else tracks w2 (Some (Failed b))"
    using success_law [OF assms(1-3) s] by (auto split: if_splits)
  have "trails ?m"
    by (intro trails_intros state_trails container_trails)
  then have l: "leads w w'"
    using trailsD assms(4) by blast
  show ?thesis
  proof (cases "rs = Ok ()")
    case False
    then have "w' = w2 \<and> (\<forall>p. r \<noteq> Ok p)"
      using assms(4) s by (cases rs) (auto simp: bind_def)
    then show ?thesis using t2 False s l by simp
  next
    case True
    then obtain t where t: "tracks w2 (Some (Started b (p_Pid p) t))"
      using t2 by auto
    show ?thesis
    proof (cases root)
      case None
      then have "w' = w2 \<and> (\<forall>p. r \<noteq> Ok p)"
        using assms(4) s True by (auto simp: bind_def)
      then show ?thesis using t True s l by auto
    next
      case (Some vol)
      obtain rm w3 where m: "mo_Mount mounter (p_Pid p) vol w2 = (rm, w3)"
        by (cases "mo_Mount mounter (p_Pid p) vol w2")
      have "w' = w3 \<and> (r = Ok p \<or> (\<forall>p. r \<noteq> Ok p))"
        using assms(4) s True Some m by (cases rm) (auto simp: bind_def)
      then show ?thesis
        using tracks_keep [OF t mount_frame m] True s l by auto
    qed
  qed
qed

lemma startProcess_outcome:
  assumes "rt_mounter rt = mounter" and "tracks w (Some (Created b))" and "startProcess rt cm sm spec detach w = (r, w')"
  shows "(w' = w \<and> (\<forall>p. r \<noteq> Ok p))
    \<or> (\<exists>ps x w1. ci_Exec cm ps (\<not> detach) w = (x, w1) \<and> leads w1 w' \<and> started_as tracks sm b x w1 r w' \<and> (\<forall>p. r = Ok p \<longrightarrow> x = Ok p))"
proof (cases "s_Process spec")
  case None
  then show ?thesis
    using assms by (auto simp: startProcess_def)
next
  case (Some ps)
  obtain re w1 where ex: "ci_Exec cm ps (\<not> detach) w = (re, w1)"
    by (cases "ci_Exec cm ps (\<not> detach) w")
  have t1: "tracks w1 (Some (Created b))"
    using tracks_keep [OF assms(2) exec_frame ex] .
  note run = assms(3) [unfolded startProcess_def Some option.case assms(1)]
  have "leads w1 w' \<and> started_as tracks sm b re w1 r w' \<and> (\<forall>p. r = Ok p \<longrightarrow> re = Ok p)"
  proof (cases re)
    case (Err e)
    then have "attempt (ci_Exec cm ps (\<not> detach)) w = (Ok (Inl e), w1)"
      using ex by (simp add: attempt_def)
    from run [unfolded bind_Ok [of "attempt (ci_Exec cm ps (\<not> detach))" w, OF this]] show ?thesis
      using exec_failure_tracks [OF t1, of e r w'] Err by (simp add: started_as_def)
  next
    case (Ok p)
    then have "attempt (ci_Exec cm ps (\<not> detach)) w = (Ok (Inr p), w1)" and pid: "p_Pid p \<noteq> 0" "int64 (p_Pid p)"
      using ex exec_pid [OF assms(2)] by (simp_all add: attempt_def)
    from run [unfolded bind_Ok [of "attempt (ci_Exec cm ps (\<not> detach))" w, OF this(1)]] show ?thesis
      using exec_success_tracks [OF t1 pid, of "s_Root spec" r w'] Ok by (auto simp: started_as_def split: if_splits)
  next
    case (Panic msg)
    then show ?thesis
      using run ex t1 by (auto simp: started_as_def bind_def attempt_def)
  qed
  then show ?thesis
    using ex by blast
qed

lemma started_as_bundle:
  "started_as tracks sm b x w1 r w' \<Longrightarrow> \<exists>ph. tracks w' (Some ph) \<and> phase_bundle ph = b"
  by (auto simp: started_as_def split: outcome.splits if_splits)

lemma started_as_Ok: "started_as tracks sm b x w1 (Ok y) w' \<Longrightarrow> \<exists>p t. x = Ok p \<and> tracks w' (Some (Started b (p_Pid p) t))"
  by (auto simp: started_as_def split: outcome.splits if_splits)

lemma startProcess_tracks:
  assumes "rt_mounter rt = mounter" and "tracks w (Some (Created b))" and "startProcess rt cm sm spec detach w = (r, w')"
  shows "(\<exists>p t. r = Ok p \<and> tracks w' (Some (Started b (p_Pid p) t)))
     \<or> (\<forall>p. r \<noteq> Ok p) \<and> (\<exists>ph. tracks w' (Some ph) \<and> phase_bundle ph = b)"
proof (cases r)
  case (Ok p)
  then show ?thesis
    using startProcess_outcome [OF assms] started_as_Ok by fastforce
qed (use startProcess_outcome [OF assms] assms(2) started_as_bundle in \<open>force\<close>)+

end

text \<open>
  The remaining collaborators of a command: the wrapped process writes only the pid file,
  and unmounting removes only the mount directory.
\<close>

locale runtime_parts = container_parts +
  fixes rt :: Runtime and i :: string and record_path :: string
  assumes wiring: "rt_mounter rt = mounter" "rt_containerFactory rt i = cm" "sm_for rt i = sm"
    and pid_file_law: "tracks w ph \<Longrightarrow> pf \<noteq> record_path \<Longrightarrow>
          wr_WritePIDFile (rt_processWrapper rt) p pf w = (r, w') \<Longrightarrow> tracks w' ph"
    and attach_frame: "frame w_env (wr_AttachIO (rt_processWrapper rt) p b)" "frame files (wr_AttachIO (rt_processWrapper rt) p b)"
    and interrupt_frame: "frame w_env (wr_SetInterrupt (rt_processWrapper rt) p)" "frame files (wr_SetInterrupt (rt_processWrapper rt) p)"
    and unmount_law: "tracks w ph \<Longrightarrow> mo_Unmount mounter pid w = (r, w') \<Longrightarrow> tracks w' ph \<and> (\<forall>s. r \<noteq> Panic s)"
    and credentials_frame: "frame w_env (credentials rt cm spec)" "frame files (credentials rt cm spec)"
    and wrapper_trails: "trails (wr_WritePIDFile (rt_processWrapper rt) p pf)" "trails (wr_AttachIO (rt_processWrapper rt) p b)"
          "trails (wr_SetInterrupt (rt_processWrapper rt) p)" "trails (mo_Unmount mounter pid)" "trails (credentials rt cm spec)"
begin

lemma close_tracks:
  assumes "\<And>r1 w1. m w = (r1, w1) \<Longrightarrow> tracks w1 ph" and "deferring (Process_Close p) m w = (r, w')"
  shows "tracks w' ph"
  using assms(2)
proof (cases rule: deferring_cases)
  case (Done w1 q)
  then show ?thesis
    using assms(1) [OF Done(1)] frame_hcs_calls(21) [of w_env p] frame_hcs_calls(21) [of files p]
    by (intro tracks_keep [of w1 ph "Process_Close p", OF _ _ _ Done(2)]) simp_all
next
  case (Panic r1 w1 s)
  then show ?thesis
    using no_panicD [OF no_panic_hcs_calls(21)] by blast
qed

text \<open>What \<open>Start\<close> does once it has found the container in the state created.\<close>

lemma start_created_outcome:
  assumes "tracks w (Some (Created b))" "pf \<noteq> record_path"
    and run: "bind (ci_Spec cm d) (\<lambda>spec. bind (startProcess rt cm sm spec False) (\<lambda>process.
        deferring (Process_Close process) (wr_WritePIDFile (rt_processWrapper rt) process pf))) w = (r, w')"
  shows "(w' = snd (ci_Spec cm d w) \<and> r \<noteq> Ok () \<and> tracks w' (Some (Created b)))
    \<or> (\<exists>ps w1 x w2. leads w w1 \<and> ci_Exec cm ps True w1 = (x, w2) \<and> leads w2 w' \<and> started_as tracks sm b x w2 r w')"
proof -
  obtain rsp w2 where sp: "ci_Spec cm d w = (rsp, w2)"
    by (cases "ci_Spec cm d w")
  have t2: "tracks w2 (Some (Created b))"
    using tracks_keep [OF assms(1) spec_frame sp] .
  show ?thesis
  proof (cases "\<exists>spec. rsp = Ok spec")
    case False
    then have "w' = w2 \<and> r \<noteq> Ok ()"
      using run sp by (cases rsp) (auto simp: bind_def)
    then show ?thesis using t2 sp by simp
  next
    case True
    then obtain spec where spec: "rsp = Ok spec" by blast
    obtain rp w3 where p: "startProcess rt cm sm spec False w2 = (rp, w3)"
      by (cases "startProcess rt cm sm spec False w2")
    let ?close = "\<lambda>q. deferring (Process_Close q) (wr_WritePIDFile (rt_processWrapper rt) q pf)"
    have rest: "(\<exists>q. rp = Ok q \<and> ?close q w3 = (r, w')) \<or> (\<forall>q. rp \<noteq> Ok q) \<and> w' = w3 \<and> r \<noteq> Ok ()"
      using run sp spec p by (cases rp) (auto simp: bind_def)
    have "trails (?close q)" for q
      by (intro trails_intros wrapper_trails)
    then have "leads w3 w'"
      using rest trailsD by fastforce
    moreover have "tracks w' ph" if "tracks w3 ph" for ph
      using rest that close_tracks [of "wr_WritePIDFile (rt_processWrapper rt) q pf" w3 ph q r w' for q]
        pid_file_law [OF that assms(2)] by auto
    ultimately have keeps: "tracks w' ph \<and> leads w3 w'" if "tracks w3 ph" for ph
      using that by blast
    from startProcess_outcome [OF wiring(1) t2 p] show ?thesis
    proof (elim disjE exE conjE)
      assume "w3 = w2" "\<forall>q. rp \<noteq> Ok q"
      then show ?thesis
        using rest t2 sp by auto
    next
      fix ps x wx assume x: "ci_Exec cm ps (\<not> False) w2 = (x, wx)" "leads wx w3" "started_as tracks sm b x wx rp w3"
        "\<forall>q. rp = Ok q \<longrightarrow> x = Ok q"
      have "\<forall>y. r \<noteq> Ok y" if "\<forall>q. rp \<noteq> Ok q"
        using rest that by auto
      then have "started_as tracks sm b x wx r w'"
        using x(3,4) keeps rest by (auto simp: started_as_def split: outcome.splits if_splits)
      moreover have "leads wx w'"
        using x(2) keeps started_as_bundle [OF x(3)] leads_trans by blast
      moreover have "leads w w2"
        using trailsD [OF container_trails(2) sp] .
      ultimately show ?thesis
        using x(1) by auto
    qed
  qed
qed

text \<open>The container was not tried, or the record says what came of the attempt.\<close>

lemma Start_outcome:
  assumes "tracks w (Some (Created b))" "pf \<noteq> record_path" "Runtime_Start rt i pf w = (r, w')"
  shows "(\<exists>evs. hist w' = hist w @ evs \<and> list_all no_process evs) \<and> r \<noteq> Ok () \<and> tracks w' (Some (Created b))
    \<or> (\<exists>ps w1 x w2. leads w w1 \<and> ci_Exec cm ps True w1 = (x, w2) \<and> leads w2 w' \<and> started_as tracks sm b x w2 r w')"
proof -
  obtain rs w1 where st: "si_State sm w = (rs, w1)"
    by (cases "si_State sm w")
  have t1: "tracks w1 (Some (Created b))"
    using tracks_keep [OF assms(1) status_frame st] .
  obtain evs1 where evs1: "hist w1 = hist w @ evs1" "list_all no_process evs1"
    using logsD [OF status_starts_nothing st] by blast
  show ?thesis
  proof (cases "\<exists>s. rs = Ok s \<and> os_Status s = StateCreated")
    case False
    then have "w' = w1 \<and> r \<noteq> Ok ()"
      using assms(3) st wiring by (cases rs) (auto simp: Runtime_Start_def Let_def bind_def)
    then show ?thesis using t1 evs1 by blast
  next
    case True
    then obtain s where s: "rs = Ok s" "os_Status s = StateCreated" by blast
    obtain evs2 where evs2: "hist (snd (ci_Spec cm (os_Bundle s) w1)) = hist w1 @ evs2" "list_all no_process evs2"
      using logsD [OF spec_starts_nothing, of "os_Bundle s" w1] by (metis prod.collapse)
    have "bind (ci_Spec cm (os_Bundle s)) (\<lambda>spec. bind (startProcess rt cm sm spec False) (\<lambda>process.
        deferring (Process_Close process) (wr_WritePIDFile (rt_processWrapper rt) process pf))) w1 = (r, w')"
      using assms(3) st s wiring by (simp add: Runtime_Start_def Let_def bind_Ok)
    from start_created_outcome [OF t1 assms(2) this] show ?thesis
    proof (elim disjE exE conjE)
      assume "w' = snd (ci_Spec cm (os_Bundle s) w1)" "r \<noteq> Ok ()" "tracks w' (Some (Created b))"
      then show ?thesis
        using evs1 evs2 by (intro disjI1) simp
    next
      fix ps w2 x w3
      assume "leads w1 w2" "ci_Exec cm ps True w2 = (x, w3)" "leads w3 w'" "started_as tracks sm b x w3 r w'"
      then show ?thesis
        using leads_trans [OF trailsD [OF state_trails(5) st]] by blast
    qed
  qed
qed

lemma Start_refused:
  assumes "tracks w ph" "\<nexists>b. ph = Some (Created b)" "Runtime_Start rt i pf w = (r, w')"
  shows "r \<noteq> Ok () \<and> w' = snd (si_State sm w) \<and> tracks w' ph"
proof -
  obtain rs w1 where st: "si_State sm w = (rs, w1)"
    by (cases "si_State sm w")
  have "\<nexists>s. rs = Ok s \<and> os_Status s = StateCreated"
    using created_law [OF assms(1)] st assms(2) by blast
  then have "w' = w1 \<and> r \<noteq> Ok ()"
    using assms(3) st wiring by (cases rs) (auto simp: Runtime_Start_def Let_def bind_def)
  then show ?thesis
    using tracks_keep [OF assms(1) status_frame st] st by simp
qed

lemma Start_tracks:
  assumes "tracks w ph" "pf \<noteq> record_path" "Runtime_Start rt i pf w = (r, w')"
  shows "if \<exists>b. ph = Some (Created b)
         then (\<exists>ph'. tracks w' (Some ph') \<and> phase_bundle ph' = phase_bundle (the ph)
                 \<and> (r = Ok () \<longrightarrow> (\<exists>b pid t. ph = Some (Created b) \<and> ph' = Started b pid t)))
         else r \<noteq> Ok () \<and> tracks w' ph"
proof (cases "\<exists>b. ph = Some (Created b)")
  case True
  then obtain b where b: "ph = Some (Created b)"
    by blast
  from Start_outcome [OF assms(1) [unfolded b] assms(2,3)] show ?thesis
    using started_as_bundle started_as_Ok b by (elim disjE exE conjE) fastforce+
next
  case False
  then show ?thesis
    using Start_refused [OF assms(1) _ assms(3)] by auto
qed

text \<open>Creating: the record exists exactly when the command succeeded.\<close>

lemma createContainer_tracks:
  assumes "tracks w ph" "createContainer rt cm sm b w = (r, w')"
  shows "if \<exists>spec. r = Ok spec then tracks w' (Some (Created b)) else tracks w' ph"
proof -
  obtain r1 w1 where s: "ci_Spec cm b w = (r1, w1)"
    by (cases "ci_Spec cm b w")
  have t1: "tracks w1 ph" using tracks_keep [OF assms(1) spec_frame s] .
  show ?thesis
  proof (cases r1)
    case (Ok spec)
    obtain r2 w2 where c: "credentials rt cm spec w1 = (r2, w2)"
      by (cases "credentials rt cm spec w1")
    have t2: "tracks w2 ph" using tracks_keep [OF t1 credentials_frame c] .
    show ?thesis
    proof (cases r2)
      case cred: (Ok cred)
      obtain r3 w3 where k: "ci_Create cm spec cred w2 = (r3, w3)"
        by (cases "ci_Create cm spec cred w2")
      have t3: "tracks w3 ph" using tracks_keep [OF t2 create_frame k] .
      obtain r4 w4 where init: "si_Initialize sm b w3 = (r4, w4)"
        by (cases "si_Initialize sm b w3")
      have "r4 = Ok ()" "tracks w4 (Some (Created b))"
        using initialize_law [OF t3 init] by simp_all
      then show ?thesis
        using assms(2) s Ok c cred k init t3
        by (cases r3) (auto simp: createContainer_def initialize_or_delete_def bind_def attempt_def)
    qed (use assms(2) s Ok c t2 in \<open>auto simp: createContainer_def bind_def\<close>)
  qed (use assms(2) s t1 in \<open>auto simp: createContainer_def bind_def\<close>)
qed

text \<open>Removing: unless the container is unknown, the record is gone and the container's removal was run.\<close>

lemma collect_run: "m w = (r, w') \<Longrightarrow> (\<forall>s. r \<noteq> Panic s) \<Longrightarrow> \<exists>errs'. collect errs m w = (Ok errs', w')
    \<and> (errs' = [] \<longleftrightarrow> errs = [] \<and> (\<exists>x. r = Ok x))"
  by (cases r) (auto simp: collect_def bind_def attempt_def)

lemma delete_rest_tracks:
  assumes "tracks w ph" "delete_rest cm sm force errs w = (r, w')"
  shows "tracks w' None
    \<and> (\<exists>w1 rd. leads w w1 \<and> ci_Delete cm force w1 = (rd, w') \<and> (r = Ok () \<longleftrightarrow> errs = [] \<and> rd = Ok ()))"
proof -
  obtain r1 w1 where d: "si_Delete sm w = (r1, w1)"
    by (cases "si_Delete sm w")
  have t1: "r1 = Ok ()" "tracks w1 None"
    using delete_law [OF assms(1) d] by simp_all
  obtain rd w2 where c: "ci_Delete cm force w1 = (rd, w2)"
    by (cases "ci_Delete cm force w1")
  have rd: "\<forall>s. rd \<noteq> Panic s"
    using c delete_safe by (auto simp: no_panic_def)
  have t2: "tracks w2 None"
    using tracks_keep [OF t1(2) delete_frame c] .
  obtain errs' where e: "collect errs (si_Delete sm) w = (Ok errs', w1)" "errs' = [] \<longleftrightarrow> errs = []"
    using collect_run [of "si_Delete sm" w r1 w1 errs] d t1(1) by auto
  obtain errs'' where e2: "collect errs' (ci_Delete cm force) w1 = (Ok errs'', w2)" "errs'' = [] \<longleftrightarrow> errs' = [] \<and> rd = Ok ()"
    using collect_run [of "ci_Delete cm force" w1 rd w2 errs'] c rd by auto
  have "w' = w2 \<and> (r = Ok () \<longleftrightarrow> errs'' = [])"
    using assms(2) e e2 by (auto simp: delete_rest_def bind_Ok split: if_splits)
  moreover have "leads w w1"
    using trailsD [OF state_trails(2) d] .
  ultimately show ?thesis
    using t2 c e e2 by auto
qed

lemma delete_tracks:
  assumes "tracks w ph" "runtime_deleteContainer rt cm sm force w = (r, w')" "no_panic (si_State sm)"
  shows "(\<exists>e. si_State sm w = (Err e, w') \<and> is_NotFoundError e \<and> r = (if force then Ok () else Err e))
    \<or> (\<forall>e. fst (si_State sm w) = Err e \<longrightarrow> \<not> is_NotFoundError e) \<and> tracks w' None
      \<and> (\<exists>w1 rd. leads w w1 \<and> ci_Delete cm force w1 = (rd, w') \<and> (r = Ok () \<longrightarrow> rd = Ok ()))"
proof -
  obtain rs w1 where st: "si_State sm w = (rs, w1)"
    by (cases "si_State sm w")
  have t1: "tracks w1 ph" and l1: "leads w w1"
    using tracks_keep [OF assms(1) status_frame st] trailsD [OF state_trails(5) st] .
  have removed: "tracks w' None \<and> (\<exists>w1 rd. leads w w1 \<and> ci_Delete cm force w1 = (rd, w') \<and> (r = Ok () \<longrightarrow> rd = Ok ()))"
    if "tracks w2 ph" "leads w1 w2" "delete_rest cm sm force errs w2 = (r, w')" for errs w2
    using delete_rest_tracks [OF that(1,3)] leads_trans [OF leads_trans [OF l1 that(2)]] by blast
  show ?thesis
  proof (cases rs)
    case (Err e)
    show ?thesis
    proof (cases "is_NotFoundError e")
      case True
      then show ?thesis
        using assms(2) st Err by (auto simp: runtime_deleteContainer_def bind_def attempt_def split: if_splits)
    next
      case False
      then have "delete_rest cm sm force [Error e] w1 = (r, w')"
        using assms(2) st Err by (simp add: runtime_deleteContainer_def bind_def attempt_def)
      then show ?thesis using removed [OF t1] st Err False by simp
    qed
  next
    case (Ok s)
    show ?thesis
    proof (cases "os_Pid s = 0")
      case True
      then have "delete_rest cm sm force [] w1 = (r, w')"
        using assms(2) st Ok by (simp add: runtime_deleteContainer_def bind_def attempt_def)
      then show ?thesis using removed [OF t1] st Ok by simp
    next
      case False
      obtain ru w2 where u: "mo_Unmount mounter (os_Pid s) w1 = (ru, w2)"
        by (cases "mo_Unmount mounter (os_Pid s) w1")
      have t2: "tracks w2 ph" "\<forall>m. ru \<noteq> Panic m"
        using unmount_law [OF t1 u] by simp_all
      obtain errs where "collect [] (mo_Unmount mounter (os_Pid s)) w1 = (Ok errs, w2)"
        using collect_run [of "mo_Unmount mounter (os_Pid s)" w1 ru w2 "[]"] u t2(2) by auto
      then have "delete_rest cm sm force errs w2 = (r, w')"
        using assms(2) st Ok False wiring by (simp add: runtime_deleteContainer_def bind_def attempt_def)
      then show ?thesis using removed [OF t2(1) trailsD [OF wrapper_trails(4) u]] st Ok by simp
    qed
  next
    case (Panic m)
    then show ?thesis using st assms(3) by (auto simp: no_panic_def)
  qed
qed

text \<open>The steps of an attached run that succeeds.\<close>

lemma Run_stages:
  assumes "Runtime_Run rt i b pf stdin0 False w = (Ok code, w')"
  obtains spec w1 p w2 w3 w4 w5 w6 q where "createContainer rt cm sm b w = (Ok spec, w1)"
    "startProcess rt cm sm spec False w1 = (Ok p, w2)" "wr_WritePIDFile (rt_processWrapper rt) p pf w2 = (Ok (), w3)"
    "wr_SetInterrupt (rt_processWrapper rt) p w3 = (Ok (), w4)" "wr_AttachIO (rt_processWrapper rt) p stdin0 w4 = (Ok code, w5)"
    "runtime_deleteContainer rt cm sm False w5 = (Ok (), w6)" "Process_Close p w6 = (q, w')"
proof -
  let ?attached = "\<lambda>p. bind (attempt (wr_AttachIO (rt_processWrapper rt) p stdin0)) (\<lambda>attached.
      bind (attempt (runtime_deleteContainer rt cm sm False)) (\<lambda>deleted.
        case (attached, deleted) of
          (Inl attachErr, _) \<Rightarrow> throw attachErr
        | (Inr exitCode, Inl deleteErr) \<Rightarrow> throw deleteErr
        | (Inr exitCode, Inr _) \<Rightarrow> ret exitCode))"
  obtain spec w1 p w2 where create: "createContainer rt cm sm b w = (Ok spec, w1)"
      and start: "startProcess rt cm sm spec False w1 = (Ok p, w2)"
      and rest: "deferring (Process_Close p) (bind (wr_WritePIDFile (rt_processWrapper rt) p pf)
          (\<lambda>_. bind (wr_SetInterrupt (rt_processWrapper rt) p) (\<lambda>_. ?attached p))) w2 = (Ok code, w')"
    using assms wiring unfolding Runtime_Run_def Let_def by (auto elim!: bind_OkE)
  obtain w6 q where body: "bind (wr_WritePIDFile (rt_processWrapper rt) p pf)
          (\<lambda>_. bind (wr_SetInterrupt (rt_processWrapper rt) p) (\<lambda>_. ?attached p)) w2 = (Ok code, w6)"
      and close: "Process_Close p w6 = (q, w')"
    using rest by (rule deferring_OkE)
  obtain w3 where pid: "wr_WritePIDFile (rt_processWrapper rt) p pf w2 = (Ok (), w3)"
      and body': "bind (wr_SetInterrupt (rt_processWrapper rt) p) (\<lambda>_. ?attached p) w3 = (Ok code, w6)"
    using body by (auto elim: bind_OkE)
  obtain w4 where sig: "wr_SetInterrupt (rt_processWrapper rt) p w3 = (Ok (), w4)" and att: "?attached p w4 = (Ok code, w6)"
    using body' by (auto elim: bind_OkE)
  obtain w5 where "wr_AttachIO (rt_processWrapper rt) p stdin0 w4 = (Ok code, w5)"
      "runtime_deleteContainer rt cm sm False w5 = (Ok (), w6)"
    using att by (auto elim!: bind_OkE attempt_OkE split: sum.splits)
  then show ?thesis
    using that create start pid sig close by blast
qed

lemma trails_create: "trails (createContainer rt cm sm b)"
  unfolding createContainer_def initialize_or_delete_def
  by (intro trails_intros wrapper_trails container_trails state_trails)

text \<open>An attached run that succeeds has run the program to its end and then removed everything it made.\<close>

lemma Run_tracks:
  assumes "tracks w ph" "pf \<noteq> record_path" "no_panic (si_State sm)"
    and "Runtime_Run rt i b pf stdin0 False w = (Ok code, w')"
  shows "tracks w' None \<and> (\<exists>ps p w1 w2 w3 w4 w5 w6 q. leads w w1 \<and> ci_Exec cm ps True w1 = (Ok p, w2) \<and> leads w2 w3
    \<and> wr_AttachIO (rt_processWrapper rt) p stdin0 w3 = (Ok code, w4) \<and> leads w4 w5
    \<and> ci_Delete cm False w5 = (Ok (), w6) \<and> Process_Close p w6 = (q, w'))"
proof -
  obtain spec w1 p w2 w3 w4 w5 w6 q where create: "createContainer rt cm sm b w = (Ok spec, w1)"
    and start: "startProcess rt cm sm spec False w1 = (Ok p, w2)"
    and pid: "wr_WritePIDFile (rt_processWrapper rt) p pf w2 = (Ok (), w3)"
    and sig: "wr_SetInterrupt (rt_processWrapper rt) p w3 = (Ok (), w4)"
    and io: "wr_AttachIO (rt_processWrapper rt) p stdin0 w4 = (Ok code, w5)"
    and del: "runtime_deleteContainer rt cm sm False w5 = (Ok (), w6)" and close: "Process_Close p w6 = (q, w')"
    using Run_stages [OF assms(4)] .
  have t1: "tracks w1 (Some (Created b))"
    using createContainer_tracks [OF assms(1) create] by simp
  then obtain t where t2: "tracks w2 (Some (Started b (p_Pid p) t))"
    using startProcess_tracks [OF wiring(1) _ start] by auto
  obtain ps wx where ex: "ci_Exec cm ps True w1 = (Ok p, wx)" "leads wx w2"
    using startProcess_outcome [OF wiring(1) t1 start] by auto
  have "tracks w4 (Some (Started b (p_Pid p) t))"
    using tracks_keep [OF pid_file_law [OF t2 assms(2) pid] interrupt_frame sig] .
  then have "tracks w5 (Some (Started b (p_Pid p) t))"
    using tracks_keep attach_frame io by blast
  from delete_tracks [OF this del assms(3)]
  obtain wd where gone: "tracks w6 None" "leads w5 wd" "ci_Delete cm False wd = (Ok (), w6)"
    by auto
  have "tracks w' None"
    using tracks_keep [of w6 None "Process_Close p", OF gone(1) _ _ close] frame_hcs_calls(21) [of w_env p]
      frame_hcs_calls(21) [of files p] by simp
  moreover have "leads w w1" "leads wx w4"
    using trailsD [OF trails_create create] leads_trans [OF leads_trans [OF ex(2) trailsD [OF wrapper_trails(1) pid]]
      trailsD [OF wrapper_trails(3) sig]] by simp_all
  ultimately show ?thesis
    using ex(1) io gone close by blast
qed

end

section \<open>Interpretation on the managers\<close>

text \<open>
  The record and the mount directories do not overlap, and processes have a pid that is not
  0 and fits into an \<open>int\<close>.
\<close>

definition apart :: "StateManager \<Rightarrow> bool" where
  "apart m \<longleftrightarrow> (\<forall>pid. \<not> under (mountPath pid) (state_path m))"

definition honest_pids :: "env \<Rightarrow> bool" where
  "honest_pids e \<longleftrightarrow> (\<forall>h c pc p. o_CreateProcess (e_hcs e) h c pc = Inr p \<longrightarrow> p_Pid p \<noteq> 0 \<and> int64 (p_Pid p))"

definition tracks :: "StateManager \<Rightarrow> world \<Rightarrow> phase option \<Rightarrow> bool" where
  "tracks m w ph \<longleftrightarrow> well_placed m \<and> apart m \<and> honest_pids (w_env w) \<and> follows m w ph"

lemma tracks_of_follows: "tracks m w ph \<Longrightarrow> w_env w' = w_env w \<Longrightarrow> follows m w' ph' \<Longrightarrow> tracks m w' ph'"
  by (simp add: tracks_def)

lemma State_created:
  assumes "follows m w ph" "State_State m w = (Ok s, w')" "os_Status s = StateCreated"
  shows "ph = Some (Created (os_Bundle s))"
proof -
  obtain cp st w1 w2 where run: "GetContainerProperties (sm_containerId m) w = (Ok cp, w1)" "loadState m w1 = (Ok st, w2)"
      and st: "(if cp_Stopped cp then ret StateStopped else userProgramStatus m st) w2 = (Ok (os_Status s), w')"
      "os_Bundle s = ws_Bundle st" "recorded m w = Some st"
    using State_State_Ok [OF assms(2)] by metis
  then have "\<exists>b. phase_of st = Some (Created b)"
    using assms(3) userProgramStatus_sound [of m st w2 "os_Status s" w'] by (auto split: if_splits)
  then have "phase_of st = Some (Created (os_Bundle s))"
    using phase_of_bundle st(2) by force
  then show ?thesis
    using assms(1) st(3) by (cases ph) (auto simp: follows_def recorded_def)
qed

lemma logs_State: "logs no_process (State_State m)"
  unfolding State_State_def userProgramStatus_def loadState_def win_syscall_defs
  by (intro logs_intros; simp add: no_process_def)

lemma logs_state:
  "logs (\<lambda>_. True) (State_Initialize m b)" "logs (\<lambda>_. True) (State_Delete m)" "logs (\<lambda>_. True) (SetFailure m)"
  "logs (\<lambda>_. True) (SetSuccess m proc)" "logs (\<lambda>_. True) (State_State m)"
  unfolding State_Initialize_def State_Delete_def SetFailure_def SetSuccess_def State_State_def userProgramStatus_def
    loadState_def writeState_def win_syscall_defs Let_def
  by (intro logs_intros TrueI)+

lemma logs_credentials: "logs (\<lambda>_. True) (CredentialSpecFromEnv m env e1 e2 e3 e4)"
proof (induction env)
  case (Cons a env)
  have "logs (\<lambda>_. True) (case xs of [k, v] \<Rightarrow> g k v | _ \<Rightarrow> CredentialSpecFromEnv m env e1 e2 e3 e4)"
    if "\<And>k v. logs (\<lambda>_. True) (g k v)" for xs and g :: "string \<Rightarrow> string \<Rightarrow> string op"
    using that Cons by (auto split: list.split)
  then show ?case
    unfolding CredentialSpecFromEnv.simps using Cons by (intro logs_intros TrueI; blast?)
qed (simp only: CredentialSpecFromEnv.simps, rule logs_ret)

lemma logs_container:
  "logs (\<lambda>_. True) (Container_Exec m ps io)" "logs (\<lambda>_. True) (Container_Spec m b)"
  "logs (\<lambda>_. True) (Container_Create m spec cred)" "logs (\<lambda>_. True) (Container_Delete m force)"
  "logs (\<lambda>_. True) (CredentialSpecFromFile m p)"
  unfolding Container_Exec_def Container_Spec_def Container_Create_def Container_Delete_def CredentialSpecFromFile_def containerConfig_def layer_info_def mapped_dir_def with_shared_network_def
    start_container_def deleteContainer_def shutdownContainer_def terminateContainer_def await_destroyed_def Let_def
  by (intro logs_intros TrueI)+

lemma logs_process:
  "logs (\<lambda>_. True) (Mounter_Mount pid vol)" "logs (\<lambda>_. True) (Mounter_Unmount pid)" "logs (\<lambda>_. True) (WritePIDFile p pf)"
  "logs (\<lambda>_. True) (AttachIO p b)" "logs (\<lambda>_. True) (SetInterrupt p)"
  unfolding Mounter_Mount_def Mounter_Unmount_def setPoint_def deletePoint_def WritePIDFile_def AttachIO_def attach_stdin_def
    await_exit_def SetInterrupt_def hcs_call_defs Let_def
  by (intro logs_intros TrueI)+

lemma trails_managers:
  "trails (State_Initialize m b)" "trails (State_Delete m)" "trails (SetFailure m)" "trails (SetSuccess m proc)"
  "trails (State_State m)"
  "trails (Container_Exec c ps io)" "trails (Container_Spec c b)" "trails (Container_Create c spec cred)"
  "trails (Container_Delete c force)" "trails (CredentialSpecFromFile c p)" "trails (CredentialSpecFromEnv c env e1 e2 e3 e4)"
  "trails (Mounter_Mount pid vol)" "trails (Mounter_Unmount pid)" "trails (WritePIDFile pr pf)" "trails (AttachIO pr attach)"
  "trails (SetInterrupt pr)"
  by (intro trailsI frame_intros log_event_simps logs_state logs_container logs_credentials logs_process)+

lemma trails_credentials: "trails (credentials rt (container_iface c) spec)"
  unfolding credentials_def container_iface_def Let_def ContainerIface.select_convs
  by (intro trails_intros trails_managers)

lemma logs_Spec: "logs no_process (Container_Spec c b)"
  unfolding Container_Spec_def Let_def by (intro logs_intros; simp add: no_process_def)

interpretation winc_store: state_store "state_iface m" "tracks m" for m
proof
  fix w w' ph
  show "tracks m w ph \<Longrightarrow> w_env w' = w_env w \<Longrightarrow> files w' = files w \<Longrightarrow> tracks m w' ph"
    by (auto simp: tracks_def intro: follows_frame)
  show "frame w_env (si_State (state_iface m))" "frame files (si_State (state_iface m))"
    by (simp_all add: state_iface_def frame_intros)
  show "no_panic (si_SetSuccess (state_iface m) proc)" for proc
    by (simp add: state_iface_def safe_intros)
  show "trails (si_Initialize (state_iface m) b)" "trails (si_Delete (state_iface m))" "trails (si_SetFailure (state_iface m))"
    "trails (si_SetSuccess (state_iface m) proc)" "trails (si_State (state_iface m))" for b proc
    by (simp_all add: state_iface_def trails_managers)
  show "logs no_process (si_State (state_iface m))"
    by (simp add: state_iface_def logs_State)
  fix r
  show "r = Ok () \<and> tracks m w' (Some (Created b))"
    if "tracks m w ph" "si_Initialize (state_iface m) b w = (r, w')" for b
    using that Initialize_follows [of m w ph b r w'] frameD [OF env_state(2), of m b w r w']
    by (auto simp: state_iface_def tracks_def)
  show "r = Ok () \<and> tracks m w' None" if "tracks m w ph" "si_Delete (state_iface m) w = (r, w')"
    using that Delete_follows [of m w ph r w'] frameD [OF env_state(3), of m w r w']
    by (auto simp: state_iface_def tracks_def)
  fix p
  show "r = Ok () \<and> tracks m w' (Some (Failed (phase_bundle p)))"
    if "tracks m w (Some p)" "si_SetFailure (state_iface m) w = (r, w')"
    using that SetFailure_follows [of m w "Some p" r w'] frameD [OF env_state(4), of m w r w']
    by (auto simp: state_iface_def tracks_def)
  show "if r = Ok () \<and> \<not> (\<exists>b. p = Failed b)
        then \<exists>t. tracks m w' (Some (Started (phase_bundle p) (p_Pid proc) t))
        else tracks m w' (Some (Failed (phase_bundle p)))"
    if "tracks m w (Some p)" "p_Pid proc \<noteq> 0" "int64 (p_Pid proc)" "si_SetSuccess (state_iface m) proc w = (r, w')" for proc
    using that SetSuccess_follows [of m w p proc r w'] frameD [OF env_state(5), of m proc w r w']
    by (auto simp: state_iface_def tracks_def)
  show "ph = Some (Created (os_Bundle s))"
    if "tracks m w ph" "si_State (state_iface m) w = (Ok s, w')" "os_Status s = StateCreated" for s
    using that State_created [of m w ph s w'] by (simp add: state_iface_def tracks_def)
qed

lemma container_pid:
  assumes "honest_pids (w_env w)" "Container_Exec m ps io w = (Ok p, w')"
  shows "p_Pid p \<noteq> 0 \<and> int64 (p_Pid p)"
  using assms
  by (auto simp: Container_Exec_def Container_CreateProcess_def OpenContainer_def ask_def honest_pids_def Let_def
      elim!: ok_elims split: sum.splits)

lemma frame_credentials:
  assumes "\<And>ev w. f (log_event ev w) = f w"
  shows "frame f (credentials r (container_iface m) spec)"
  unfolding credentials_def container_iface_def Let_def ContainerIface.select_convs
  by (intro frame_intros assms)

lemma unmount_follows:
  assumes "apart m" "follows m w ph" "Mounter_Unmount pid w = (r, w')"
  shows "follows m w' ph"
proof -
  have "os_calm (w_env w)"
    using assms(2) by (simp add: follows_def)
  then have "files w' (state_path m) = files w (state_path m)"
    using calm_Unmount(1) [OF _ assms(3), of "state_path m"] assms(1) by (simp add: apart_def)
  then show ?thesis
    using assms(2) frameD [OF env_mount(2) assms(3)] by (cases ph) (simp_all add: follows_def recorded_def)
qed

lemma pid_file_follows:
  assumes "follows m w ph" "pf \<noteq> state_path m" "WritePIDFile p pf w = (r, w')"
  shows "follows m w' ph"
proof -
  have "files w' (state_path m) = files w (state_path m)"
    using assms(2,3) by (auto simp: WritePIDFile_def dest: WriteFile_other split: if_splits)
  then show ?thesis
    using assms(1) frameD [OF env_mount(3) assms(3)] by (cases ph) (simp_all add: follows_def recorded_def)
qed

definition manager_of :: "string \<Rightarrow> string \<Rightarrow> StateManager" where
  "manager_of root i = \<lparr>sm_containerId = i, sm_rootDir = root\<rparr>"

interpretation winc: runtime_parts "state_iface (manager_of root i)" "tracks (manager_of root i)"
    "container_iface \<lparr>cm_id = i\<rparr>" mounter_iface "winc_runtime root cs config" i "state_path (manager_of root i)"
  for root i cs config
proof
  let ?m = "manager_of root i" and ?cm = "container_iface \<lparr>cm_id = i\<rparr>" and ?rt = "winc_runtime root cs config"
  show "rt_mounter ?rt = mounter_iface" "rt_containerFactory ?rt i = ?cm" "sm_for ?rt i = state_iface ?m"
    by (simp_all add: winc_runtime_def container_factory_def sm_for_def state_factory_def manager_of_def)
  fix ps io b spec cred force pid vol p pf w w' ph
  show "frame w_env (ci_Exec ?cm ps io)" "frame files (ci_Exec ?cm ps io)"
    "frame w_env (ci_Spec ?cm b)" "frame files (ci_Spec ?cm b)"
    "frame w_env (ci_Create ?cm spec cred)" "frame files (ci_Create ?cm spec cred)"
    "frame w_env (ci_Delete ?cm force)" "frame files (ci_Delete ?cm force)"
    unfolding container_iface_def ContainerIface.select_convs by (intro frame_intros log_event_simps)+
  show "frame w_env (credentials ?rt ?cm spec)" "frame files (credentials ?rt ?cm spec)"
    by (intro frame_credentials log_event_simps)+
  show "no_panic (ci_Delete ?cm force)"
    by (simp add: container_iface_def safe_intros)
  show "frame w_env (mo_Mount mounter_iface pid vol)" "frame files (mo_Mount mounter_iface pid vol)"
    unfolding mounter_iface_def MounterIface.select_convs by (intro frame_intros)+
  show "frame w_env (wr_AttachIO (rt_processWrapper ?rt) p io)" "frame files (wr_AttachIO (rt_processWrapper ?rt) p io)"
    unfolding winc_runtime_def wrapper_iface_def Runtime.select_convs WrapperIface.select_convs
    by (intro frame_intros log_event_simps)+
  show "frame w_env (wr_SetInterrupt (rt_processWrapper ?rt) p)" "frame files (wr_SetInterrupt (rt_processWrapper ?rt) p)"
    unfolding winc_runtime_def wrapper_iface_def Runtime.select_convs WrapperIface.select_convs
    by (intro frame_intros log_event_simps)+
  show "p_Pid q \<noteq> 0 \<and> int64 (p_Pid q)" if "tracks ?m w ph" "ci_Exec ?cm ps io w = (Ok q, w')" for q
    using that container_pid by (auto simp: tracks_def container_iface_def)
  show "trails (ci_Exec ?cm ps io)" "trails (ci_Spec ?cm b)" "trails (ci_Create ?cm spec cred)" "trails (ci_Delete ?cm force)"
    "trails (mo_Mount mounter_iface pid vol)" "trails (mo_Unmount mounter_iface pid)"
    by (simp_all add: container_iface_def mounter_iface_def trails_managers)
  show "trails (wr_WritePIDFile (rt_processWrapper ?rt) p pf)" "trails (wr_AttachIO (rt_processWrapper ?rt) p io)"
    "trails (wr_SetInterrupt (rt_processWrapper ?rt) p)"
    by (simp_all add: winc_runtime_def wrapper_iface_def trails_managers)
  show "trails (credentials ?rt ?cm spec)"
    by (rule trails_credentials)
  show "logs no_process (ci_Spec ?cm b)"
    by (simp add: container_iface_def logs_Spec)
  fix r
  show "tracks ?m w' ph" if "tracks ?m w ph" "pf \<noteq> state_path ?m" "wr_WritePIDFile (rt_processWrapper ?rt) p pf w = (r, w')"
    using that pid_file_follows [of ?m w ph pf p r w'] frameD [OF env_mount(3), of p pf w r w']
    by (simp add: tracks_def winc_runtime_def wrapper_iface_def)
  show "tracks ?m w' ph \<and> (\<forall>s. r \<noteq> Panic s)" if "tracks ?m w ph" "mo_Unmount mounter_iface pid w = (r, w')"
    using that unmount_follows [of ?m w ph pid r w'] frameD [OF env_mount(2), of pid w r w'] no_panicD [OF no_panic_mount(4)]
    by (auto simp: tracks_def mounter_iface_def)
qed

section \<open>Properties\<close>

lemma AttachIO_exit:
  assumes "AttachIO p attach w = (Ok code, w')"
  obtains w1 where "leads w w1" "Process_ExitCode p w1 = (Ok code, w')"
proof -
  obtain x w1 y w2 z w3 where "Process_Stdio p w = (Ok x, w1)" "attach_stdin p attach w1 = (Ok y, w2)"
      "Process_Wait p w2 = (Ok z, w3)" "Process_ExitCode p w3 = (Ok code, w')"
    using assms by (auto simp: AttachIO_def await_exit_def elim!: bind_OkE)
  moreover have "trails (Process_Stdio p)" "trails (attach_stdin p attach)" "trails (Process_Wait p)"
    unfolding attach_stdin_def hcs_call_defs
    by (intro trailsI frame_intros logs_intros log_event_simps TrueI)+
  ultimately show ?thesis
    using that trailsD leads_trans by metis
qed

text \<open>
  C4: a container is started only out of the phase ``created'', and its record says what
  came of the attempt. When the container is in another phase (it has no record, was
  started before, or failed), \<open>winc start\<close> fails without creating a process and without
  touching the record. When it is created, either the command fails without creating a
  process and the container stays created, or it makes one attempt to start the program in
  the container. If the attempt succeeds, the record names the process, or, when its start
  time cannot be recorded, the command fails and the record says that the container failed;
  if the attempt fails, so does the command, and the record says that the container failed
  when the program could not be created and that it is still created otherwise. File
  operations are taken to succeed and pids to be non-zero (\<open>tracks\<close>).
\<close>

theorem start_needs_created:
  assumes "tracks (manager_of root i) w ph" and "pf \<noteq> state_path (manager_of root i)"
    and "Runtime_Start (winc_runtime root cs config) i pf w = (r, w')"
  shows "case ph of
      Some (Created b) \<Rightarrow>
        (\<exists>evs. hist w' = hist w @ evs \<and> list_all no_process evs)
          \<and> r \<noteq> Ok () \<and> tracks (manager_of root i) w' (Some (Created b))
        \<or> (\<exists>ps w1 x w2. leads w w1 \<and> Container_Exec \<lparr>cm_id = i\<rparr> ps True w1 = (x, w2) \<and> leads w2 w'
            \<and> (case x of
                 Ok p \<Rightarrow>
                   if fst (SetSuccess (manager_of root i) p w2) = Ok ()
                   then \<exists>t. tracks (manager_of root i) w' (Some (Started b (p_Pid p) t))
                   else r \<noteq> Ok () \<and> tracks (manager_of root i) w' (Some (Failed b))
               | Err e \<Rightarrow>
                   r \<noteq> Ok () \<and> tracks (manager_of root i) w' (Some (if could_not_create e then Failed b else Created b))
               | Panic s \<Rightarrow> r \<noteq> Ok () \<and> tracks (manager_of root i) w' (Some (Created b))))
    | _ \<Rightarrow> r \<noteq> Ok () \<and> tracks (manager_of root i) w' ph
           \<and> (\<exists>evs. hist w' = hist w @ evs \<and> list_all no_process evs)"
proof (cases "\<exists>b. ph = Some (Created b)")
  case True
  then obtain b where b: "ph = Some (Created b)"
    by blast
  let ?m = "manager_of root i"
  have "started_as (tracks ?m) (state_iface ?m) b x w2 r w'
      \<longleftrightarrow> (case x of
            Ok p \<Rightarrow>
              if fst (SetSuccess ?m p w2) = Ok () then \<exists>t. tracks ?m w' (Some (Started b (p_Pid p) t))
              else r \<noteq> Ok () \<and> tracks ?m w' (Some (Failed b))
          | Err e \<Rightarrow> r \<noteq> Ok () \<and> tracks ?m w' (Some (if could_not_create e then Failed b else Created b))
          | Panic s \<Rightarrow> r \<noteq> Ok () \<and> tracks ?m w' (Some (Created b)))" for x w2
    by (auto simp: started_as_def state_iface_def split: outcome.split)
  then show ?thesis
    using winc.Start_outcome [OF assms(1) [unfolded b] assms(2,3)]
    by (simp only: b option.case phase.case container_iface_def ContainerIface.select_convs)
next
  case False
  have "\<exists>evs. hist (snd (State_State m w)) = hist w @ evs \<and> list_all no_process evs" for m
    using logsD [OF logs_State, of m w] by (cases "State_State m w") auto
  then show ?thesis
    using winc.Start_refused [OF assms(1) False assms(3)] False
    by (auto simp: state_iface_def split: option.split phase.split)
qed

text \<open>
  C9: removing a container that the host compute service knows removes its record and the
  container, also when its status cannot be computed for another reason or its volume
  cannot be unmounted: \<open>deleteContainer\<close> then leaves no record, has last of all carried out
  the removal of the container, and reports success only if that removal succeeded. When
  the status says that the service does not know the container, nothing is removed, and the
  error is returned unless the removal is forced. File operations are taken to succeed.
\<close>

theorem delete_completes:
  assumes "tracks (manager_of root i) w ph"
    and "runtime_deleteContainer (winc_runtime root cs config) (container_iface \<lparr>cm_id = i\<rparr>)
           (state_iface (manager_of root i)) force w = (r, w')"
  shows "(\<exists>e. State_State (manager_of root i) w = (Err e, w') \<and> is_NotFoundError e
        \<and> files w' = files w \<and> r = (if force then Ok () else Err e))
    \<or> (\<forall>e. fst (State_State (manager_of root i) w) = Err e \<longrightarrow> \<not> is_NotFoundError e)
      \<and> tracks (manager_of root i) w' None
      \<and> (\<exists>w1 rd. leads w w1 \<and> Container_Delete \<lparr>cm_id = i\<rparr> force w1 = (rd, w') \<and> (r = Ok () \<longrightarrow> rd = Ok ()))"
proof -
  have "files w' = files w" if "State_State (manager_of root i) w = (Err e, w')" for e
    using frameD [of files "State_State (manager_of root i)" w "Err e" w'] winc_store.status_frame(2) [of "manager_of root i"] that
    by (simp add: state_iface_def)
  then show ?thesis
    using winc.delete_tracks [OF assms] by (auto simp: state_iface_def container_iface_def no_panic_state)
qed

text \<open>
  The program of the container \<open>i\<close> was started, ended with the exit code, and after that the
  container was removed successfully, in this order and between the worlds \<open>w\<close> and \<open>w'\<close>; the
  last call closes the handle of the process.
\<close>

definition ran_and_removed :: "string \<Rightarrow> world \<Rightarrow> int \<Rightarrow> world \<Rightarrow> bool" where
  "ran_and_removed i w code w' \<longleftrightarrow>
     (\<exists>ps p w1 w2 w3 w4 w5 w6. leads w w1 \<and> Container_Exec \<lparr>cm_id = i\<rparr> ps True w1 = (Ok p, w2)
        \<and> leads w2 w3 \<and> Process_ExitCode p w3 = (Ok code, w4)
        \<and> leads w4 w5 \<and> Container_Delete \<lparr>cm_id = i\<rparr> False w5 = (Ok (), w6)
        \<and> w' = snd (Process_Close p w6))"

lemma ran_later: "leads w0 w \<Longrightarrow> ran_and_removed i w code w' \<Longrightarrow> ran_and_removed i w0 code w'"
  unfolding ran_and_removed_def using leads_trans by blast

lemma run_to_end:
  assumes "tracks (manager_of root i) w ph" and "pf \<noteq> state_path (manager_of root i)"
    and "Runtime_Run (winc_runtime root cs config) i b pf stdin0 False w = (Ok code, w')"
  shows "files w' (state_path (manager_of root i)) = None \<and> ran_and_removed i w code w'"
proof -
  from winc.Run_tracks [OF assms(1,2) _ assms(3)]
  obtain ps p w1 w2 w3 w4 w5 w6 q where run: "tracks (manager_of root i) w' None" "leads w w1"
      "Container_Exec \<lparr>cm_id = i\<rparr> ps True w1 = (Ok p, w2)" "leads w2 w3" "AttachIO p stdin0 w3 = (Ok code, w4)"
      "leads w4 w5" "Container_Delete \<lparr>cm_id = i\<rparr> False w5 = (Ok (), w6)" "Process_Close p w6 = (q, w')"
    by (auto simp: state_iface_def container_iface_def no_panic_state winc_runtime_def wrapper_iface_def)
  obtain w7 where "leads w3 w7" "Process_ExitCode p w7 = (Ok code, w4)"
    using run(5) by (rule AttachIO_exit)
  then have "ran_and_removed i w code w'"
    using run leads_trans [of w2 w3 w7] unfolding ran_and_removed_def by (metis snd_conv)
  then show ?thesis
    using run(1) by (simp add: tracks_def follows_def)
qed

text \<open>
  C14: a run in the foreground cleans up after itself. When \<open>winc run\<close> succeeds without
  being detached, and no file operation failed, the program was started in the container
  and ended with the code that is returned, the container was removed successfully after
  that, and no record of it is left.
\<close>

theorem run_leaves_nothing:
  assumes "tracks (manager_of root i) w ph" and "pf \<noteq> state_path (manager_of root i)"
    and "Runtime_Run (winc_runtime root cs config) i b pf stdin0 False w = (Ok code, w')"
  shows "files w' (state_path (manager_of root i)) = None \<and> ran_and_removed i w code w'"
  by (rule run_to_end [OF assms])

text \<open>What creating a container does before its record is written.\<close>

definition create_parts :: "Runtime \<Rightarrow> ContainerIface \<Rightarrow> string \<Rightarrow> Spec op" where
  "create_parts r cm bundlePath =
     bind (ci_Spec cm bundlePath) (\<lambda>spec. bind (credentials r cm spec) (\<lambda>credentialSpec.
     bind (ci_Create cm spec credentialSpec) (\<lambda>_. ret spec)))"

lemma createContainer_parts:
  "createContainer r cm sm b = bind (create_parts r cm b) (\<lambda>spec. bind (initialize_or_delete cm sm b) (\<lambda>_. ret spec))"
  by (simp add: createContainer_def create_parts_def bind_assoc)

lemma files_create_parts: "frame files (create_parts rt (container_iface m) b)"
proof -
  have "frame files (credentials rt (container_iface m) spec)" for spec
    by (rule frame_credentials) simp
  then show ?thesis
    unfolding create_parts_def container_iface_def ContainerIface.select_convs by (intro frame_intros log_event_simps)
qed

lemma initialize_or_delete_Err:
  assumes "initialize_or_delete (container_iface c) (state_iface m) b w = (Err e, w')"
  shows "\<exists>w1. State_Initialize m b w = (Err e, w1) \<and> w' = snd (Container_Delete c False w1)"
  using assms no_panic_removal(4) [of c False]
  by (auto simp: initialize_or_delete_def state_iface_def container_iface_def bind_def attempt_def ignore_def
      no_panic_def split: prod.splits outcome.splits)

text \<open>
  C26: a container whose record cannot be written is removed again. When \<open>winc create\<close>
  returns an error although the bundle was read, the credentials were found and the
  container was created, then it is the error of writing the record, and the last thing
  that was done is the removal of the container. When one of these earlier steps failed,
  its error is returned and no file was touched.
\<close>

theorem failed_initialize_deletes:
  assumes "Runtime_Create (winc_runtime root cs config) i b w = (Err e, w')"
  shows "case create_parts (winc_runtime root cs config) (container_iface \<lparr>cm_id = i\<rparr>) b w of
      (Ok spec, w1) \<Rightarrow> \<exists>w2. State_Initialize (manager_of root i) b w1 = (Err e, w2)
        \<and> w' = snd (Container_Delete \<lparr>cm_id = i\<rparr> False w2)
    | (Err e1, w1) \<Rightarrow> e1 = e \<and> w1 = w' \<and> files w' = files w
    | (Panic s, w1) \<Rightarrow> False"
proof -
  let ?rt = "winc_runtime root cs config" and ?cm = "container_iface \<lparr>cm_id = i\<rparr>" and ?sm = "state_iface (manager_of root i)"
  obtain x w1 where parts: "create_parts ?rt ?cm b w = (x, w1)"
    by fastforce
  have "bind (createContainer ?rt ?cm ?sm b) (\<lambda>_. ret ()) w = (Err e, w')"
    using assms by (simp add: Runtime_Create_def winc.wiring)
  then have run: "bind (create_parts ?rt ?cm b) (\<lambda>spec. bind (initialize_or_delete ?cm ?sm b) (\<lambda>_. ret ())) w = (Err e, w')"
    by (simp add: createContainer_parts bind_assoc del: ret_apply)
  show ?thesis
  proof (cases x)
    case (Ok spec)
    then have "initialize_or_delete ?cm ?sm b w1 = (Err e, w')"
      using run parts by (auto simp: bind_def split: prod.splits outcome.splits)
    then show ?thesis
      using initialize_or_delete_Err parts Ok by simp
  next
    case (Err e1)
    then show ?thesis
      using run parts frameD [OF files_create_parts parts] by (simp add: bind_def)
  next
    case (Panic s)
    then show ?thesis
      using run parts by (simp add: bind_def)
  qed
qed

section \<open>Examples\<close>

definition example_runtime :: Runtime where
  "example_runtime = winc_runtime (sm_rootDir example_manager) []
     \<lparr>rc_UaaCredhubClientId = [], rc_UaaCredhubClientSecret = [], rc_CredhubEndpoint = [], rc_CredhubCaCertificate = []\<rparr>"

lemma example_manager_of: "manager_of (sm_rootDir example_manager) ''app'' = example_manager"
  by (simp add: manager_of_def example_manager_def)

lemma under_hd: "under d p \<Longrightarrow> d \<noteq> [] \<Longrightarrow> hd p = hd d"
  by (cases p; cases d) (auto simp: under_def)

lemma example_apart: "apart example_manager"
proof -
  have "hd (mountPath pid) = CHR ''c''" "mountPath pid \<noteq> []" for pid
    by (simp_all add: mountPath_rooted rooted_path_def)
  moreover have "hd (state_path example_manager) = CHR ''C''"
    by code_simp
  ultimately show ?thesis
    unfolding apart_def using under_hd by fastforce
qed

lemma example_tracks:
  "tracks example_manager w ph \<longleftrightarrow> honest_pids (w_env w) \<and> follows example_manager w ph"
  using example_placed example_apart by (simp add: tracks_def)

lemma quiet_honest: "honest_pids quiet_env" "honest_pids listed_env"
  by (auto simp: honest_pids_def listed_env_def quiet_defs int64_def)

lemma created_world_tracks: "tracks example_manager created_world (Some (Created ''b''))"
  using quiet_honest created_world_env created_world_recorded
  by (simp add: example_tracks follows_def phase_of_def zero_State_def stateValid_def)

theorem delete_completes_witness:
  "\<exists>r w' w1 rd. runtime_deleteContainer example_runtime (container_iface \<lparr>cm_id = ''app''\<rparr>)
        (state_iface example_manager) False created_world = (r, w')
     \<and> tracks example_manager w' None \<and> Container_Delete \<lparr>cm_id = ''app''\<rparr> False w1 = (rd, w')"
proof -
  obtain r w' where run: "runtime_deleteContainer example_runtime (container_iface \<lparr>cm_id = ''app''\<rparr>)
        (state_iface example_manager) False created_world = (r, w')"
    by fastforce
  have "\<nexists>e. State_State example_manager created_world = (Err e, w')"
    using created_world_State by auto
  then show ?thesis
    using delete_completes [of "sm_rootDir example_manager" "''app''" created_world "Some (Created ''b'')"] run
      created_world_tracks
    by (fastforce simp: example_manager_of example_runtime_def)
qed

text \<open>A world with a bundle, in which the container is listed once it was created.\<close>

definition example_bundle :: string where
  "example_bundle = rooted_path (CHR ''C'') [''app'']"

definition is_create :: "event \<Rightarrow> bool" where
  "is_create ev = (case ev of Hcs (CCreateContainer _ _) \<Rightarrow> True | _ \<Rightarrow> False)"

definition run_env :: "os_env \<Rightarrow> env" where
  "run_env os = quiet_env\<lparr>
     e_hcs := quiet_hcs\<lparr>o_GetContainers :=
       (\<lambda>h _. Inr (if list_ex is_create h then [\<lparr>cp_ID = ''app'', cp_Stopped = False\<rparr>] else []))\<rparr>,
     e_win := quiet_win\<lparr>o_ProcCall := (\<lambda>_ _. (1, Errno 0 []))\<rparr>,
     e_os := os,
     e_lib := quiet_lib\<lparr>o_UnmarshalSpec := (\<lambda>_. Inr example_spec)\<rparr>\<rparr>"

definition run_world :: "os_env \<Rightarrow> world" where
  "run_world os = quiet_world\<lparr>w_env := run_env os, dirs := (\<lambda>p. p = example_bundle \<or> p = ''data''),
     files := [Join [example_bundle, SpecConfig] \<mapsto> []]\<rparr>"

lemma example_paths:
  "Clean example_bundle = example_bundle" "Base example_bundle = ''app''" "example_bundle \<noteq> []"
  by code_simp+

lemma example_cwd: "toWindowsPath (''C:'' @ [bs]) = ''C:'' @ [bs]" "IsAbs (''C:'' @ [bs])"
  by code_simp+

definition reads :: "os_call \<Rightarrow> bool" where
  "reads c = (case c of OReadFile _ \<Rightarrow> True | OStat _ \<Rightarrow> True | _ \<Rightarrow> False)"

lemma run_env_simps:
  "e_hcs (run_env os) = quiet_hcs\<lparr>o_GetContainers :=
     (\<lambda>h _. Inr (if list_ex is_create h then [\<lparr>cp_ID = ''app'', cp_Stopped = False\<rparr>] else []))\<rparr>"
  "e_os (run_env os) = os" "e_win (run_env os) = quiet_win\<lparr>o_ProcCall := (\<lambda>_ _. (1, Errno 0 []))\<rparr>"
  "os_calm (run_env quiet_os)"
  by (simp_all add: run_env_def quiet_env_def os_calm_def quiet_os_def)

lemma run_world_simps:
  "w_env (run_world os) = run_env os" "dirs (run_world os) example_bundle"
  "files (run_world os) (Join [example_bundle, SpecConfig]) = Some []" "\<not> list_ex is_create (hist (run_world os))"
  by (simp_all add: run_world_def quiet_world_def)

lemma Spec_run:
  assumes "\<And>h c. reads c \<Longrightarrow> o_OsFault os h c = None" "w_env w = run_env os" "dirs w example_bundle"
    "files w (Join [example_bundle, SpecConfig]) = Some []"
  obtains w' where "Container_Spec \<lparr>cm_id = ''app''\<rparr> example_bundle w = (Ok example_spec, w')"
    "w_env w' = run_env os" "list_ex is_create (hist w') = list_ex is_create (hist w)" "files w' = files w" "dirs w' = dirs w"
  using that example_cwd assms
  by (simp add: Container_Spec_def example_paths ValidateBundle_def Stat_def ReadFile_def os_op_def bind_def attempt_def
     run_world_def run_env_def quiet_defs asks_def utf8_Valid_def checkAll_def checkSemVer_def VersionMajor_def check_messages_def
     ValidateProcess_def example_spec_def apply_overrides_def defaultCwd_def process_messages_def Let_def is_create_def reads_def)

lemma Create_run:
  assumes "\<And>h c. reads c \<Longrightarrow> o_OsFault os h c = None" "w_env w = run_env os" "\<not> list_ex is_create (hist w)" "dirs w ''data''"
  obtains w' where "Container_Create \<lparr>cm_id = ''app''\<rparr> example_spec [] w = (Ok (), w')"
    "w_env w' = run_env os" "list_ex is_create (hist w')" "files w' = files w" "dirs w' = dirs w"
  using that assms
  by (simp add: Container_Create_def example_container_defs start_container_def
        is_NotFoundError_def quiet_defs run_env_def is_create_def reads_def)


lemma Initialize_run:
  assumes "os_calm (w_env w)" "\<not> dirs w (mountPath 7)"
  obtains w' where "State_Initialize example_manager b w = (Ok (), w')" "w_env w' = w_env w"
    "list_ex is_create (hist w) \<Longrightarrow> list_ex is_create (hist w')" "\<not> dirs w' (mountPath 7)"
    "dirs w example_bundle \<Longrightarrow> dirs w' example_bundle"
    "files w' = (files w)(state_path example_manager := Some (print_json (enc_State (zero_State\<lparr>ws_Bundle := b\<rparr>))))"
proof -
  have "\<not> under (mountPath 7) (stateDir example_manager)"
    by code_simp
  then show ?thesis
    using that assms by (simp add: State_Initialize_def MkdirAll_def writeState_def WriteFile_def calm_os_op bind_def)
qed

lemma Exec_run:
  assumes "w_env w = run_env os"
  obtains w' where "Container_Exec \<lparr>cm_id = ''app''\<rparr> ps io w = (Ok \<lparr>p_Pid = 7, p_Handle = 7\<rparr>, w')"
    "w_env w' = w_env w" "list_ex is_create (hist w) \<Longrightarrow> list_ex is_create (hist w')" "files w' = files w" "dirs w' = dirs w"
  using that assms by (simp add: Container_Exec_def hcs_call_defs ask_def bind_def attempt_def Let_def run_env_def quiet_defs)

definition started_record :: "string \<Rightarrow> State" where
  "started_record b = \<lparr>ws_Bundle = b, ws_PID = 7, ws_StartTime = \<lparr>LowDateTime = 1, HighDateTime = 1\<rparr>, ws_ExecFailed = False\<rparr>"

lemma SetSuccess_run:
  assumes "w_env w = run_env quiet_os" "recorded m w = Some (zero_State\<lparr>ws_Bundle := b\<rparr>)"
  obtains w' where "SetSuccess m \<lparr>p_Pid = 7, p_Handle = 7\<rparr> w = (Ok (), w')" "w_env w' = w_env w"
    "list_ex is_create (hist w) \<Longrightarrow> list_ex is_create (hist w')" "dirs w' = dirs w"
    "files w' = (files w)(state_path m := Some (print_json (enc_State (started_record b))))"
proof -
  have load: "loadState m w = (Ok (zero_State\<lparr>ws_Bundle := b\<rparr>), log_event (Os (OReadFile (state_path m))) w)"
    using assms run_env_simps(4) by (simp add: calm_loadState)
  have "o_OpenProcess (e_win (w_env w)) h f i p = Inr 1" "o_WinCall (e_win (w_env w)) h c = Inr ()"
    "o_GetProcessTimes (e_win (w_env w)) h x = Inr \<lparr>LowDateTime = 1, HighDateTime = 1\<rparr>" for h f i p c x
    by (simp_all add: assms(1) run_env_simps quiet_win_def)
  then show ?thesis
    using that assms(1) run_env_simps(4)
    by (simp add: SetSuccess_def load writeState_def WriteFile_def calm_os_op bind_def attempt_def deferring_def ignore_def
        win_syscall_defs ask_def Let_def started_record_def zero_State_def)
qed


lemma example_mount_paths:
  "CHR 0x00 \<notin> set (ensureTrailingBackslash (rootPath 7))" "CHR 0x00 \<notin> set (ensureTrailingBackslash ''vol'')"
  by code_simp+

lemma run_points:
  assumes "w_env w = run_env os"
  obtains w' where "setPoint (rootPath 7) ''vol'' w = (Ok (), w')" "w_env w' = w_env w" "files w' = files w" "dirs w' = dirs w"
    "list_ex is_create (hist w) \<Longrightarrow> list_ex is_create (hist w')"
  using that assms example_mount_paths
  by (simp add: setPoint_def win_status_def dll_call_def UTF16PtrFromString_def ask_def query_def bind_def low32_def
      run_env_simps quiet_win_def)

lemma run_deletePoint:
  assumes "w_env w = run_env os"
  obtains w' where "deletePoint (rootPath 7) w = (Ok (), w')" "w_env w' = w_env w"
    "list_ex is_create (hist w) \<Longrightarrow> list_ex is_create (hist w')"
  using that assms example_mount_paths
  by (simp add: deletePoint_def win_status_def dll_call_def UTF16PtrFromString_def ask_def query_def bind_def low32_def
      run_env_simps quiet_win_def)

lemma Mount_run:
  assumes "w_env w = run_env quiet_os" "\<not> dirs w (mountPath 7)" "files w (mountPath 7) = None"
  obtains w' where "Mounter_Mount 7 ''vol'' w = (Ok (), w')" "w_env w' = w_env w" "files w' = files w"
    "list_ex is_create (hist w) \<Longrightarrow> list_ex is_create (hist w')"
proof -
  let ?w = "(log_event (Os (OMkdirAll (rootPath 7))) (log_event (Os (OStat (mountPath 7))) w))
      \<lparr>dirs := (\<lambda>q. dirs w q \<or> under q (rootPath 7))\<rparr>"
  obtain w' where "setPoint (rootPath 7) ''vol'' ?w = (Ok (), w')" "w_env w' = w_env ?w" "files w' = files ?w"
    "list_ex is_create (hist ?w) \<Longrightarrow> list_ex is_create (hist w')"
    using run_points [of ?w quiet_os] assms(1) by auto
  then show ?thesis
    using that assms run_env_simps(4)
    by (simp add: Mounter_Mount_def Stat_def MkdirAll_def calm_os_op bind_def attempt_def IsNotExist_def)
qed

lemma Attach_run:
  assumes "w_env w = run_env quiet_os"
  obtains w' where "AttachIO \<lparr>p_Pid = 7, p_Handle = 7\<rparr> b w = (Ok 0, w')" "w_env w' = w_env w" "files w' = files w"
    "list_ex is_create (hist w) \<Longrightarrow> list_ex is_create (hist w')"
  using that assms
  by (cases b) (simp_all add: AttachIO_def attach_stdin_def await_exit_def hcs_call_defs ask_def bind_def ignore_def
      run_env_simps quiet_hcs_def)

lemma Interrupt_run:
  assumes "w_env w = run_env quiet_os"
  shows "SetInterrupt p w = (Ok (), log_event (Os OSignalNotify) w)"
  using assms by (simp add: SetInterrupt_def query_def bind_def run_env_simps quiet_os_def)

lemma State_run:
  assumes "w_env w = run_env quiet_os" "list_ex is_create (hist w)" "recorded example_manager w = Some (started_record b)"
  obtains s w' where "State_State example_manager w = (Ok s, w')" "os_Pid s = 7" "w_env w' = w_env w"
    "list_ex is_create (hist w')"
proof -
  let ?w1 = "log_event (Hcs (CGetContainers \<lparr>q_IDs = [''app''], q_Owners = []\<rparr>)) w"
  have "GetContainerProperties (sm_containerId example_manager) w = (Ok \<lparr>cp_ID = ''app'', cp_Stopped = False\<rparr>, ?w1)"
    using assms by (simp add: GetContainerProperties_def GetContainers_def ask_def bind_def example_manager_def run_env_simps)
  moreover have "loadState example_manager ?w1
      = (Ok (started_record b), log_event (Os (OReadFile (state_path example_manager))) ?w1)"
    using assms run_env_simps(4) by (intro calm_loadState) (simp_all add: recorded_def)
  moreover have "o_OpenProcess (e_win (w_env w)) h f i p = Inr 1" "o_WinCall (e_win (w_env w)) h c = Inr ()"
    "o_GetExitCodeProcess (e_win (w_env w)) h x = Inr 0" for h f i p c x
    by (simp_all add: assms(1) run_env_simps quiet_win_def)
  ultimately show ?thesis
    using that assms(2)
    by (simp add: State_State_def userProgramStatus_def started_record_def stateValid_def asks_def bind_def attempt_def
        annotate_def deferring_def ignore_def win_syscall_defs ask_def zero_Filetime_def STILL_ACTIVE_EXIT_CODE_def)
qed

lemma Unmount_run:
  assumes "w_env w = run_env quiet_os"
  obtains w' where "Mounter_Unmount 7 w = (Ok (), w')" "w_env w' = w_env w"
    "list_ex is_create (hist w) \<Longrightarrow> list_ex is_create (hist w')"
proof -
  obtain w1 where "deletePoint (rootPath 7) w = (Ok (), w1)" "w_env w1 = w_env w"
    "list_ex is_create (hist w) \<Longrightarrow> list_ex is_create (hist w1)"
    using run_deletePoint [OF assms] by metis
  then show ?thesis
    using that assms run_env_simps(4)
    by (simp add: Mounter_Unmount_def deferring_def ignore_def bind_def RemoveAll_def calm_os_op)
qed

lemma Delete_run:
  assumes "w_env w = run_env quiet_os" "list_ex is_create (hist w)"
  obtains w' where "Container_Delete \<lparr>cm_id = ''app''\<rparr> False w = (Ok (), w')"
  using that assms
  by (simp add: Container_Delete_def deleteContainer_def shutdownContainer_def await_destroyed_def GetContainerProperties_def
      hcs_call_defs ask_def bind_def attempt_def run_env_simps quiet_hcs_def is_create_def)

lemma deleteContainer_run:
  assumes "w_env w = run_env quiet_os" "list_ex is_create (hist w)" "recorded example_manager w = Some (started_record b)"
  obtains w' where "runtime_deleteContainer example_runtime (container_iface \<lparr>cm_id = ''app''\<rparr>)
    (state_iface example_manager) False w = (Ok (), w')"
proof -
  obtain s w1 where s: "State_State example_manager w = (Ok s, w1)" "os_Pid s = 7" "w_env w1 = w_env w"
      "list_ex is_create (hist w1)"
    using State_run [OF assms] by metis
  obtain w2 where u: "Mounter_Unmount 7 w1 = (Ok (), w2)" "w_env w2 = w_env w1" "list_ex is_create (hist w2)"
    using Unmount_run [of w1] s assms(1) by metis
  obtain w3 where d: "State_Delete example_manager w2 = (Ok (), w3)" "w_env w3 = w_env w2" "list_ex is_create (hist w3)"
    using u s assms(1) run_env_simps(4) by (simp add: State_Delete_def RemoveAll_def calm_os_op)
  obtain w4 where "Container_Delete \<lparr>cm_id = ''app''\<rparr> False w3 = (Ok (), w4)"
    using Delete_run [of w3] d u s assms(1) by metis
  then show ?thesis
    using that s u d
    by (simp add: runtime_deleteContainer_def delete_rest_def collect_def attempt_def bind_def state_iface_def
        container_iface_def example_runtime_def winc_runtime_def mounter_iface_def)
qed

lemma create_run:
  obtains w' where "createContainer example_runtime (container_iface \<lparr>cm_id = ''app''\<rparr>) (state_iface example_manager)
      example_bundle (run_world quiet_os) = (Ok example_spec, w')"
    "w_env w' = run_env quiet_os" "list_ex is_create (hist w')" "\<not> dirs w' (mountPath 7)" "files w' (mountPath 7) = None"
    "recorded example_manager w' = Some (zero_State\<lparr>ws_Bundle := example_bundle\<rparr>)"
    "dirs w' example_bundle" "files w' (Join [example_bundle, SpecConfig]) = Some []"
proof -
  have quiet: "o_OsFault quiet_os h c = None" for h c
    by (simp add: quiet_os_def)
  have apart: "mountPath 7 \<noteq> example_bundle" "mountPath 7 \<noteq> ''data''" "mountPath 7 \<noteq> Join [example_bundle, SpecConfig]"
    "mountPath 7 \<noteq> state_path example_manager" "state_path example_manager \<noteq> Join [example_bundle, SpecConfig]"
    by code_simp+
  obtain w1 where w1: "Container_Spec \<lparr>cm_id = ''app''\<rparr> example_bundle (run_world quiet_os) = (Ok example_spec, w1)"
      "w_env w1 = run_env quiet_os" "\<not> list_ex is_create (hist w1)" "files w1 = files (run_world quiet_os)"
      "dirs w1 = dirs (run_world quiet_os)"
    using Spec_run [of quiet_os "run_world quiet_os"] quiet run_world_simps by metis
  then have "dirs w1 ''data''"
    by (simp add: run_world_def)
  then obtain w2 where w2: "Container_Create \<lparr>cm_id = ''app''\<rparr> example_spec [] w1 = (Ok (), w2)"
      "w_env w2 = run_env quiet_os" "list_ex is_create (hist w2)" "files w2 = files w1" "dirs w2 = dirs w1"
    using Create_run [of quiet_os w1] quiet w1 by metis
  then have "os_calm (w_env w2)" "\<not> dirs w2 (mountPath 7)"
    using w1 apart run_env_simps(4) by (simp_all add: run_world_def)
  then obtain w3 where w3: "State_Initialize example_manager example_bundle w2 = (Ok (), w3)" "w_env w3 = w_env w2"
      "list_ex is_create (hist w3)" "\<not> dirs w3 (mountPath 7)" "dirs w3 example_bundle"
      "files w3 = (files w2)(state_path example_manager := Some (print_json (enc_State (zero_State\<lparr>ws_Bundle := example_bundle\<rparr>))))"
    using Initialize_run [of w2 example_bundle] w1(5) w2(3,5) run_world_simps(2) by metis
  have "createContainer example_runtime (container_iface \<lparr>cm_id = ''app''\<rparr>) (state_iface example_manager)
      example_bundle (run_world quiet_os) = (Ok example_spec, w3)"
    using w1(1) w2(1) w3(1)
    by (simp add: createContainer_def initialize_or_delete_def credentials_def container_iface_def state_iface_def
        example_runtime_def winc_runtime_def bind_def attempt_def)
  moreover have "files w3 (mountPath 7) = None"
    using w1 w2 w3 apart by (simp add: run_world_def quiet_world_def)
  moreover have "recorded example_manager w3 = Some (zero_State\<lparr>ws_Bundle := example_bundle\<rparr>)"
    using w3(6) by (simp add: recorded_def decode_enc_State zero_State_def int64_def)
  moreover have "files w3 (Join [example_bundle, SpecConfig]) = Some []"
    using w1 w2 w3 apart run_world_simps(3) by simp
  ultimately show ?thesis
    using that w2 w3 by simp
qed

lemma start_run:
  assumes "w_env w = run_env quiet_os" "list_ex is_create (hist w)" "\<not> dirs w (mountPath 7)" "files w (mountPath 7) = None"
    "recorded example_manager w = Some (zero_State\<lparr>ws_Bundle := b\<rparr>)"
  obtains w' where "startProcess example_runtime (container_iface \<lparr>cm_id = ''app''\<rparr>) (state_iface example_manager)
      example_spec detach w = (Ok \<lparr>p_Pid = 7, p_Handle = 7\<rparr>, w')"
    "w_env w' = run_env quiet_os" "list_ex is_create (hist w')" "recorded example_manager w' = Some (started_record b)"
proof -
  have apart: "mountPath 7 \<noteq> state_path example_manager"
    by code_simp
  obtain w1 where w1: "Container_Exec \<lparr>cm_id = ''app''\<rparr> (the (s_Process example_spec)) (\<not> detach) w
      = (Ok \<lparr>p_Pid = 7, p_Handle = 7\<rparr>, w1)"
    "w_env w1 = w_env w" "list_ex is_create (hist w1)" "files w1 = files w" "dirs w1 = dirs w"
    using Exec_run [OF assms(1), of "the (s_Process example_spec)" "\<not> detach"] assms(2) by metis
  then have "recorded example_manager w1 = Some (zero_State\<lparr>ws_Bundle := b\<rparr>)"
    using assms(5) by (simp add: recorded_def)
  then obtain w2 where w2: "SetSuccess example_manager \<lparr>p_Pid = 7, p_Handle = 7\<rparr> w1 = (Ok (), w2)" "w_env w2 = w_env w1"
      "list_ex is_create (hist w2)" "dirs w2 = dirs w1"
      "files w2 = (files w1)(state_path example_manager := Some (print_json (enc_State (started_record b))))"
    using SetSuccess_run [of w1 example_manager b] w1 assms(1) by metis
  then obtain w3 where w3: "Mounter_Mount 7 ''vol'' w2 = (Ok (), w3)" "w_env w3 = w_env w2" "files w3 = files w2"
      "list_ex is_create (hist w3)"
    using Mount_run [of w2] w1 assms(1,3,4) apart by (metis fun_upd_apply)
  have "startProcess example_runtime (container_iface \<lparr>cm_id = ''app''\<rparr>) (state_iface example_manager)
      example_spec detach w = (Ok \<lparr>p_Pid = 7, p_Handle = 7\<rparr>, w3)"
    using w1(1) w2(1) w3(1)
    by (simp add: startProcess_def example_spec_def container_iface_def state_iface_def mounter_iface_def
        example_runtime_def winc_runtime_def bind_def attempt_def)
  moreover have "recorded example_manager w3 = Some (started_record b)"
    using w2 w3 by (simp add: recorded_def decode_enc_State started_record_def int64_def)
  ultimately show ?thesis
    using that w1 w2 w3 assms(1) by simp
qed

lemma State_ready:
  assumes "w_env w = run_env quiet_os" "list_ex is_create (hist w)"
    "recorded example_manager w = Some (zero_State\<lparr>ws_Bundle := example_bundle\<rparr>)"
  obtains s w' where "State_State example_manager w = (Ok s, w')" "os_Status s = StateCreated"
    "os_Bundle s = example_bundle" "w_env w' = run_env quiet_os" "list_ex is_create (hist w')"
    "files w' = files w" "dirs w' = dirs w"
proof -
  let ?w1 = "log_event (Hcs (CGetContainers \<lparr>q_IDs = [''app''], q_Owners = []\<rparr>)) w"
  have "GetContainerProperties (sm_containerId example_manager) w = (Ok \<lparr>cp_ID = ''app'', cp_Stopped = False\<rparr>, ?w1)"
    using assms(1,2)
    by (simp add: GetContainerProperties_def GetContainers_def ask_def bind_def example_manager_def run_env_simps)
  moreover have "loadState example_manager ?w1
      = (Ok (zero_State\<lparr>ws_Bundle := example_bundle\<rparr>), log_event (Os (OReadFile (state_path example_manager))) ?w1)"
    using assms(1,3) run_env_simps(4) by (intro calm_loadState) (simp_all add: recorded_def)
  ultimately show ?thesis
    using that assms(1,2)
    by (simp add: State_State_def userProgramStatus_def zero_State_def stateValid_def asks_def bind_def annotate_def attempt_def)
qed

lemma foreground_run:
  obtains w' where "Runtime_Run example_runtime ''app'' example_bundle [] stdin0 False (run_world quiet_os) = (Ok 0, w')"
proof -
  let ?cm = "container_iface \<lparr>cm_id = ''app''\<rparr>" and ?sm = "state_iface example_manager"
    and ?p = "\<lparr>p_Pid = 7, p_Handle = 7\<rparr>"
  obtain w1 where w1: "createContainer example_runtime ?cm ?sm example_bundle (run_world quiet_os) = (Ok example_spec, w1)"
    "w_env w1 = run_env quiet_os" "list_ex is_create (hist w1)" "\<not> dirs w1 (mountPath 7)" "files w1 (mountPath 7) = None"
    "recorded example_manager w1 = Some (zero_State\<lparr>ws_Bundle := example_bundle\<rparr>)"
    using create_run by blast
  obtain w2 where w2: "startProcess example_runtime ?cm ?sm example_spec False w1 = (Ok ?p, w2)"
    "w_env w2 = run_env quiet_os" "list_ex is_create (hist w2)" "recorded example_manager w2 = Some (started_record example_bundle)"
    by (rule start_run [OF w1(2-6)])
  let ?w2 = "log_event (Os OSignalNotify) w2"
  obtain w3 where w3: "AttachIO ?p stdin0 ?w2 = (Ok 0, w3)" "w_env w3 = w_env w2" "files w3 = files w2" "list_ex is_create (hist w3)"
    using Attach_run [of ?w2 stdin0] w2 by (auto simp: log_event_def)
  obtain w4 where "runtime_deleteContainer example_runtime ?cm ?sm False w3 = (Ok (), w4)"
    using deleteContainer_run [of w3 example_bundle] w2 w3 by (metis recorded_def)
  moreover have "rt_containerFactory example_runtime ''app'' = ?cm" "sm_for example_runtime ''app'' = ?sm"
    "rt_processWrapper example_runtime = wrapper_iface"
    by (simp_all add: example_runtime_def winc_runtime_def container_factory_def sm_for_def state_factory_def example_manager_def)
  ultimately have "Runtime_Run example_runtime ''app'' example_bundle [] stdin0 False (run_world quiet_os)
      = (Ok 0, snd (ignore (Process_Close ?p) w4))"
    using w1(1) w2(1) w3(1) Interrupt_run [OF w2(2), of ?p]
    by (simp add: Runtime_Run_def wrapper_iface_def WritePIDFile_def bind_def attempt_def deferring_def Let_def
        ignore_def hcs_call_defs ask_def split: prod.split sum.split)
  then show ?thesis
    by (rule that)
qed

lemma run_world_tracks: "tracks example_manager (run_world quiet_os) None"
proof -
  have "follows example_manager (run_world quiet_os) None" "honest_pids (run_env quiet_os)"
    using run_env_simps(4) 
    by (auto simp: follows_def honest_pids_def honest_times_def run_world_def quiet_world_def run_env_simps
        quiet_hcs_def quiet_win_def zero_Filetime_def int64_def) code_simp
  then show ?thesis
    by (simp add: example_tracks run_world_def)
qed

theorem start_needs_created_witness:
  "\<exists>w w'. tracks example_manager w (Some (Created example_bundle))
     \<and> Runtime_Start example_runtime ''app'' [] w = (Ok (), w')
     \<and> (\<exists>pid t. tracks example_manager w' (Some (Started example_bundle pid t)))"
proof -
  let ?cm = "container_iface \<lparr>cm_id = ''app''\<rparr>" and ?sm = "state_iface example_manager" and ?p = "\<lparr>p_Pid = 7, p_Handle = 7\<rparr>"
  obtain w where w: "w_env w = run_env quiet_os" "list_ex is_create (hist w)" "\<not> dirs w (mountPath 7)" "files w (mountPath 7) = None"
    "recorded example_manager w = Some (zero_State\<lparr>ws_Bundle := example_bundle\<rparr>)" "dirs w example_bundle"
    "files w (Join [example_bundle, SpecConfig]) = Some []"
    using create_run by blast
  obtain s w1 where w1: "State_State example_manager w = (Ok s, w1)" "os_Status s = StateCreated"
    "os_Bundle s = example_bundle" "w_env w1 = run_env quiet_os" "list_ex is_create (hist w1)"
    "files w1 = files w" "dirs w1 = dirs w"
    by (rule State_ready [OF w(1,2,5)])
  obtain w2 where w2: "Container_Spec \<lparr>cm_id = ''app''\<rparr> example_bundle w1 = (Ok example_spec, w2)"
    "w_env w2 = run_env quiet_os" "list_ex is_create (hist w2)" "files w2 = files w1" "dirs w2 = dirs w1"
    using Spec_run [of quiet_os w1] w1 w by (auto simp: quiet_os_def)
  have rec: "recorded example_manager w2 = Some (zero_State\<lparr>ws_Bundle := example_bundle\<rparr>)"
    using w(5) w1 w2 by (simp add: recorded_def)
  obtain w3 where w3: "startProcess example_runtime ?cm ?sm example_spec False w2 = (Ok ?p, w3)"
    using start_run [OF w2(2,3) _ _ rec] w(3,4) w1(6,7) w2(4,5) by metis
  have "rt_containerFactory example_runtime ''app'' = ?cm" "sm_for example_runtime ''app'' = ?sm"
    "rt_processWrapper example_runtime = wrapper_iface"
    by (simp_all add: example_runtime_def winc_runtime_def container_factory_def sm_for_def state_factory_def example_manager_def)
  then have run: "Runtime_Start example_runtime ''app'' [] w = (Ok (), snd (ignore (Process_Close ?p) w3))"
    using w1(1-3) w2(1) w3
    by (simp add: Runtime_Start_def wrapper_iface_def WritePIDFile_def container_iface_def state_iface_def bind_def
        deferring_def Let_def ignore_def hcs_call_defs ask_def split: prod.split sum.split)
  have tr: "tracks example_manager w (Some (Created example_bundle))"
    using run_world_tracks w(1,5)
    by (simp add: example_tracks follows_def phase_of_def zero_State_def stateValid_def run_world_def)
  have path: "[] \<noteq> state_path example_manager"
    by code_simp
  have "\<exists>pid t. tracks example_manager (snd (ignore (Process_Close ?p) w3)) (Some (Started example_bundle pid t))"
    using start_needs_created [of "sm_rootDir example_manager" "''app''", unfolded example_manager_of, OF tr path
      run [unfolded example_runtime_def]]
    by (simp only: option.case phase.case) (elim disjE exE conjE; auto split: outcome.splits if_splits)
  then show ?thesis
    using tr run by blast
qed

theorem run_leaves_nothing_witness:
  "\<exists>w'. Runtime_Run example_runtime ''app'' example_bundle [] False False (run_world quiet_os) = (Ok 0, w')
     \<and> files w' (state_path example_manager) = None \<and> ran_and_removed ''app'' (run_world quiet_os) 0 w'"
proof -
  obtain w' where run: "Runtime_Run example_runtime ''app'' example_bundle [] False False (run_world quiet_os) = (Ok 0, w')"
    by (rule foreground_run)
  have "[] \<noteq> state_path example_manager"
    by code_simp
  then show ?thesis
    using run_leaves_nothing [of "sm_rootDir example_manager" "''app''" "run_world quiet_os" None "[]"] run run_world_tracks
    unfolding example_manager_of example_runtime_def by blast
qed

definition full_disk :: os_env where
  "full_disk = quiet_os\<lparr>o_OsFault := (\<lambda>_ c. case c of OWriteFile _ _ \<Rightarrow> Some (Errorf ''disk full'') | _ \<Rightarrow> None),
     o_PartialWrite := (\<lambda>_ _. Some [])\<rparr>"

theorem failed_initialize_deletes_witness:
  "\<exists>e w' w1 w2. Runtime_Create example_runtime ''app'' example_bundle (run_world full_disk) = (Err e, w')
     \<and> create_parts example_runtime (container_iface \<lparr>cm_id = ''app''\<rparr>) example_bundle (run_world full_disk) = (Ok example_spec, w1)
     \<and> State_Initialize example_manager example_bundle w1 = (Err e, w2)
     \<and> w' = snd (Container_Delete \<lparr>cm_id = ''app''\<rparr> False w2)"
proof -
  let ?cm = "container_iface \<lparr>cm_id = ''app''\<rparr>" and ?sm = "state_iface example_manager"
  have reading: "reads c \<Longrightarrow> o_OsFault full_disk h c = None" for h c
    by (simp add: full_disk_def reads_def split: os_call.splits)
  obtain w1 where w1: "Container_Spec \<lparr>cm_id = ''app''\<rparr> example_bundle (run_world full_disk) = (Ok example_spec, w1)"
      "w_env w1 = run_env full_disk" "\<not> list_ex is_create (hist w1)" "dirs w1 = dirs (run_world full_disk)"
    using Spec_run [of full_disk "run_world full_disk"] reading run_world_simps by metis
  then have "dirs w1 ''data''"
    by (simp add: run_world_def)
  then obtain w2 where w2: "Container_Create \<lparr>cm_id = ''app''\<rparr> example_spec [] w1 = (Ok (), w2)" "w_env w2 = run_env full_disk"
    using Create_run [of full_disk w1] reading w1 by metis
  have parts: "create_parts example_runtime ?cm example_bundle (run_world full_disk) = (Ok example_spec, w2)"
    using w1(1) w2(1) by (simp add: create_parts_def credentials_def container_iface_def example_runtime_def winc_runtime_def bind_def)
  obtain w3 where w3: "State_Initialize example_manager example_bundle w2 = (Err (Errorf ''disk full''), w3)"
    using w2(2) by (simp add: State_Initialize_def MkdirAll_def writeState_def WriteFile_def os_op_def bind_def run_env_simps full_disk_def)
  obtain r w4 where w4: "Container_Delete \<lparr>cm_id = ''app''\<rparr> False w3 = (r, w4)"
    by fastforce
  have "\<nexists>p. r = Panic p"
    using w4 no_panic_removal(4) [of "\<lparr>cm_id = ''app''\<rparr>" False] by (auto simp: no_panic_def)
  then have "createContainer example_runtime ?cm ?sm example_bundle (run_world full_disk) = (Err (Errorf ''disk full''), w4)"
    using parts w3 w4
    by (cases r) (simp_all add: createContainer_parts initialize_or_delete_def container_iface_def state_iface_def
        bind_def attempt_def ignore_def)
  moreover have "rt_containerFactory example_runtime ''app'' = ?cm" "sm_for example_runtime ''app'' = ?sm"
    by (simp_all add: example_runtime_def winc_runtime_def container_factory_def sm_for_def state_factory_def example_manager_def)
  ultimately have run: "Runtime_Create example_runtime ''app'' example_bundle (run_world full_disk) = (Err (Errorf ''disk full''), w4)"
    by (simp add: Runtime_Create_def bind_def)
  show ?thesis
    using failed_initialize_deletes [OF run [unfolded example_runtime_def]] parts run
    unfolding example_manager_of example_runtime_def by auto
qed

section \<open>Deleting several containers, and missing ones\<close>

text \<open>The attempts to delete a list of containers, one after the other.\<close>

fun delete_each :: "Runtime \<Rightarrow> bool \<Rightarrow> string list \<Rightarrow> world \<Rightarrow> (error, unit) outcome list \<times> world" where
  "delete_each r force [] w = ([], w)"
| "delete_each r force (i # ids) w =
     (let (x, w1) = runtime_deleteContainer r (rt_containerFactory r i) (sm_for r i) force w;
          (xs, w2) = delete_each r force ids w1
      in (x # xs, w2))"

definition messages :: "(error, unit) outcome list \<Rightarrow> string list" where
  "messages xs = concat (map (\<lambda>x. case x of Err e \<Rightarrow> [Error e] | _ \<Rightarrow> []) xs)"

lemma no_panic_delete_rest: "no_panic (delete_rest (container_iface c) (state_iface m) force errs)"
  unfolding delete_rest_def collect_def container_iface_def state_iface_def ContainerIface.select_convs StateIface.select_convs
  by (intro safe_intros)

lemma no_panic_winc_delete:
  "no_panic (runtime_deleteContainer (winc_runtime root cs config) (container_iface c) (state_iface m) force)"
  unfolding runtime_deleteContainer_def collect_def winc_runtime_def mounter_iface_def state_iface_def Runtime.select_convs
    MounterIface.select_convs StateIface.select_convs
  by (intro safe_intros no_panic_delete_rest [unfolded state_iface_def])

lemma messages_empty: "\<nexists>p. Panic p \<in> set xs \<Longrightarrow> messages xs = [] \<longleftrightarrow> (\<forall>x \<in> set xs. x = Ok ())"
  by (induction xs) (auto simp: messages_def split: outcome.splits)

lemma delete_all_each:
  assumes "delete_each (winc_runtime root cs config) force ids w = (xs, w')"
  shows "delete_all (winc_runtime root cs config) force ids errs w = (Ok (errs @ messages xs), w')
    \<and> length xs = length ids \<and> (\<nexists>p. Panic p \<in> set xs)"
  using assms
proof (induction ids arbitrary: w xs errs)
  case (Cons i ids)
  let ?del = "runtime_deleteContainer (winc_runtime root cs config) (rt_containerFactory (winc_runtime root cs config) i)
      (sm_for (winc_runtime root cs config) i) force"
  obtain x w1 ys where x: "?del w = (x, w1)" "delete_each (winc_runtime root cs config) force ids w1 = (ys, w')" "xs = x # ys"
    using Cons.prems by (auto simp: Let_def split: prod.splits)
  have "no_panic ?del"
    by (simp add: winc.wiring no_panic_winc_delete)
  then have "\<nexists>p. x = Panic p"
    using x(1) by (auto simp: no_panic_def)
  then show ?case
    using x Cons.IH [OF x(2)] by (cases x) (auto simp: collect_def bind_def attempt_def messages_def)
qed (simp add: messages_def)

text \<open>
  C39: \<open>winc delete\<close> goes on after an error. When the sidecars of a container can be listed,
  the removal of each of them and then of the container itself is attempted, one after
  the other; the command succeeds exactly when every attempt did, and otherwise its error
  lists the errors of all that failed.
\<close>

theorem Delete_attempts_all:
  assumes "GetContainers \<lparr>q_IDs = [], q_Owners = [i]\<rparr> w = (Ok sidecars, w1)"
    and "delete_each (winc_runtime root cs config) force (map cp_ID sidecars @ [i]) w1 = (xs, w')"
  shows "length xs = Suc (length sidecars)
    \<and> Runtime_Delete (winc_runtime root cs config) i force w
        = (if \<forall>x \<in> set xs. x = Ok () then Ok () else Err (Errorf (join [CHR 0x0A] (messages xs))), w')"
proof -
  have "rt_hcsQuery (winc_runtime root cs config) = GetContainers"
    by (simp add: winc_runtime_def)
  moreover note delete_all_each [OF assms(2), of "[]"]
  ultimately show ?thesis
    using assms(1) messages_empty [of xs] by (auto simp: Runtime_Delete_def bind_def)
qed

theorem Delete_attempts_all_witness:
  "\<exists>w1 xs w'. GetContainers \<lparr>q_IDs = [], q_Owners = [''app'']\<rparr> quiet_world = (Ok [], w1)
     \<and> delete_each example_runtime True [''app''] w1 = (xs, w')
     \<and> length xs = 1 \<and> snd (Runtime_Delete example_runtime ''app'' True quiet_world) = w'"
proof -
  obtain w1 where w1: "GetContainers \<lparr>q_IDs = [], q_Owners = [''app'']\<rparr> quiet_world = (Ok [], w1)"
    by (simp add: GetContainers_def ask_def quiet_defs)
  obtain xs w' where each: "delete_each example_runtime True [''app''] w1 = (xs, w')"
    by fastforce
  then show ?thesis
    using w1 Delete_attempts_all [OF w1, of _ _ _ True xs w'] by (simp add: example_runtime_def)
qed

text \<open>
  Deleting a container that the host compute service no longer knows leaves its record
  behind. With \<open>--force\<close> the command reports success, without it the error, and in both
  cases no file is touched and nothing is unmounted.
\<close>

theorem delete_missing_keeps_record:
  assumes "o_GetContainers (e_hcs (w_env w)) (hist w) \<lparr>q_IDs = [i], q_Owners = []\<rparr> = Inr []"
    and "runtime_deleteContainer (winc_runtime root cs config) (container_iface \<lparr>cm_id = i\<rparr>)
           (state_iface (manager_of root i)) force w = (r, w')"
  shows "r = (if force then Ok () else Err (HcsError (NotFoundError i)))
    \<and> w' = log_event (Hcs (CGetContainers \<lparr>q_IDs = [i], q_Owners = []\<rparr>)) w"
  using assms
  by (auto simp: runtime_deleteContainer_def state_iface_def State_State_def GetContainerProperties_def GetContainers_def
      ask_def bind_def attempt_def manager_of_def is_NotFoundError_def split: if_splits)

theorem delete_missing_keeps_record_witness:
  "\<exists>w'. runtime_deleteContainer example_runtime (container_iface \<lparr>cm_id = ''app''\<rparr>)
        (state_iface example_manager) True (created_world\<lparr>w_env := quiet_env\<rparr>) = (Ok (), w')
     \<and> files w' (state_path example_manager) \<noteq> None"
proof -
  let ?w = "created_world\<lparr>w_env := quiet_env\<rparr>"
  obtain r w' where run: "runtime_deleteContainer example_runtime (container_iface \<lparr>cm_id = ''app''\<rparr>)
        (state_iface example_manager) True ?w = (r, w')"
    by fastforce
  have "o_GetContainers (e_hcs (w_env ?w)) (hist ?w) \<lparr>q_IDs = [''app''], q_Owners = []\<rparr> = Inr []"
    by (simp add: quiet_env_def quiet_hcs_def)
  then have "r = Ok () \<and> w' = log_event (Hcs (CGetContainers \<lparr>q_IDs = [''app''], q_Owners = []\<rparr>)) ?w"
    using delete_missing_keeps_record [of ?w "''app''" "sm_rootDir example_manager" "[]" _ True r w'] run
    unfolding example_manager_of example_runtime_def by simp
  then show ?thesis
    using run by (simp add: created_world_def)
qed

end
