(* ===== verification/Cmd_Winc.thy ===== *)
theory Cmd_Winc
  imports Runtime
begin

text \<open>
  cmd/winc: the command line of winc, from the parsed flags on. Opening the log, decoding
  the configuration of the runtime, wiring it, the check of the number of arguments of
  every command, and the exit code. Splitting the command line into flags and arguments and
  printing of help texts are the cli library's.
\<close>

section \<open>Before a command\<close>

definition zero_RuntimeConfig :: RuntimeConfig where
  "zero_RuntimeConfig = \<lparr>rc_UaaCredhubClientId = [], rc_UaaCredhubClientSecret = [], rc_CredhubEndpoint = [],
     rc_CredhubCaCertificate = []\<rparr>"

definition runtime_config_fields :: "RuntimeConfig fields" where
  "runtime_config_fields =
     [(''uaa_credhub_client_id'', field rc_UaaCredhubClientId (\<lambda>x r. r\<lparr>rc_UaaCredhubClientId := x\<rparr>) dec_str),
      (''uaa_credhub_client_secret'', field rc_UaaCredhubClientSecret (\<lambda>x r. r\<lparr>rc_UaaCredhubClientSecret := x\<rparr>) dec_str),
      (''credhub_endpoint'', field rc_CredhubEndpoint (\<lambda>x r. r\<lparr>rc_CredhubEndpoint := x\<rparr>) dec_str),
      (''credhub_ca_certificate'', field rc_CredhubCaCertificate (\<lambda>x r. r\<lparr>rc_CredhubCaCertificate := x\<rparr>) dec_str)]"

definition parseRuntimeConfig :: "string \<Rightarrow> RuntimeConfig op" where
  "parseRuntimeConfig configFile =
     (if configFile \<noteq> [] then
        bind (ReadFile configFile) (\<lambda>content.
        bind (asks (\<lambda>e. o_JsonMessage (e_lib e) content)) (\<lambda>msg.
          case Option.bind (unmarshal_json content) (dec_struct runtime_config_fields zero_RuntimeConfig) of
            None \<Rightarrow> throw (JsonError msg)
          | Some config \<Rightarrow> ret config))
      else ret zero_RuntimeConfig)"

text \<open>\<open>os.DevNull\<close> is \<open>NUL\<close>.\<close>

definition emptyLog :: "string \<Rightarrow> bool" where
  "emptyLog log \<longleftrightarrow> log = [] \<or> log = ''NUL''"

definition validHandle :: "u64 \<Rightarrow> unit op" where
  "validHandle handle =
     bind (dll_call (WGetHandleInformation handle)) (\<lambda>(r0, err). if r0 = 0 then throw err else ret ())"

text \<open>The global flags, after the command line library has parsed them.\<close>

record WincFlags =
  wf_log :: string
  wf_logHandle :: u64
  wf_logFormat :: string
  wf_root :: string
  wf_credentialSpec :: string
  wf_configFile :: string

definition open_log_handle :: "u64 \<Rightarrow> unit op" where
  "open_log_handle handle =
     (if handle \<noteq> 0 then annotate (''log handle '' @ format_uint handle @ '' invalid'') (validHandle handle) else ret ())"

definition open_log_file :: "string \<Rightarrow> unit op" where
  "open_log_file log =
     (if \<not> emptyLog log then bind (MkdirAll (Dir log)) (\<lambda>_. open_append log) else ret ())"

text \<open>
  The format of the message has no verb for the error, which \<open>fmt\<close> reports in the text; the
  text is exact for paths without a percent sign.
\<close>

definition check_credential_spec :: "string \<Rightarrow> unit op" where
  "check_credential_spec path =
     (if path = [] then ret ()
      else bind (attempt (Stat path)) (\<lambda>r. case r of
        Inl err \<Rightarrow> throw (Errorf (''Error with provided --credential-spec '' @ path
                     @ '':%!(EXTRA *fs.PathError='' @ Error err @ '')''))
      | Inr _ \<Rightarrow> ret ()))"

definition winc_before :: "WincFlags \<Rightarrow> Runtime op" where
  "winc_before flags =
     bind (annotate ''config-file'' (parseRuntimeConfig (wf_configFile flags))) (\<lambda>config.
       if \<not> emptyLog (wf_log flags) \<and> wf_logHandle flags \<noteq> 0
       then throw (Errorf ''only one of --log and --log-handle can be passed'')
       else
         bind (open_log_handle (wf_logHandle flags)) (\<lambda>_.
         bind (open_log_file (wf_log flags)) (\<lambda>_.
           if wf_logFormat flags \<noteq> ''text'' \<and> wf_logFormat flags \<noteq> ''json''
           then throw (InvalidLogFormatError (wf_logFormat flags))
           else
             bind (check_credential_spec (wf_credentialSpec flags)) (\<lambda>_.
               ret (winc_runtime (wf_root flags) (wf_credentialSpec flags) config)))))"

section \<open>The commands\<close>

datatype checkType = exactArgs | minArgs | maxArgs

definition quoted :: "string \<Rightarrow> string" where
  "quoted s = [CHR 0x22] @ s @ [CHR 0x22]"

text \<open>The usage error; \<open>program\<close> is \<open>os.Args[0]\<close>.\<close>

definition args_error :: "string \<Rightarrow> string \<Rightarrow> nat \<Rightarrow> nat \<Rightarrow> checkType \<Rightarrow> error option" where
  "args_error program cmdName nargs expected check =
     (let message = (\<lambda>how. Errorf (program @ '': '' @ quoted cmdName @ '' requires '' @ how @ '' '' @ itoa (int expected)
            @ '' argument(s)'')) in
      case check of
        exactArgs \<Rightarrow> if nargs \<noteq> expected then Some (message ''exactly'') else None
      | minArgs \<Rightarrow> if nargs < expected then Some (message ''a minimum of'') else None
      | maxArgs \<Rightarrow> if nargs > expected then Some (message ''a maximum of'') else None)"

definition checkArgs :: "string \<Rightarrow> string \<Rightarrow> string list \<Rightarrow> nat \<Rightarrow> checkType \<Rightarrow> unit op" where
  "checkArgs program cmdName args expected check =
     (case args_error program cmdName (length args) expected check of
        None \<Rightarrow> ret ()
      | Some err \<Rightarrow>
          bind (ignore (write_out (''Incorrect Usage.'' @ [CHR 0x0A, CHR 0x0A]))) (\<lambda>_. throw err))"

text \<open>
  A command returns, or leaves the program with an exit code (\<open>os.Exit\<close>). The standard
  streams are never nil. The container id is \<open>Args().First()\<close>.
\<close>

definition createCommand :: "string \<Rightarrow> Runtime \<Rightarrow> string list \<Rightarrow> string \<Rightarrow> int option op" where
  "createCommand program run args bundlePath =
     bind (checkArgs program ''create'' args 1 exactArgs) (\<lambda>_.
     bind (Runtime_Create run (hd args) bundlePath) (\<lambda>_. ret None))"

definition deleteCommand :: "string \<Rightarrow> Runtime \<Rightarrow> string list \<Rightarrow> bool \<Rightarrow> int option op" where
  "deleteCommand program run args force =
     bind (checkArgs program ''delete'' args 1 exactArgs) (\<lambda>_.
     bind (Runtime_Delete run (hd args) force) (\<lambda>_. ret None))"

definition eventsCommand :: "string \<Rightarrow> Runtime \<Rightarrow> string list \<Rightarrow> bool \<Rightarrow> int option op" where
  "eventsCommand program run args showStats =
     bind (checkArgs program ''events'' args 1 exactArgs) (\<lambda>_.
     bind (Runtime_Events run (hd args) True showStats) (\<lambda>_. ret None))"

record ExecFlags =
  ef_process :: string
  ef_cwd :: string
  ef_user :: string
  ef_env :: "string list"
  ef_pidFile :: string
  ef_detach :: bool

definition execCommand :: "string \<Rightarrow> Runtime \<Rightarrow> string list \<Rightarrow> ExecFlags \<Rightarrow> int option op" where
  "execCommand program run args flags =
     bind (checkArgs program ''exec'' args 1 minArgs) (\<lambda>_.
     let processOverrides = \<lparr>sp_Args = tl args, sp_Cwd = ef_cwd flags, sp_Env = ef_env flags, sp_Username = ef_user flags\<rparr> in
     bind (Runtime_Exec run (hd args) (ef_process flags) (ef_pidFile flags) (Some processOverrides) True (ef_detach flags))
       (\<lambda>exitCode. ret (if \<not> ef_detach flags then Some exitCode else None)))"

definition runCommand :: "string \<Rightarrow> Runtime \<Rightarrow> string list \<Rightarrow> string \<Rightarrow> bool \<Rightarrow> string \<Rightarrow> int option op" where
  "runCommand program run args bundlePath detach pidFile =
     bind (checkArgs program ''run'' args 1 exactArgs) (\<lambda>_.
     bind (Runtime_Run run (hd args) bundlePath pidFile True detach)
       (\<lambda>exitCode. ret (if \<not> detach then Some exitCode else None)))"

definition startCommand :: "string \<Rightarrow> Runtime \<Rightarrow> string list \<Rightarrow> string \<Rightarrow> int option op" where
  "startCommand program run args pidFile =
     bind (checkArgs program ''start'' args 1 minArgs) (\<lambda>_.
     bind (Runtime_Start run (hd args) pidFile) (\<lambda>_. ret None))"

definition stateCommand :: "string \<Rightarrow> Runtime \<Rightarrow> string list \<Rightarrow> int option op" where
  "stateCommand program run args =
     bind (checkArgs program ''state'' args 1 exactArgs) (\<lambda>_.
     bind (Runtime_State run (hd args) True) (\<lambda>_. ret None))"

datatype command =
    Create string
  | Delete bool
  | Run string bool string
  | State_of
  | Start string
  | Exec ExecFlags
  | Events bool

definition winc_command :: "string \<Rightarrow> Runtime \<Rightarrow> command \<Rightarrow> string list \<Rightarrow> int option op" where
  "winc_command program run cmd args =
     (case cmd of
        Create bundle0 \<Rightarrow> createCommand program run args bundle0
      | Delete force \<Rightarrow> deleteCommand program run args force
      | Run bundle0 detach pidFile \<Rightarrow> runCommand program run args bundle0 detach pidFile
      | State_of \<Rightarrow> stateCommand program run args
      | Start pidFile \<Rightarrow> startCommand program run args pidFile
      | Exec flags \<Rightarrow> execCommand program run args flags
      | Events showStats \<Rightarrow> eventsCommand program run args showStats)"

text \<open>\<open>fatal\<close>: the error goes to the standard error and the exit code is 1.\<close>

definition fatal :: "error \<Rightarrow> int op" where
  "fatal err = bind (ignore (write_out (Error err @ [CHR 0x0A]))) (\<lambda>_. ret 1)"

definition winc_main :: "string \<Rightarrow> WincFlags \<Rightarrow> command \<Rightarrow> string list \<Rightarrow> int op" where
  "winc_main program flags cmd args =
     bind (attempt (bind (winc_before flags) (\<lambda>run. winc_command program run cmd args))) (\<lambda>r. case r of
       Inl err \<Rightarrow> fatal err
     | Inr (Some exitCode) \<Rightarrow> ret exitCode
     | Inr None \<Rightarrow> ret 0)"

section \<open>What the set-up touches\<close>

lemmas before_defs = winc_before_def parseRuntimeConfig_def open_log_handle_def open_log_file_def
  check_credential_spec_def validHandle_def

lemma env_open_append [frame_intros]: "frame w_env (open_append p)"
  by (auto simp: frame_def open_append_def os_op_def split: option.splits)

lemma no_panic_open_append [safe_intros]: "no_panic (open_append p)"
  by (auto simp: no_panic_def open_append_def os_op_def split: option.splits)

lemma logs_open_append [logs_intros]: "P (Os (OOpenAppend p)) \<Longrightarrow> logs P (open_append p)"
  unfolding open_append_def by (auto intro!: logs_os_op frameI)

lemma frame_file:
  assumes "p \<noteq> log"
  shows "frame (\<lambda>w. files w p) (MkdirAll d)" "frame (\<lambda>w. files w p) (open_append log)"
  using assms by (auto simp: frame_def MkdirAll_def open_append_def os_op_def split: option.splits)

lemma frame_before:
  "p \<noteq> wf_log flags \<Longrightarrow> frame (\<lambda>w. files w p) (winc_before flags)" "frame w_env (winc_before flags)"
  unfolding before_defs by (intro frame_intros frame_file log_event_simps; simp)+

lemma no_panic_before [safe_intros]: "no_panic (winc_before flags)"
  unfolding before_defs by (intro safe_intros)

text \<open>File operations and the look at the log handle.\<close>

definition local_event :: "event \<Rightarrow> bool" where
  "local_event ev = (case ev of Os _ \<Rightarrow> True | Win (WGetHandleInformation _) \<Rightarrow> True | _ \<Rightarrow> False)"

lemma logs_before: "logs local_event (winc_before flags)"
  unfolding before_defs by (intro logs_intros; simp add: local_event_def)

lemma winc_before_Ok:
  assumes "winc_before flags w = (Ok rt, w')"
  obtains config where "rt = winc_runtime (wf_root flags) (wf_credentialSpec flags) config"
    and "emptyLog (wf_log flags) \<or> wf_logHandle flags = 0"
  using assms unfolding winc_before_def by (auto elim!: ok_elims split: if_splits)

section \<open>Usage errors\<close>

definition expected_args :: "command \<Rightarrow> nat \<Rightarrow> bool" where
  "expected_args cmd n = (case cmd of Start _ \<Rightarrow> 1 \<le> n | Exec _ \<Rightarrow> 1 \<le> n | _ \<Rightarrow> n = 1)"

definition usage_error :: "error \<Rightarrow> int option op" where
  "usage_error err = bind (ignore (write_out (''Incorrect Usage.'' @ [CHR 0x0A, CHR 0x0A]))) (\<lambda>_. throw err)"

lemma wrong_args:
  assumes "\<not> expected_args cmd (length args)"
  shows "\<exists>err. winc_command program run cmd args = usage_error err"
proof -
  have check: "\<exists>err. bind (checkArgs program name args 1 c) f = usage_error err"
    if "if c = exactArgs then length args \<noteq> 1 else c = minArgs \<and> length args < 1"
    for name c and f :: "unit \<Rightarrow> int option op"
    using that
    by (auto simp: checkArgs_def args_error_def usage_error_def Let_def bind_assoc split: if_splits)
  show ?thesis
    using assms unfolding winc_command_def createCommand_def deleteCommand_def runCommand_def stateCommand_def
        startCommand_def execCommand_def eventsCommand_def
    by (cases cmd; simp only: command.case; intro check; simp add: expected_args_def Suc_le_eq)
qed

definition wrong_usage :: "WincFlags \<Rightarrow> command \<Rightarrow> string list \<Rightarrow> bool" where
  "wrong_usage flags cmd args \<longleftrightarrow>
     (\<not> emptyLog (wf_log flags) \<and> wf_logHandle flags \<noteq> 0) \<or> \<not> expected_args cmd (length args)"

lemma wrong_usage_cases:
  assumes "wrong_usage flags cmd args"
  shows "\<exists>err. bind (winc_before flags) (\<lambda>run. winc_command program run cmd args) w
      = bind (winc_before flags) (\<lambda>_. usage_error err) w"
proof (cases "expected_args cmd (length args)")
  case True
  then have "\<nexists>rt w'. winc_before flags w = (Ok rt, w')"
    using assms winc_before_Ok by (metis wrong_usage_def)
  then show ?thesis
    by (cases "fst (winc_before flags w)") (auto simp: bind_def split: prod.splits)
next
  case False
  obtain rt w1 where "winc_before flags w = (rt, w1)"
    by fastforce
  then show ?thesis
    using wrong_args [OF False, of program] by (cases rt) (simp_all add: bind_def, metis)
qed

lemma usage_error_fails: "fst (usage_error err w) = Err err"
  by (auto simp: usage_error_def bind_def ignore_def write_out_def os_op_def split: prod.split option.split)

lemma attempt_usage_error:
  assumes "attempt (bind (winc_before flags) (\<lambda>_. usage_error err)) w = (r, w')"
  shows "\<exists>e. r = Ok (Inl e)"
proof -
  obtain b w1 where b: "winc_before flags w = (b, w1)"
    by fastforce
  then have "\<nexists>s. b = Panic s"
    using no_panicD [OF no_panic_before] by blast
  then show ?thesis
    using assms b usage_error_fails [of err w1]
    by (cases b; cases "usage_error err w1") (auto simp: attempt_def bind_def)
qed

text \<open>
  C40: a usage error does nothing. When \<open>--log\<close> and \<open>--log-handle\<close> are both given, or a
  command has the wrong number of arguments, winc exits with code 1; no file other than the
  log file has changed, and no call was made but file operations and the look at the log
  handle: no container, process, endpoint or volume was touched.
\<close>

theorem usage_errors_do_nothing:
  assumes "wrong_usage flags cmd args" and "winc_main program flags cmd args w = (r, w')"
  shows "r = Ok 1 \<and> (\<forall>p. p \<noteq> wf_log flags \<longrightarrow> files w' p = files w p)
    \<and> (\<exists>evs. hist w' = hist w @ evs \<and> list_all local_event evs)"
proof -
  obtain err where err: "bind (winc_before flags) (\<lambda>run. winc_command program run cmd args) w
      = bind (winc_before flags) (\<lambda>_. usage_error err) w"
    using wrong_usage_cases [OF assms(1)] by blast
  let ?m = "bind (winc_before flags) (\<lambda>_. usage_error err) :: int option op"
  let ?rest = "\<lambda>r. case r of Inl err \<Rightarrow> fatal err | Inr (Some exitCode) \<Rightarrow> ret exitCode | Inr None \<Rightarrow> ret 0"
  have run: "bind (attempt ?m) ?rest w = (r, w')"
    using assms(2) err unfolding winc_main_def by (simp add: bind_def attempt_def)
  obtain a w1 where a: "attempt ?m w = (a, w1)"
    by fastforce
  obtain e where e: "a = Ok (Inl e)"
    using attempt_usage_error [OF a] by blast
  have "r = Ok 1"
    using run a e by (auto simp: bind_def fatal_def ignore_def write_out_def os_op_def split: prod.splits option.splits)
  moreover have "files w' p = files w p" if "p \<noteq> wf_log flags" for p
  proof -
    have "frame (\<lambda>w. files w p) (bind (attempt ?m) ?rest)"
      unfolding usage_error_def fatal_def using that by (intro frame_intros frame_before; simp)
    from frameD [OF this run] show ?thesis .
  qed
  moreover have local: "logs local_event (bind (attempt ?m) ?rest)"
    unfolding usage_error_def fatal_def by (intro logs_intros logs_before; simp add: local_event_def)
  ultimately show ?thesis
    using logsD [OF local run] by blast
qed

definition example_flags :: WincFlags where
  "example_flags = \<lparr>wf_log = [], wf_logHandle = 0, wf_logFormat = ''json'', wf_root = sm_rootDir example_manager,
     wf_credentialSpec = [], wf_configFile = []\<rparr>"

theorem usage_errors_do_nothing_witness:
  "\<exists>w'. winc_main ''winc'' example_flags (Create []) [''a'', ''b''] quiet_world = (Ok 1, w')
     \<and> list_all local_event (hist w')"
proof -
  obtain r w' where run: "winc_main ''winc'' example_flags (Create []) [''a'', ''b''] quiet_world = (r, w')"
    by fastforce
  have "wrong_usage example_flags (Create []) [''a'', ''b'']"
    by (simp add: wrong_usage_def expected_args_def)
  from usage_errors_do_nothing [OF this run] show ?thesis
    using run by (auto simp: quiet_world_def)
qed

section \<open>Running a program in the foreground\<close>

lemma before_leads: "winc_before flags w = (r, w') \<Longrightarrow> leads w w'"
  by (rule trailsD [of "winc_before flags"], intro trailsI frame_before logs_mono [OF logs_before]) simp_all

lemma before_tracks:
  assumes "tracks m w ph" "wf_log flags \<noteq> state_path m" "winc_before flags w = (r, w')"
  shows "tracks m w' ph"
proof -
  have "files w' (state_path m) = files w (state_path m)" "w_env w' = w_env w"
    using frameD [OF frame_before(1) assms(3), of "state_path m"] frameD [OF frame_before(2) assms(3)] assms(2) by auto
  then show ?thesis
    using assms(1) by (cases ph) (simp_all add: tracks_def follows_def recorded_def)
qed

text \<open>
  C16: what the exit code of \<open>winc run\<close> means. When file operations succeed and the log and
  pid files are not the record of the container, a run in the foreground that exits with a
  code other than 1 has started the container's program, exits with the code that this
  program ended with, and has removed the container successfully after that; the record is
  gone.
\<close>

theorem winc_run_exit:
  assumes "tracks (manager_of (wf_root flags) i) w ph"
    and "pf \<noteq> state_path (manager_of (wf_root flags) i)" and "wf_log flags \<noteq> state_path (manager_of (wf_root flags) i)"
    and "winc_main program flags (Run b False pf) [i] w = (Ok code, w')" and "code \<noteq> 1"
  shows "files w' (state_path (manager_of (wf_root flags) i)) = None \<and> ran_and_removed i w code w'"
proof -
  let ?m = "manager_of (wf_root flags) i"
  obtain rt w1 x where rt: "winc_before flags w = (Ok rt, w1)"
      and cmd: "winc_command program rt (Run b False pf) [i] w1 = (Ok x, w')" and x: "x = Some code \<or> x = None"
    using assms(4,5) by (auto simp: winc_main_def fatal_def elim!: ok_elims split: sum.splits option.splits)
  obtain config where config: "rt = winc_runtime (wf_root flags) (wf_credentialSpec flags) config"
    using winc_before_Ok [OF rt] by blast
  have run: "Runtime_Run rt i b pf True False w1 = (Ok code, w')"
    using cmd x by (auto simp: winc_command_def runCommand_def checkArgs_def args_error_def elim!: ok_elims)
  show ?thesis
    using run_to_end [OF before_tracks [OF assms(1,3) rt] assms(2) run [unfolded config]] ran_later [OF before_leads [OF rt]]
    by blast
qed

theorem winc_run_exit_witness:
  "\<exists>w'. winc_main ''winc'' example_flags (Run example_bundle False []) [''app''] (run_world quiet_os) = (Ok 0, w')
     \<and> files w' (state_path example_manager) = None \<and> ran_and_removed ''app'' (run_world quiet_os) 0 w'"
proof -
  let ?w = "run_world quiet_os"
  have m: "manager_of (wf_root example_flags) ''app'' = example_manager"
    by (simp add: example_flags_def example_manager_of)
  obtain w' where run: "Runtime_Run example_runtime ''app'' example_bundle [] True False ?w = (Ok 0, w')"
    by (rule foreground_run)
  have "winc_before example_flags ?w = (Ok example_runtime, ?w)"
    by (simp add: before_defs example_flags_def emptyLog_def annotate_def attempt_def bind_def example_runtime_def
        zero_RuntimeConfig_def)
  then have main: "winc_main ''winc'' example_flags (Run example_bundle False []) [''app''] ?w = (Ok 0, w')"
    using run by (simp add: winc_main_def winc_command_def runCommand_def checkArgs_def args_error_def attempt_def bind_def)
  have path: "[] \<noteq> state_path example_manager" "wf_log example_flags \<noteq> state_path example_manager"
    by (simp_all add: example_flags_def) code_simp+
  show ?thesis
    using winc_run_exit [of example_flags "''app''" ?w None "[]"] main path run_world_tracks unfolding m by fastforce
qed

end
