(* ===== verification/Winc_Footprint.thy ===== *)
theory Winc_Footprint
  imports Cmd_Winc
begin

text \<open>
  The footprint of winc: which files a command may write or remove, over every path through
  cmd/winc and runtime, with failures and panics. The names of sidecar containers come from
  the host compute service, so they are part of it. Paths are compared as texts.
\<close>

section \<open>A file that is out of reach\<close>

definition pid_file :: "command \<Rightarrow> string" where
  "pid_file cmd = (case cmd of Run _ _ pf \<Rightarrow> pf | Start pf \<Rightarrow> pf | Exec flags \<Rightarrow> ef_pidFile flags | _ \<Rightarrow> [])"

text \<open>The directory and the record of a container.\<close>

definition spares :: "string \<Rightarrow> string \<Rightarrow> string \<Rightarrow> bool" where
  "spares p root i \<longleftrightarrow> \<not> under (stateDir (manager_of root i)) p \<and> p \<noteq> state_path (manager_of root i)"

text \<open>The containers that the host compute service may report as owned by another one.\<close>

definition sidecar :: "env \<Rightarrow> string \<Rightarrow> string \<Rightarrow> bool" where
  "sidecar e owner i \<longleftrightarrow> (\<exists>h cs c. o_GetContainers (e_hcs e) h \<lparr>q_IDs = [], q_Owners = [owner]\<rparr> = Inr cs
     \<and> c \<in> set cs \<and> cp_ID c = i)"

abbreviation (input) at_path :: "string \<Rightarrow> world \<Rightarrow> string option" where
  "at_path p \<equiv> (\<lambda>w. files w p)"

lemma at_path_files: "frame files m \<Longrightarrow> frame (at_path p) m"
  by (simp add: frame_def)

lemma at_path_log: "at_path p (log_event ev w) = at_path p w"
  by simp

lemma at_path_WriteFile: "p \<noteq> q \<Longrightarrow> frame (at_path p) (WriteFile q c)"
  by (simp add: frame_def) (metis WriteFile_other)

lemma at_path_RemoveAll: "\<not> under q p \<Longrightarrow> frame (at_path p) (RemoveAll q)"
  by (simp add: frame_def) (metis RemoveAll_other)

section \<open>The collaborators\<close>

lemma at_path_state:
  assumes "spares p root i"
  shows "frame (at_path p) (si_Initialize (state_iface (manager_of root i)) b)"
    "frame (at_path p) (si_Delete (state_iface (manager_of root i)))"
    "frame (at_path p) (si_SetFailure (state_iface (manager_of root i)))"
    "frame (at_path p) (si_SetSuccess (state_iface (manager_of root i)) proc)"
    "frame (at_path p) (si_State (state_iface (manager_of root i)))"
proof -
  have "frame (at_path p) (WriteFile (state_path (manager_of root i)) c)" for c
    using assms by (simp add: spares_def at_path_WriteFile)
  then have wr: "frame (at_path p) (writeState (manager_of root i) st)" for st
    by (simp add: writeState_def)
  have rm: "frame (at_path p) (RemoveAll (stateDir (manager_of root i)))"
    using assms by (simp add: spares_def at_path_RemoveAll)
  note mk = at_path_files [OF files_MkdirAll]
  show "frame (at_path p) (si_Initialize (state_iface (manager_of root i)) b)"
    "frame (at_path p) (si_Delete (state_iface (manager_of root i)))"
    "frame (at_path p) (si_SetFailure (state_iface (manager_of root i)))"
    "frame (at_path p) (si_SetSuccess (state_iface (manager_of root i)) proc)"
    "frame (at_path p) (si_State (state_iface (manager_of root i)))"
    unfolding state_iface_def StateIface.select_convs State_Initialize_def State_Delete_def SetFailure_def SetSuccess_def Let_def
    by (intro wr rm mk frame_intros at_path_log)+
qed

lemma at_path_mounter:
  assumes "\<And>pid. \<not> under (mountPath pid) p"
  shows "frame (at_path p) (mo_Mount mounter_iface pid vol)" "frame (at_path p) (mo_Unmount mounter_iface pid)"
proof -
  note rm = at_path_RemoveAll [OF assms]
  show "frame (at_path p) (mo_Mount mounter_iface pid vol)"
    unfolding mounter_iface_def MounterIface.select_convs by (rule at_path_files [OF files_Mount])
  show "frame (at_path p) (mo_Unmount mounter_iface pid)"
    unfolding mounter_iface_def MounterIface.select_convs Mounter_Unmount_def by (intro rm frame_intros at_path_log)
qed

lemma at_path_WritePIDFile: "p \<noteq> pf \<Longrightarrow> frame (at_path p) (WritePIDFile proc pf)"
  unfolding WritePIDFile_def by (intro frame_intros at_path_WriteFile)

section \<open>The commands\<close>

lemma wired [simp]:
  "rt_mounter (winc_runtime root cs config) = mounter_iface" "rt_hcsQuery (winc_runtime root cs config) = GetContainers"
  "rt_processWrapper (winc_runtime root cs config) = wrapper_iface"
  "rt_containerFactory (winc_runtime root cs config) i = container_iface \<lparr>cm_id = i\<rparr>"
  "sm_for (winc_runtime root cs config) i = state_iface (manager_of root i)"
  by (simp_all add: winc_runtime_def container_factory_def sm_for_def state_factory_def manager_of_def)

text \<open>
  A part \<open>f\<close> of the world that none of the collaborators changes when they work on the
  container \<open>i\<close>: a file out of reach, or the environment.
\<close>

definition inert :: "(world \<Rightarrow> 'a) \<Rightarrow> string \<Rightarrow> string \<Rightarrow> bool" where
  "inert f root i \<longleftrightarrow> (\<forall>ev w. f (log_event ev w) = f w)
     \<and> (\<forall>b proc. frame f (si_Initialize (state_iface (manager_of root i)) b)
          \<and> frame f (si_Delete (state_iface (manager_of root i)))
          \<and> frame f (si_SetFailure (state_iface (manager_of root i)))
          \<and> frame f (si_SetSuccess (state_iface (manager_of root i)) proc))
     \<and> (\<forall>pid vol. frame f (mo_Mount mounter_iface pid vol) \<and> frame f (mo_Unmount mounter_iface pid))"

lemma frame_collect: "frame f m \<Longrightarrow> frame f (collect errs m)"
  unfolding collect_def by (intro frame_intros)

lemma frame_container_iface:
  assumes "\<And>ev w. f (log_event ev w) = f w"
  shows "frame f (ci_Spec (container_iface m) b)" "frame f (ci_Create (container_iface m) spec cred)"
    "frame f (ci_Exec (container_iface m) ps io)" "frame f (ci_Stats (container_iface m))"
    "frame f (ci_Delete (container_iface m) force)" "frame f (wr_AttachIO wrapper_iface proc b0)"
    "frame f (wr_SetInterrupt wrapper_iface proc)"
    "frame f (si_State (state_iface sm))"
  unfolding container_iface_def ContainerIface.select_convs wrapper_iface_def WrapperIface.select_convs
    state_iface_def StateIface.select_convs
  by (intro frame_intros assms)+

lemma inertD:
  assumes "inert f root i"
  shows "\<And>ev w. f (log_event ev w) = f w"
    "frame f (si_Initialize (state_iface (manager_of root i)) b)" "frame f (si_Delete (state_iface (manager_of root i)))"
    "frame f (si_SetFailure (state_iface (manager_of root i)))" "frame f (si_SetSuccess (state_iface (manager_of root i)) proc)"
    "frame f (mo_Mount mounter_iface pid vol)" "frame f (mo_Unmount mounter_iface pid)"
  using assms by (simp_all add: inert_def)

lemma inert_frames:
  assumes "inert f root i"
  shows "frame f (createContainer (winc_runtime root cs config) (container_iface m) (state_iface (manager_of root i)) b)"
    "frame f (runtime_deleteContainer (winc_runtime root cs config) (container_iface m) (state_iface (manager_of root i)) force)"
    "frame f (startProcess (winc_runtime root cs config) (container_iface m) (state_iface (manager_of root i)) spec detach)"
proof -
  note log = inertD(1) [OF assms]
  note parts = inertD(2-) [OF assms] frame_container_iface [OF log] frame_collect frame_credentials
  show "frame f (createContainer (winc_runtime root cs config) (container_iface m) (state_iface (manager_of root i)) b)"
    unfolding createContainer_def initialize_or_delete_def by (intro parts frame_intros log)
  show "frame f (runtime_deleteContainer (winc_runtime root cs config) (container_iface m) (state_iface (manager_of root i)) force)"
    unfolding runtime_deleteContainer_def delete_rest_def wired by (intro parts frame_intros log)
  show "frame f (startProcess (winc_runtime root cs config) (container_iface m) (state_iface (manager_of root i)) spec detach)"
    unfolding startProcess_def wired
    by (auto split: error.split container_error.split option.split intro!: parts frame_intros log)
qed

lemma inert_delete_all:
  "list_all (inert f root) ids \<Longrightarrow> frame f (delete_all (winc_runtime root cs config) force ids errs)"
  by (induction ids arbitrary: errs) (auto intro!: frame_intros frame_collect inert_frames)

lemma inert_commands:
  assumes "inert f root i"
  shows "frame f (Runtime_Create (winc_runtime root cs config) i b)"
    "frame f (Runtime_Events (winc_runtime root cs config) i out0 stats)"
    "frame f (Runtime_State (winc_runtime root cs config) i out0)"
    "(\<And>p. frame f (WritePIDFile p pf)) \<Longrightarrow> frame f (Runtime_Exec (winc_runtime root cs config) i pc pf ov io detach)"
    "(\<And>p. frame f (WritePIDFile p pf)) \<Longrightarrow> frame f (Runtime_Run (winc_runtime root cs config) i b pf io detach)"
    "(\<And>p. frame f (WritePIDFile p pf)) \<Longrightarrow> frame f (Runtime_Start (winc_runtime root cs config) i pf)"
proof -
  note log = inertD(1) [OF assms]
  note parts = inertD(2-) [OF assms] frame_container_iface [OF log] inert_frames [OF assms]
  have pid: "wr_WritePIDFile wrapper_iface = WritePIDFile"
    by (simp add: wrapper_iface_def)
  show "frame f (Runtime_Create (winc_runtime root cs config) i b)"
    unfolding Runtime_Create_def wired by (intro parts frame_intros)
  show "frame f (Runtime_Events (winc_runtime root cs config) i out0 stats)"
    unfolding Runtime_Events_def write_json_def wired by (intro parts frame_intros log)
  show "frame f (Runtime_State (winc_runtime root cs config) i out0)"
    unfolding Runtime_State_def write_json_def wired by (intro parts frame_intros log)
  show "frame f (Runtime_Exec (winc_runtime root cs config) i pc pf ov io detach)" if "\<And>p. frame f (WritePIDFile p pf)"
    unfolding Runtime_Exec_def wired pid by (intro parts frame_intros log that)
  show "frame f (Runtime_Run (winc_runtime root cs config) i b pf io detach)" if "\<And>p. frame f (WritePIDFile p pf)"
    unfolding Runtime_Run_def wired pid Let_def by (intro parts frame_intros log that)
  show "frame f (Runtime_Start (winc_runtime root cs config) i pf)" if "\<And>p. frame f (WritePIDFile p pf)"
    unfolding Runtime_Start_def wired pid Let_def by (intro parts frame_intros log that)
qed

lemma inert_env: "inert w_env root i"
  unfolding inert_def state_iface_def StateIface.select_convs mounter_iface_def MounterIface.select_convs
  by (auto intro!: frame_intros)

definition clear :: "string \<Rightarrow> string \<Rightarrow> string \<Rightarrow> bool" where
  "clear p root i \<longleftrightarrow> spares p root i \<and> (\<forall>pid. \<not> under (mountPath pid) p)"

lemma inert_clear: "clear p root i \<Longrightarrow> inert (at_path p) root i"
  using at_path_state [of p root i] at_path_mounter [of p] by (simp add: clear_def inert_def)

lemma delete_footprint:
  assumes "clear p root i" "\<And>j. sidecar (w_env w) i j \<Longrightarrow> clear p root j"
    and "Runtime_Delete (winc_runtime root cs config) i force w = (r, w')"
  shows "files w' p = files w p"
proof -
  obtain q w1 where q: "GetContainers \<lparr>q_IDs = [], q_Owners = [i]\<rparr> w = (q, w1)"
    by fastforce
  have w1: "files w1 p = files w p"
    using q by (auto simp: GetContainers_def ask_def split: sum.splits)
  show ?thesis
  proof (cases "\<exists>sidecars. q = Ok sidecars")
    case True
    then obtain sidecars where ok: "q = Ok sidecars"
      by blast
    have "clear p root j" if "j \<in> set (map cp_ID sidecars @ [i])" for j
      using that q ok assms(1,2) by (auto simp: GetContainers_def ask_def sidecar_def split: sum.splits)
    then have "frame (at_path p) (delete_all (winc_runtime root cs config) force (map cp_ID sidecars @ [i]) [])"
      by (intro inert_delete_all) (auto simp only: list_all_iff intro: inert_clear)
    then have rest: "frame (at_path p) (bind (delete_all (winc_runtime root cs config) force (map cp_ID sidecars @ [i]) [])
        (\<lambda>allErrors. if length allErrors = 0 then ret () else throw (Errorf (join [CHR 0x0A] allErrors))))"
      by (intro frame_intros)
    show ?thesis
      using assms(3) q ok w1 frameD [OF rest, of w1 r w'] by (simp add: Runtime_Delete_def bind_def [of "GetContainers _"])
  next
    case False
    then show ?thesis
      using assms(3) q w1 by (cases q) (auto simp: Runtime_Delete_def bind_def)
  qed
qed

section \<open>The program\<close>

lemma at_path_checkArgs: "frame (at_path p) (checkArgs program name args n c)"
  unfolding checkArgs_def by (intro frame_intros at_path_log)

lemma env_checkArgs: "frame w_env (checkArgs program name args n c)"
  unfolding checkArgs_def by (intro frame_intros log_event_simps)

lemma other_commands:
  assumes "clear p root (hd args)" "p \<noteq> pid_file cmd" "\<nexists>force. cmd = Delete force"
  shows "frame (at_path p) (winc_command program (winc_runtime root cs config) cmd args)"
  using assms inert_commands [OF inert_clear [OF assms(1)]] at_path_WritePIDFile [of p]
  by (cases cmd)
     (auto simp: winc_command_def createCommand_def runCommand_def startCommand_def stateCommand_def execCommand_def
        eventsCommand_def pid_file_def Let_def intro!: frame_intros at_path_checkArgs)

lemma command_footprint:
  assumes "clear p root (hd args)" "\<And>j. sidecar (w_env w) (hd args) j \<Longrightarrow> clear p root j" "p \<noteq> pid_file cmd"
    and "winc_command program (winc_runtime root cs config) cmd args w = (r, w')"
  shows "files w' p = files w p"
proof (cases "\<exists>force. cmd = Delete force")
  case True
  then obtain force where cmd: "cmd = Delete force"
    by blast
  obtain c w1 where c: "checkArgs program ''delete'' args 1 exactArgs w = (c, w1)"
    by fastforce
  have w1: "files w1 p = files w p" "w_env w1 = w_env w"
    using frameD [OF at_path_checkArgs c] frameD [OF env_checkArgs c] by simp_all
  show ?thesis
  proof (cases "\<exists>u. c = Ok u")
    case True
    obtain d w2 where d: "Runtime_Delete (winc_runtime root cs config) (hd args) force w1 = (d, w2)"
      by fastforce
    have "w' = w2"
      using assms(4) cmd c d True by (cases d) (auto simp: winc_command_def deleteCommand_def bind_def)
    then show ?thesis
      using delete_footprint [OF assms(1) _ d] assms(2) w1 by simp
  next
    case False
    then show ?thesis
      using assms(4) cmd c w1 by (cases c) (auto simp: winc_command_def deleteCommand_def bind_def)
  qed
next
  case False
  then show ?thesis
    using frameD [OF other_commands [OF assms(1,3)] assms(4)] by blast
qed

text \<open>A command has succeeded when winc exits with 0 after it.\<close>

definition succeeded :: "(error, int option) outcome \<Rightarrow> bool" where
  "succeeded r \<longleftrightarrow> r = Ok None \<or> r = Ok (Some 0)"

text \<open>A run of the program: the set-up, then the command, then the report of an error.\<close>

lemma fatal_exit: "fatal err w = (r, w') \<Longrightarrow> r \<noteq> Ok 0"
  by (auto simp: fatal_def bind_def ignore_def write_out_def os_op_def split: prod.splits option.splits)

lemma main_cases:
  assumes "winc_main program flags cmd args w = (r, w')"
  obtains
    (stopped) s w0 where "winc_before flags w = (s, w0)" "r \<noteq> Ok 0" "w' = w0 \<or> (\<exists>err. fatal err w0 = (r, w'))"
  | (ran) config w0 b w1 where
      "winc_before flags w = (Ok (winc_runtime (wf_root flags) (wf_credentialSpec flags) config), w0)"
      "winc_command program (winc_runtime (wf_root flags) (wf_credentialSpec flags) config) cmd args w0 = (b, w1)"
      "r = Ok 0 \<longleftrightarrow> succeeded b" "w' = w1 \<or> (\<exists>err. fatal err w1 = (r, w'))"
proof -
  obtain s w0 where s: "winc_before flags w = (s, w0)"
    by fastforce
  show ?thesis
  proof (cases s)
    case (Ok rt)
    obtain config where rt: "rt = winc_runtime (wf_root flags) (wf_credentialSpec flags) config"
      using winc_before_Ok s Ok by blast
    obtain b w1 where b: "winc_command program rt cmd args w0 = (b, w1)"
      by fastforce
    show ?thesis
    proof (rule ran)
      show "winc_before flags w = (Ok (winc_runtime (wf_root flags) (wf_credentialSpec flags) config), w0)"
        "winc_command program (winc_runtime (wf_root flags) (wf_credentialSpec flags) config) cmd args w0 = (b, w1)"
        using s Ok rt b by simp_all
      show "r = Ok 0 \<longleftrightarrow> succeeded b" "w' = w1 \<or> (\<exists>err. fatal err w1 = (r, w'))"
        using assms s Ok b fatal_exit [of _ w1 r w']
        by (cases b; auto simp: winc_main_def bind_def attempt_def succeeded_def split: option.splits)+
    qed
  next
    case (Err e)
    then show ?thesis
      using assms s fatal_exit [of _ w0 r w'] by (intro stopped [OF s]) (auto simp: winc_main_def bind_def attempt_def)
  next
    case (Panic msg)
    then show ?thesis
      using assms s by (intro stopped [OF s]) (auto simp: winc_main_def bind_def attempt_def)
  qed
qed

lemma main_keeps:
  assumes log: "\<And>ev w. f (log_event ev w) = f w"
    and before: "frame f (winc_before flags)"
    and command: "\<And>config w0 b w1. w_env w0 = w_env w \<Longrightarrow>
          winc_command program (winc_runtime (wf_root flags) (wf_credentialSpec flags) config) cmd args w0 = (b, w1) \<Longrightarrow> f w1 = f w0"
    and main: "winc_main program flags cmd args w = (r, w')"
  shows "f w' = f w"
proof -
  have fatal: "frame f (fatal err)" for err
    unfolding fatal_def by (intro frame_intros log)
  from main show ?thesis
  proof (cases rule: main_cases)
    case (stopped s w0)
    then show ?thesis
      using frameD [OF before stopped(1)] frameD [OF fatal, of _ w0 r w'] by auto
  next
    case (ran config w0 b w1)
    then show ?thesis
      using frameD [OF before ran(1)] frameD [OF frame_before(2) ran(1)] frameD [OF fatal, of _ w1 r w']
        assms(3) [of w0 config b w1] by auto
  qed
qed

lemma footprint_frame:
  assumes "p \<noteq> wf_log flags" and "p \<noteq> pid_file cmd"
    and "\<And>i. i = hd args \<or> sidecar (w_env w) (hd args) i \<Longrightarrow>
           \<not> under (stateDir (manager_of (wf_root flags) i)) p \<and> p \<noteq> state_path (manager_of (wf_root flags) i)"
    and "\<And>pid. \<not> under (mountPath pid) p"
    and "winc_main program flags cmd args w = (r, w')"
  shows "files w' p = files w p"
proof -
  have clear: "clear p (wf_root flags) i" if "i = hd args \<or> sidecar (w_env w) (hd args) i" for i
    using assms(3,4) that by (auto simp: clear_def spares_def)
  show ?thesis
  proof (rule main_keeps [of "at_path p", OF _ frame_before(1) [OF assms(1)] _ assms(5)])
    fix config w0 b w1
    assume "w_env w0 = w_env w"
      and run: "winc_command program (winc_runtime (wf_root flags) (wf_credentialSpec flags) config) cmd args w0 = (b, w1)"
    then show "files w1 p = files w0 p"
      using clear assms(2) by (intro command_footprint [OF _ _ _ run]) auto
  qed simp
qed

text \<open>
  C19: winc writes and removes nothing but what is its own. Whatever the command and however
  it ends, a file is as it was before unless it is the log file or the pid file of the
  command, lies in the directory below the root that belongs to the container of the command
  or to one of its sidecars, or lies in the mount directory of a process.
\<close>

theorem winc_footprint:
  assumes "p \<noteq> wf_log flags" and "p \<noteq> pid_file cmd"
    and "\<And>i. i = hd args \<or> sidecar (w_env w) (hd args) i \<Longrightarrow>
           \<not> under (stateDir (manager_of (wf_root flags) i)) p \<and> p \<noteq> state_path (manager_of (wf_root flags) i)"
    and "\<And>pid. \<not> under (mountPath pid) p"
    and "winc_main program flags cmd args w = (r, w')"
  shows "files w' p = files w p"
  using assms by (rule footprint_frame)

section \<open>Below the root\<close>

text \<open>
  A root directory on a drive and names without separators: then all that winc keeps of its
  containers lies below the root.
\<close>

definition tidy_root :: "string \<Rightarrow> bool" where
  "tidy_root root \<longleftrightarrow> (\<exists>d es. root = rooted_path d es \<and> list_all plain es \<and> es \<noteq> [] \<and> d \<noteq> CHR ''/''
     \<and> last root \<noteq> CHR '':'')"

definition tidy_id :: "string \<Rightarrow> bool" where
  "tidy_id i \<longleftrightarrow> plain i \<and> last i \<noteq> CHR '':''"

lemma under_nth: "under d p \<Longrightarrow> k < length d \<Longrightarrow> p ! k = d ! k"
proof (cases "p = d")
  case False
  assume "under d p" "k < length d"
  with False have "take (Suc (length d)) p ! k = (d @ [CHR 0x5C]) ! k"
    by (simp add: under_def)
  then show ?thesis
    using \<open>k < length d\<close> by (simp add: nth_append)
qed simp

lemma under_longer: "under (d @ CHR 0x5C # e) p \<Longrightarrow> under d p"
proof -
  assume a: "under (d @ CHR 0x5C # e) p"
  then have "take (Suc (length d)) p = d @ [CHR 0x5C]"
  proof (cases "p = d @ CHR 0x5C # e")
    case False
    with a have "take (Suc (length d)) (take (Suc (length (d @ CHR 0x5C # e))) p) = d @ [CHR 0x5C]"
      by (simp add: under_def)
    then show ?thesis
      by (simp add: min_def)
  qed simp
  then show ?thesis
    by (simp add: under_def)
qed

lemma tidy_paths:
  assumes "tidy_root root" "tidy_id i"
  shows "stateDir (manager_of root i) = root @ CHR 0x5C # i"
    "state_path (manager_of root i) = root @ CHR 0x5C # i @ CHR 0x5C # stateFile"
proof -
  obtain d es where es: "root = rooted_path d es" "list_all plain es" "es \<noteq> []" "d \<noteq> CHR ''/''" "last (rooted_path d es) \<noteq> CHR '':''"
    using assms(1) unfolding tidy_root_def by blast
  have dir: "stateDir (manager_of root i) = rooted_path d (es @ [i])"
    using es assms(2) by (simp add: stateDir_def manager_of_def tidy_id_def)
  then show "stateDir (manager_of root i) = root @ CHR 0x5C # i"
    using es by (simp add: rooted_path_append)
  have "plain stateFile" "last (rooted_path d (es @ [i])) \<noteq> CHR '':''"
    using assms(2) by (simp_all add: plain_def stateFile_def is_sep_def rooted_path_append tidy_id_def)
  then have "state_path (manager_of root i) = rooted_path d ((es @ [i]) @ [stateFile])"
    unfolding state_path_def dir using es assms(2) by (intro Join_rooted) (simp_all add: tidy_id_def)
  then show "state_path (manager_of root i) = root @ CHR 0x5C # i @ CHR 0x5C # stateFile"
    unfolding rooted_path_append using es by simp
qed

lemma tidy_spares:
  assumes "tidy_root root" "tidy_id i" "\<not> under root p"
  shows "spares p root i"
  using assms(3) under_longer [of root i p] under_longer [of root "i @ CHR 0x5C # stateFile" p]
  by (auto simp: spares_def tidy_paths [OF assms(1,2)]) (simp add: under_def)

lemma example_tidy: "tidy_root (wf_root example_flags)" "tidy_id ''app''"
  unfolding tidy_root_def tidy_id_def example_flags_def example_manager_def
  by (auto simp: plain_def is_sep_def rooted_path_def intro!: exI [of _ "CHR ''C''"] exI [of _ "[''winc'']"])

lemma run_world_sidecars: "sidecar (w_env (run_world quiet_os)) owner i \<Longrightarrow> i = ''app''"
  by (auto simp: sidecar_def run_world_def run_env_simps split: if_splits)

text \<open>The configuration of the bundle, after a container was run in the foreground.\<close>

theorem winc_footprint_witness:
  "\<exists>r w'. winc_main ''winc'' example_flags (Run example_bundle False []) [''app''] (run_world quiet_os) = (r, w')
     \<and> files w' (Join [example_bundle, SpecConfig]) = Some []"
proof -
  let ?p = "Join [example_bundle, SpecConfig]" and ?w = "run_world quiet_os"
  obtain r w' where run: "winc_main ''winc'' example_flags (Run example_bundle False []) [''app''] ?w = (r, w')"
    by fastforce
  have apart: "\<not> under (wf_root example_flags) ?p" "?p \<noteq> []" "?p ! 0 = CHR ''C''"
    by (simp_all add: example_flags_def) code_simp+
  have "\<not> under (stateDir (manager_of (wf_root example_flags) i)) ?p \<and> ?p \<noteq> state_path (manager_of (wf_root example_flags) i)"
    if "i = hd [''app''] \<or> sidecar (w_env ?w) (hd [''app'']) i" for i
    using tidy_spares [OF example_tidy apart(1)] that run_world_sidecars [of "''app''" i] by (auto simp: spares_def)
  moreover have "\<not> under (mountPath pid) ?p" for pid
    using under_nth [of "mountPath pid" ?p 0] apart(3) by (auto simp: mountPath_rooted rooted_path_def)
  ultimately have "files w' ?p = files ?w ?p"
    using winc_footprint [OF _ _ _ _ run, of ?p] apart(2) by (simp add: example_flags_def pid_file_def)
  then show ?thesis
    using run by (simp add: run_world_def)
qed

section \<open>Other containers\<close>

lemma env_winc_command: "frame w_env (winc_command program (winc_runtime root cs config) cmd args)"
proof -
  have all: "list_all (inert w_env root) ids" for ids
    by (simp add: list_all_iff inert_env)
  have "frame w_env (Runtime_Delete (winc_runtime root cs config) i force)" for i force
    unfolding Runtime_Delete_def wired by (intro frame_intros inert_delete_all all log_event_simps)
  then show ?thesis
    using inert_commands(1-3) [OF inert_env [of root "hd args"]]
      inert_commands(4-6) [OF inert_env [of root "hd args"] env_mount(3)]
    by (cases cmd)
       (auto simp: winc_command_def createCommand_def deleteCommand_def runCommand_def startCommand_def stateCommand_def
          execCommand_def eventsCommand_def Let_def intro!: frame_intros env_checkArgs)
qed

lemma env_winc_main: "winc_main program flags cmd args w = (r, w') \<Longrightarrow> w_env w' = w_env w"
  by (erule main_keeps [of w_env, OF _ frame_before(2), rotated -1]) (simp_all add: frameD [OF env_winc_command])

lemma first_element:
  assumes "CHR 0x5C \<notin> set i" "CHR 0x5C \<notin> set j" "i @ CHR 0x5C # s = j @ CHR 0x5C # t"
  shows "i = j"
proof -
  have "takeWhile (\<lambda>c. c \<noteq> CHR 0x5C) (k @ CHR 0x5C # u) = k" if "CHR 0x5C \<notin> set k" for k u
    using that by (subst takeWhile_append2) auto
  then show ?thesis
    using assms by metis
qed

lemma under_sibling:
  assumes "CHR 0x5C \<notin> set i" "CHR 0x5C \<notin> set j" "under (d @ CHR 0x5C # i) (d @ CHR 0x5C # j @ CHR 0x5C # e)"
  shows "i = j"
proof (cases "d @ CHR 0x5C # j @ CHR 0x5C # e = d @ CHR 0x5C # i")
  case True
  then show ?thesis
    using assms(1) by auto
next
  case False
  then have "take (Suc (length i)) (j @ CHR 0x5C # e) = i @ [CHR 0x5C]"
    using assms(3) by (simp add: under_def)
  then have "j @ CHR 0x5C # e = i @ CHR 0x5C # drop (Suc (length i)) (j @ CHR 0x5C # e)"
    by (metis append_Cons append_Nil append_assoc append_take_drop_id)
  then show ?thesis
    using first_element [OF assms(1,2)] by metis
qed

lemma tidy_siblings:
  assumes "tidy_root root" "tidy_id i" "tidy_id j" "i \<noteq> j"
  shows "spares (state_path (manager_of root j)) root i"
  using assms(4) under_sibling [of i j root stateFile] first_element [of i j stateFile stateFile]
    plain_no_bs(1) [of i] plain_no_bs(1) [of j] assms(2,3)
  by (auto simp: spares_def tidy_paths [OF assms(1,2)] tidy_paths [OF assms(1,3)] tidy_id_def)

text \<open>
  C18: containers are isolated from each other. Whatever winc does for one container, and
  however it ends, the record of another container is in the phase it was in before, unless
  the host reports the other container as a sidecar of it.
\<close>

theorem containers_isolated:
  assumes "tracks (manager_of (wf_root flags) j) w ph" and "j \<noteq> hd args" and "\<not> sidecar (w_env w) (hd args) j"
    and "tidy_root (wf_root flags)" and "tidy_id j" and "tidy_id (hd args)" and "\<And>i. sidecar (w_env w) (hd args) i \<Longrightarrow> tidy_id i"
    and "wf_log flags \<noteq> state_path (manager_of (wf_root flags) j)"
    and "pid_file cmd \<noteq> state_path (manager_of (wf_root flags) j)"
    and "winc_main program flags cmd args w = (r, w')"
  shows "tracks (manager_of (wf_root flags) j) w' ph"
proof -
  let ?p = "state_path (manager_of (wf_root flags) j)"
  have "\<not> under (stateDir (manager_of (wf_root flags) i)) ?p \<and> ?p \<noteq> state_path (manager_of (wf_root flags) i)"
    if "i = hd args \<or> sidecar (w_env w) (hd args) i" for i
    using tidy_siblings [OF assms(4) _ assms(5), of i] assms(2,3,6,7) that by (auto simp: spares_def)
  moreover have "\<not> under (mountPath pid) ?p" for pid
    using assms(1) by (simp add: tracks_def apart_def)
  ultimately have "files w' ?p = files w ?p"
    using footprint_frame [OF _ _ _ _ assms(10), of ?p] assms(8,9) by metis
  then show ?thesis
    using assms(1) env_winc_main [OF assms(10)] by (cases ph) (simp_all add: tracks_def follows_def recorded_def)
qed

definition listing_env :: env where
  "listing_env = quiet_env\<lparr>e_hcs := quiet_hcs\<lparr>o_GetContainers :=
     (\<lambda>_ q. Inr (if q_IDs q = [''app''] then [\<lparr>cp_ID = ''app'', cp_Stopped = False\<rparr>] else []))\<rparr>\<rparr>"

text \<open>A container ``app'' was created and is listed; another one is deleted.\<close>

theorem containers_isolated_witness:
  "\<exists>r w'. winc_main ''winc'' example_flags (Delete True) [''web''] (created_world\<lparr>w_env := listing_env\<rparr>) = (r, w')
     \<and> tracks example_manager w' (Some (Created ''b''))"
proof -
  let ?w = "created_world\<lparr>w_env := listing_env\<rparr>" and ?root = "wf_root example_flags"
  obtain r w' where run: "winc_main ''winc'' example_flags (Delete True) [''web''] ?w = (r, w')"
    by fastforce
  have m: "manager_of ?root ''app'' = example_manager"
    by (simp add: example_flags_def example_manager_of)
  have env: "honest_pids listing_env" "os_calm listing_env" "honest_times listing_env"
    by (auto simp: honest_pids_def listing_env_def os_calm_def honest_times_def quiet_defs zero_Filetime_def int64_def)
  have "recorded example_manager ?w = recorded example_manager created_world"
    by (simp add: recorded_def)
  then have tr: "tracks example_manager ?w (Some (Created ''b''))"
    using env created_world_recorded by (simp add: example_tracks follows_def phase_of_def zero_State_def stateValid_def)
  have "\<not> sidecar (w_env ?w) ''web'' i" for i
    by (auto simp: sidecar_def listing_env_def)
  moreover have "tidy_id ''web''"
    by (simp add: tidy_id_def plain_def is_sep_def)
  moreover have "[] \<noteq> state_path example_manager"
    by code_simp
  moreover have "wf_log example_flags = []"
    by (simp add: example_flags_def)
  ultimately show ?thesis
    using containers_isolated [OF _ _ _ example_tidy(1,2) _ _ _ _ run, of "Some (Created ''b'')", unfolded m] tr run
    by (simp add: pid_file_def)
qed

end
