(* ===== verification/Winc_System.thy ===== *)
theory Winc_System
  imports Network_Footprint Winc_Footprint
begin

text \<open>
  The host as its operator sees it: the phase of every container and the owner of every
  port. A specification says which of them one invocation of winc or winc-network may change
  and how; the two programs refine it, over any sequence of invocations, with every way they
  can end.
\<close>

section \<open>What a command may make of a container\<close>

text \<open>
  The phase of the container before and after a command that succeeded (\<open>ok\<close>) or not;
  \<open>None\<close> stands for a container without a record. A program is started only in a container
  that was created; a run in the foreground that succeeds leaves nothing; with force, a
  container that the host does not know is not deleted, and that counts as success.
\<close>

definition in_bundle :: "string \<Rightarrow> phase option \<Rightarrow> bool" where
  "in_bundle b ph \<longleftrightarrow> (case ph of Some q \<Rightarrow> phase_bundle q = b | None \<Rightarrow> False)"

definition started_in :: "string \<Rightarrow> phase option \<Rightarrow> bool" where
  "started_in b ph \<longleftrightarrow> (case ph of Some (Started b' pid t) \<Rightarrow> b' = b | _ \<Rightarrow> False)"

definition created_in :: "phase option \<Rightarrow> string option" where
  "created_in ph = (case ph of Some (Created b) \<Rightarrow> Some b | _ \<Rightarrow> None)"

fun allowed :: "command \<Rightarrow> bool \<Rightarrow> phase option \<Rightarrow> phase option \<Rightarrow> bool" where
  "allowed (Create b) ok ph ph' \<longleftrightarrow> ph' = (if ok then Some (Created b) else ph)"
| "allowed (Delete force) ok ph ph' \<longleftrightarrow> ph' = None \<or> ph' = ph \<and> (ok \<longrightarrow> force)"
| "allowed (Run b detach pf) ok ph ph' \<longleftrightarrow>
     (if ok then if detach then started_in b ph' else ph' = None
      else ph' = ph \<or> in_bundle b ph' \<or> \<not> detach \<and> ph' = None)"
| "allowed (Start pf) ok ph ph' \<longleftrightarrow> (case created_in ph of
       Some b \<Rightarrow> if ok then started_in b ph' else in_bundle b ph'
     | None \<Rightarrow> ph' = ph \<and> \<not> ok)"
| "allowed _ ok ph ph' \<longleftrightarrow> ph' = ph"

lemma phase_simps:
  "in_bundle b (Some q) \<longleftrightarrow> phase_bundle q = b" "started_in b (Some (Started b' pid t)) \<longleftrightarrow> b' = b"
  "created_in (Some (Created b)) = Some b"
  by (simp_all add: in_bundle_def started_in_def created_in_def)

lemma started_in_bundle: "started_in b ph \<Longrightarrow> in_bundle b ph"
  by (auto simp: started_in_def in_bundle_def split: option.splits phase.splits)

lemma allowed_stay: "allowed cmd False ph ph"
  by (cases cmd) (auto simp: created_in_def in_bundle_def split: option.splits phase.splits)

lemma allowed_weaken:
  assumes "allowed cmd ok ph ph'" "ok' \<Longrightarrow> ok" "\<And>b. cmd \<noteq> Create b"
  shows "allowed cmd ok' ph ph'"
  using assms started_in_bundle by (cases cmd) (auto split: if_splits option.splits)

context runtime_parts
begin

lemma preserves_tracks: "frame w_env m \<Longrightarrow> frame files m \<Longrightarrow> preserves (\<lambda>w. tracks w ph) m"
  by (rule preservesI) (rule tracks_keep)

lemma preserves_either: "(\<And>ph. preserves (\<lambda>w. tracks w ph) m) \<Longrightarrow> preserves (\<lambda>w. tracks w ph \<or> tracks w ph') m"
  unfolding preserves_def by blast

lemma Exec_tracks:
  assumes "pf \<noteq> record_path"
  shows "preserves (\<lambda>w. tracks w ph) (Runtime_Exec rt i pc pf ov io detach)"
proof -
  have pid: "preserves (\<lambda>w. tracks w ph) (wr_WritePIDFile (rt_processWrapper rt) p pf)" for p
    by (rule preservesI) (rule pid_file_law [OF _ assms])
  show ?thesis
    unfolding Runtime_Exec_def wiring
    by (intro preserves_intros pid preserves_tracks exec_frame attach_frame interrupt_frame frame_intros log_event_simps)
qed

lemma delete_phase:
  assumes "no_panic (si_State sm)" "tracks w ph" "runtime_deleteContainer rt cm sm force w = (r, w')"
  shows "\<exists>ph'. tracks w' ph' \<and> allowed (Delete force) (r = Ok ()) ph ph'"
  using delete_tracks [OF assms(2,3,1)] tracks_keep [OF assms(2) status_frame] by auto

lemma preserves_delete:
  assumes "no_panic (si_State sm)"
  shows "preserves (\<lambda>w. tracks w ph \<or> tracks w None) (runtime_deleteContainer rt cm sm force)"
proof (rule preservesI)
  fix w r w'
  assume "tracks w ph \<or> tracks w None" "runtime_deleteContainer rt cm sm force w = (r, w')"
  then show "tracks w' ph \<or> tracks w' None"
    using delete_phase [OF assms, of w ph force r w'] delete_phase [OF assms, of w None force r w'] by auto
qed

text \<open>What \<open>Run\<close> does once the program runs.\<close>

lemma Run_rest_tracks:
  fixes p pf io detach
  defines "rest \<equiv> deferring (Process_Close p)
       (bind (wr_WritePIDFile (rt_processWrapper rt) p pf) (\<lambda>_.
          if \<not> detach then
            bind (wr_SetInterrupt (rt_processWrapper rt) p) (\<lambda>_.
            bind (attempt (wr_AttachIO (rt_processWrapper rt) p io)) (\<lambda>attached.
            bind (attempt (runtime_deleteContainer rt cm sm False)) (\<lambda>deleted.
              case (attached, deleted) of
                (Inl attachErr, _) \<Rightarrow> throw attachErr
              | (Inr exitCode, Inl deleteErr) \<Rightarrow> throw deleteErr
              | (Inr exitCode, Inr _) \<Rightarrow> ret exitCode)))
          else ret 0))"
  assumes "pf \<noteq> record_path" "no_panic (si_State sm)" "tracks w ph" "rest w = (r, w')"
  shows "tracks w' ph \<or> \<not> detach \<and> tracks w' None"
proof -
  have pid: "preserves (\<lambda>w. tracks w ph) (wr_WritePIDFile (rt_processWrapper rt) p pf)" for ph
    by (rule preservesI) (rule pid_file_law [OF _ assms(2)])
  show ?thesis
  proof (cases detach)
    case True
    have "preserves (\<lambda>w. tracks w ph) rest"
      unfolding rest_def using True by (simp, intro preserves_intros pid preserves_tracks frame_intros log_event_simps)
    then show ?thesis
      using preservesD [of "\<lambda>w. tracks w ph" rest w r w'] assms(4,5) by blast
  next
    case False
    have "preserves (\<lambda>w. tracks w ph \<or> tracks w None) rest"
      unfolding rest_def
      by (intro preserves_intros preserves_delete [OF assms(3)] preserves_either [OF pid]
        preserves_either [OF preserves_tracks] attach_frame interrupt_frame frame_intros log_event_simps)
    then show ?thesis
      using preservesD [of "\<lambda>w. tracks w ph \<or> tracks w None" rest w r w'] assms(4,5) False by blast
  qed
qed

lemma Run_end:
  assumes "pf \<noteq> record_path" "no_panic (si_State sm)" "tracks w ph"
    and "tracks w' (Some (Started b pid t)) \<or> \<not> detach \<and> tracks w' None"
    and "Runtime_Run rt i b pf io detach w = (r, w')"
  shows "\<exists>ph'. tracks w' ph' \<and> allowed (Run b detach pf) (\<exists>c. r = Ok c) ph ph'"
proof (cases "\<not> detach \<and> (\<exists>c. r = Ok c)")
  case True
  then have "tracks w' None"
    using Run_tracks [OF assms(3,1,2)] assms(5) by auto
  then show ?thesis
    using True by auto
next
  case False
  have "allowed (Run b detach pf) (\<exists>c. r = Ok c) ph (Some (Started b pid t))"
    using False by (auto simp: phase_simps)
  moreover have "allowed (Run b detach pf) (\<exists>c. r = Ok c) ph None" if "\<not> detach"
    using False that by simp
  ultimately show ?thesis
    using assms(4) by blast
qed

lemma Run_phase:
  assumes "pf \<noteq> record_path" "no_panic (si_State sm)" "tracks w ph" "Runtime_Run rt i b pf io detach w = (r, w')"
  shows "\<exists>ph'. tracks w' ph' \<and> allowed (Run b detach pf) (\<exists>c. r = Ok c) ph ph'"
proof -
  obtain rc w1 where create: "createContainer rt cm sm b w = (rc, w1)"
    by fastforce
  note t1 = createContainer_tracks [OF assms(3) create]
  show ?thesis
  proof (cases "\<exists>spec. rc = Ok spec")
    case False
    then have "w' = w1" "\<nexists>c. r = Ok c"
      using assms(4) create wiring by (cases rc; auto simp: Runtime_Run_def Let_def bind_def)+
    then show ?thesis
      using t1 False by auto
  next
    case True
    then obtain spec where spec: "rc = Ok spec"
      by blast
    obtain rs w2 where start: "startProcess rt cm sm spec detach w1 = (rs, w2)"
      by fastforce
    have s: "(\<exists>p t. rs = Ok p \<and> tracks w2 (Some (Started b (p_Pid p) t)))
        \<or> (\<forall>p. rs \<noteq> Ok p) \<and> (\<exists>q. tracks w2 (Some q) \<and> phase_bundle q = b)"
      using startProcess_tracks [OF wiring(1) _ start, of b] t1 spec by simp
    show ?thesis
    proof (cases "\<exists>p. rs = Ok p")
      case False
      then have "w' = w2" "\<nexists>c. r = Ok c"
        using assms(4) create spec start wiring by (cases rs; auto simp: Runtime_Run_def Let_def bind_def)+
      then show ?thesis
        using s False by (auto simp: in_bundle_def split: option.splits)
    next
      case True
      then obtain p t where p: "rs = Ok p" "tracks w2 (Some (Started b (p_Pid p) t))"
        using s by blast
      then show ?thesis
        using assms(4) create spec start
        by (intro Run_end [OF assms(1-3) _ assms(4)] Run_rest_tracks [where p = p and io = io and r = r, OF assms(1,2)])
           (simp_all add: Runtime_Run_def Let_def bind_Ok wiring)
    qed
  qed
qed

lemma Start_phase:
  assumes "tracks w ph" "pf \<noteq> record_path" "Runtime_Start rt i pf w = (r, w')"
  shows "\<exists>ph'. tracks w' ph' \<and> allowed (Start pf) (\<exists>x. r = Ok x) ph ph'"
proof (cases "\<exists>b. ph = Some (Created b)")
  case True
  then show ?thesis
    using Start_tracks [OF assms] by (auto simp: created_in_def in_bundle_def started_in_def)
next
  case False
  then have "created_in ph = None"
    by (simp add: created_in_def split: option.split phase.split)
  then show ?thesis
    using Start_tracks [OF assms] False by auto
qed

lemma Create_phase:
  assumes "tracks w ph" "Runtime_Create rt i b w = (r, w')"
  shows "\<exists>ph'. tracks w' ph' \<and> allowed (Create b) (\<exists>x. r = Ok x) ph ph'"
proof -
  obtain rc w1 where create: "createContainer rt cm sm b w = (rc, w1)"
    by fastforce
  then have "w' = w1" "r = Ok () \<longleftrightarrow> (\<exists>spec. rc = Ok spec)"
    using assms(2) wiring by (cases rc; auto simp: Runtime_Create_def bind_def)+
  then show ?thesis
    using createContainer_tracks [OF assms(1) create] by (auto split: if_splits)
qed

end

section \<open>All containers at once\<close>

definition all_tracks :: "string \<Rightarrow> (string \<Rightarrow> phase option) \<Rightarrow> world \<Rightarrow> bool" where
  "all_tracks root P w \<longleftrightarrow> (\<forall>j. tidy_id j \<longrightarrow> tracks (manager_of root j) w (P j))"

lemma tracks_same:
  "tracks m w ph \<Longrightarrow> files w' (state_path m) = files w (state_path m) \<Longrightarrow> w_env w' = w_env w \<Longrightarrow> tracks m w' ph"
  by (cases ph) (simp_all add: tracks_def follows_def recorded_def)

lemma all_tracks_same:
  "all_tracks root P w \<Longrightarrow> (\<And>j. tidy_id j \<Longrightarrow> files w' (state_path (manager_of root j)) = files w (state_path (manager_of root j)))
   \<Longrightarrow> w_env w' = w_env w \<Longrightarrow> all_tracks root P w'"
  by (simp add: all_tracks_def) (metis tracks_same)

lemma sibling_clear:
  assumes "tidy_root root" "tidy_id i" "tidy_id j" "i \<noteq> j" "tracks (manager_of root j) w ph"
  shows "clear (state_path (manager_of root j)) root i"
  using tidy_siblings [OF assms(1-4)] assms(5) by (simp add: clear_def tracks_def apart_def)

text \<open>One container moves on and the others stay where they are.\<close>

lemma all_tracks_update:
  assumes "all_tracks root P w" "tracks (manager_of root i) w' ph'" "w_env w' = w_env w"
    and "\<And>j. tidy_id j \<Longrightarrow> j \<noteq> i \<Longrightarrow> files w' (state_path (manager_of root j)) = files w (state_path (manager_of root j))"
  shows "all_tracks root (P(i := ph')) w'"
  using assms tracks_same unfolding all_tracks_def by (metis fun_upd_apply)

lemma frame_others:
  assumes "all_tracks root P w" "tidy_root root" "tidy_id i"
    and "\<And>p. clear p root i \<Longrightarrow> frame (at_path p) m" "m w = (r, w')"
  shows "\<And>j. tidy_id j \<Longrightarrow> j \<noteq> i \<Longrightarrow> files w' (state_path (manager_of root j)) = files w (state_path (manager_of root j))"
  using assms(1) sibling_clear [OF assms(2,3)] frameD [OF assms(4) assms(5)] unfolding all_tracks_def by metis

lemma delete_one:
  assumes all: "all_tracks root P w" and tidy: "tidy_root root" "tidy_id i"
    and run: "runtime_deleteContainer (winc_runtime root cs config) (container_iface \<lparr>cm_id = i\<rparr>)
        (state_iface (manager_of root i)) force w = (r, w')"
  shows "\<exists>ph'. allowed (Delete force) (r = Ok ()) (P i) ph' \<and> all_tracks root (P(i := ph')) w'"
proof -
  have "tracks (manager_of root i) w (P i)"
    using all tidy by (simp add: all_tracks_def)
  then have "\<exists>ph'. allowed (Delete force) (r = Ok ()) (P i) ph' \<and> tracks (manager_of root i) w' ph'"
    using winc.delete_phase [OF _ _ run] by (auto simp: state_iface_def no_panic_state)
  then show ?thesis
    using all_tracks_update [OF all, of i w'] frameD [OF inert_frames(2) [OF inert_env] run]
      frame_others [OF all tidy inert_frames(2) [OF inert_clear] run] by metis
qed

lemma bind_collect:
  assumes "bind (collect errs m) f w = (r, w')"
  shows "\<exists>r1 w1. m w = (r1, w1)
     \<and> (w' = w1 \<and> (\<nexists>x. r = Ok x) \<or> (\<exists>errs'. f errs' w1 = (r, w') \<and> (errs' = [] \<longrightarrow> r1 = Ok () \<and> errs = [])))"
  using assms by (cases "m w"; cases "fst (m w)") (auto simp: collect_def bind_def attempt_def)

lemma delete_all_errors: "delete_all rt force ids errs w = (Ok out, w') \<Longrightarrow> out = [] \<Longrightarrow> errs = []"
proof (induction ids arbitrary: errs w)
  case (Cons i ids)
  have "bind (collect errs (runtime_deleteContainer rt (rt_containerFactory rt i) (sm_for rt i) force)) (delete_all rt force ids) w = (Ok out, w')"
    using Cons.prems(1) by simp
  from bind_collect [OF this] show ?case
    using Cons.IH [OF _ Cons.prems(2)] by blast
qed simp

lemma delete_all_tracks:
  assumes "all_tracks root P w" "tidy_root root" "list_all tidy_id ids"
    and "delete_all (winc_runtime root cs config) force ids errs w = (r, w')"
  shows "\<exists>P'. all_tracks root P' w' \<and> (\<forall>j. P' j = P j \<or> j \<in> set ids \<and> P' j = None)
     \<and> (r = Ok [] \<and> \<not> force \<longrightarrow> (\<forall>j\<in>set ids. P' j = None))"
  using assms
proof (induction ids arbitrary: P w errs)
  case (Cons i ids)
  have "bind (collect errs (runtime_deleteContainer (winc_runtime root cs config) (container_iface \<lparr>cm_id = i\<rparr>)
      (state_iface (manager_of root i)) force)) (delete_all (winc_runtime root cs config) force ids) w = (r, w')"
    using Cons.prems(4) by simp
  from bind_collect [OF this] obtain r1 w1 where one: "runtime_deleteContainer (winc_runtime root cs config) (container_iface \<lparr>cm_id = i\<rparr>)
        (state_iface (manager_of root i)) force w = (r1, w1)"
    and rest: "w' = w1 \<and> (\<nexists>x. r = Ok x) \<or> (\<exists>errs'. delete_all (winc_runtime root cs config) force ids errs' w1 = (r, w')
        \<and> (errs' = [] \<longrightarrow> r1 = Ok () \<and> errs = []))"
    by blast
  obtain ph' where ph': "allowed (Delete force) (r1 = Ok ()) (P i) ph'" "all_tracks root (P(i := ph')) w1"
    using delete_one [OF Cons.prems(1,2) _ one] Cons.prems(3) by auto
  have step: "(P(i := ph')) j = P j \<or> j \<in> set (i # ids) \<and> (P(i := ph')) j = None" for j
    using ph'(1) by auto
  from rest show ?case
  proof (elim disjE exE conjE)
    assume "w' = w1" "\<nexists>x. r = Ok x"
    then have "all_tracks root (P(i := ph')) w'" "r \<noteq> Ok []"
      using ph'(2) by simp_all
    then show ?thesis
      using step by blast
  next
    fix errs' assume run: "delete_all (winc_runtime root cs config) force ids errs' w1 = (r, w')" "errs' = [] \<longrightarrow> r1 = Ok () \<and> errs = []"
    have "list_all tidy_id ids"
      using Cons.prems(3) by simp
    from Cons.IH [OF ph'(2) Cons.prems(2) this run(1)]
    obtain P' where P': "all_tracks root P' w'" "\<forall>j. P' j = (P(i := ph')) j \<or> j \<in> set ids \<and> P' j = None"
        "r = Ok [] \<and> \<not> force \<longrightarrow> (\<forall>j\<in>set ids. P' j = None)"
      by blast
    then have "P' j = P j \<or> j \<in> set (i # ids) \<and> P' j = None" for j
      using step [of j] by (cases "P' j = (P(i := ph')) j") auto
    moreover have "P' i = None" if "r = Ok []" "\<not> force"
    proof -
      have "r1 = Ok ()"
        using run(2) delete_all_errors [of _ force ids errs' w1 "[]" w'] run(1) that(1) by blast
      then have "ph' = None"
        using ph'(1) that(2) by auto
      then show ?thesis
        using P'(2) by (metis fun_upd_same)
    qed
    ultimately show ?thesis
      using P'(1,3) by (metis set_ConsD)
  qed
qed auto

section \<open>One command\<close>

lemma frame_files_checkArgs: "frame files (checkArgs program name args n c)"
  unfolding checkArgs_def by (intro frame_intros log_event_simps)

lemma after_checkArgs:
  assumes "bind (checkArgs program name args n c) (\<lambda>_. bind m (\<lambda>x. ret (g x))) w = (r, w')"
  shows "\<exists>r1 w1. files w1 = files w \<and> w_env w1 = w_env w
    \<and> (w' = w1 \<and> (\<forall>y. r \<noteq> Ok y) \<or> m w1 = (r1, w') \<and> (\<forall>y. r = Ok y \<longleftrightarrow> (\<exists>x. r1 = Ok x \<and> y = g x)))"
proof -
  obtain rc w1 where c: "checkArgs program name args n c w = (rc, w1)"
    by fastforce
  have "files w1 = files w" "w_env w1 = w_env w"
    using frameD [OF frame_files_checkArgs c] frameD [OF env_checkArgs c] by simp_all
  moreover obtain r1 w2 where m: "m w1 = (r1, w2)"
    by fastforce
  moreover have "w' = w1 \<and> (\<forall>y. r \<noteq> Ok y) \<or> w' = w2 \<and> (\<forall>y. r = Ok y \<longleftrightarrow> (\<exists>x. r1 = Ok x \<and> y = g x))"
    using assms c m by (cases rc; cases r1) (auto simp: bind_def)
  ultimately show ?thesis
    by blast
qed

definition is_Delete :: "command \<Rightarrow> bool" where
  "is_Delete cmd = (case cmd of Delete _ \<Rightarrow> True | _ \<Rightarrow> False)"

lemma own_step:
  assumes "tracks m w ph"
    and "bind (checkArgs program name args n c) (\<lambda>_. bind k (\<lambda>x. ret (g x))) w = (r, w')"
    and step: "\<And>w1 r1. tracks m w1 ph \<Longrightarrow> k w1 = (r1, w') \<Longrightarrow>
          \<exists>ph'. tracks m w' ph' \<and> allowed cmd (\<exists>x. r1 = Ok x) ph ph'"
    and "\<And>b x. cmd = Create b \<Longrightarrow> g x = None"
  shows "\<exists>ph'. tracks m w' ph' \<and> allowed cmd (succeeded r) ph ph'"
proof -
  obtain r1 w1 where w1: "files w1 = files w" "w_env w1 = w_env w"
    and run: "w' = w1 \<and> (\<forall>y. r \<noteq> Ok y) \<or> k w1 = (r1, w') \<and> (\<forall>y. r = Ok y \<longleftrightarrow> (\<exists>x. r1 = Ok x \<and> y = g x))"
    using after_checkArgs [OF assms(2)] by (elim exE conjE) (rule that; assumption)
  have t: "tracks m w1 ph"
    using tracks_same [OF assms(1)] w1 by simp
  from run show ?thesis
  proof (elim disjE conjE)
    assume "w' = w1" "\<forall>y. r \<noteq> Ok y"
    then have "\<not> succeeded r" "tracks m w' ph"
      using t by (simp_all add: succeeded_def)
    then show ?thesis
      using allowed_stay [of cmd ph] by metis
  next
    assume run: "k w1 = (r1, w')" and r: "\<forall>y. r = Ok y \<longleftrightarrow> (\<exists>x. r1 = Ok x \<and> y = g x)"
    from step [OF t run] obtain ph' where ph': "tracks m w' ph'" "allowed cmd (\<exists>x. r1 = Ok x) ph ph'"
      by blast
    have ok: "succeeded r \<Longrightarrow> \<exists>x. r1 = Ok x"
      using r by (auto simp: succeeded_def)
    show ?thesis
    proof (cases "\<exists>b. cmd = Create b")
      case True
      then have "(\<exists>x. r1 = Ok x) = succeeded r"
        using ok r assms(4) by (auto simp: succeeded_def)
      then show ?thesis
        using ph' by auto
    next
      case False
      then show ?thesis
        using ph' ok allowed_weaken [of cmd "\<exists>x. r1 = Ok x" ph ph' "succeeded r"] by blast
    qed
  qed
qed

text \<open>Reports change nothing.\<close>

lemma frame_reports:
  shows "frame files (Runtime_State (winc_runtime root cs config) i b)" "frame w_env (Runtime_State (winc_runtime root cs config) i b)"
    "frame files (Runtime_Events (winc_runtime root cs config) i b st)" "frame w_env (Runtime_Events (winc_runtime root cs config) i b st)"
  unfolding Runtime_State_def Runtime_Events_def write_json_def wired
  by (intro frame_intros frame_container_iface log_event_simps)+

text \<open>The container of the command, whatever the command but \<open>delete\<close>.\<close>

lemma own_phase:
  assumes "tracks (manager_of root (hd args)) w ph" "pid_file cmd \<noteq> state_path (manager_of root (hd args))" "\<not> is_Delete cmd"
    and "winc_command program (winc_runtime root cs config) cmd args w = (r, w')"
  shows "\<exists>ph'. tracks (manager_of root (hd args)) w' ph' \<and> allowed cmd (succeeded r) ph ph'"
proof -
  have safe: "no_panic (si_State (state_iface (manager_of root (hd args))))"
    by (simp add: state_iface_def no_panic_state)
  note run = assms(4) [unfolded winc_command_def]
  note pid = assms(2)
  note step = own_step [OF assms(1)]
  show ?thesis
  proof (cases cmd)
    case (Create b)
    show ?thesis
      using run unfolding Create command.case createCommand_def
      by (rule step) (rule winc.Create_phase, assumption+, simp)
  next
    case (Run b detach pf)
    with pid have pf: "pf \<noteq> state_path (manager_of root (hd args))"
      by (simp add: pid_file_def)
    show ?thesis
      using run unfolding Run command.case runCommand_def
      by (rule step) (blast intro: winc.Run_phase [OF pf safe], simp)
  next
    case (Start pf)
    with pid have pf: "pf \<noteq> state_path (manager_of root (hd args))"
      by (simp add: pid_file_def)
    show ?thesis
      using run unfolding Start command.case startCommand_def
      by (rule step) (rule winc.Start_phase [OF _ pf], assumption+, simp)
  next
    case (Exec flags)
    with pid have pf: "ef_pidFile flags \<noteq> state_path (manager_of root (hd args))"
      by (simp add: pid_file_def)
    show ?thesis
      using run unfolding Exec command.case execCommand_def Let_def
      by (rule step) (auto dest: preservesD [OF winc.Exec_tracks [OF pf]])
  next
    case State_of
    show ?thesis
      using run unfolding State_of command.case stateCommand_def
      by (rule step) (auto dest: preservesD [OF winc.preserves_tracks [OF frame_reports(2,1)]])
  next
    case (Events st)
    show ?thesis
      using run unfolding Events command.case eventsCommand_def
      by (rule step) (auto dest: preservesD [OF winc.preserves_tracks [OF frame_reports(4,3)]])
  qed (use assms(3) in \<open>simp add: is_Delete_def\<close>)
qed

text \<open>
  The phases before and after a command for the container \<open>i\<close>: the container itself moves
  as the command allows, its sidecars may be deleted with it, and every other container
  keeps its phase.
\<close>

definition changes :: "env \<Rightarrow> command \<Rightarrow> string \<Rightarrow> bool \<Rightarrow> (string \<Rightarrow> phase option) \<Rightarrow> (string \<Rightarrow> phase option) \<Rightarrow> bool" where
  "changes e cmd i ok P P' \<longleftrightarrow> allowed cmd ok (P i) (P' i)
     \<and> (\<forall>j. j \<noteq> i \<longrightarrow> P' j = P j \<or> is_Delete cmd \<and> sidecar e i j \<and> P' j = None)"

lemma changes_stay: "changes e cmd i False P P"
  by (simp add: changes_def allowed_stay)

text \<open>Names without separators, and a pid file that is none of the records.\<close>

definition proper :: "string \<Rightarrow> env \<Rightarrow> command \<Rightarrow> string \<Rightarrow> bool" where
  "proper root e cmd i \<longleftrightarrow> tidy_id i \<and> (\<forall>j. sidecar e i j \<longrightarrow> tidy_id j)
     \<and> (\<forall>j. tidy_id j \<longrightarrow> pid_file cmd \<noteq> state_path (manager_of root j))"

lemma other_phases:
  assumes "all_tracks root P w" "tidy_root root" "proper root (w_env w) cmd (hd args)" "\<not> is_Delete cmd"
    and run: "winc_command program (winc_runtime root cs config) cmd args w = (r, w')"
  shows "\<exists>P'. all_tracks root P' w' \<and> changes (w_env w) cmd (hd args) (succeeded r) P P'"
proof -
  let ?i = "hd args"
  have i: "tidy_id ?i" and pid: "\<And>j. tidy_id j \<Longrightarrow> pid_file cmd \<noteq> state_path (manager_of root j)"
    using assms(3) by (simp_all add: proper_def)
  have "tracks (manager_of root ?i) w (P ?i)"
    using assms(1) i by (simp add: all_tracks_def)
  from own_phase [OF this pid [OF i] assms(4) run]
  obtain ph' where ph': "tracks (manager_of root ?i) w' ph'" "allowed cmd (succeeded r) (P ?i) ph'"
    by blast
  have "files w' (state_path (manager_of root j)) = files w (state_path (manager_of root j))" if "tidy_id j" "j \<noteq> ?i" for j
  proof -
    have "clear (state_path (manager_of root j)) root ?i"
      using sibling_clear [OF assms(2) i that(1)] that assms(1) by (auto simp: all_tracks_def)
    moreover have "\<nexists>force. cmd = Delete force"
      using assms(4) by (auto simp: is_Delete_def)
    ultimately show ?thesis
      using frameD [OF other_commands run] pid [OF that(1)] by metis
  qed
  then have "all_tracks root (P(?i := ph')) w'"
    using all_tracks_update [OF assms(1) ph'(1) frameD [OF env_winc_command run]] by blast
  then show ?thesis
    using ph'(2) by (auto simp: changes_def intro!: exI [of _ "P(?i := ph')"])
qed

lemma delete_phases:
  assumes "all_tracks root P w" "tidy_root root" "proper root (w_env w) (Delete force) i"
    and "Runtime_Delete (winc_runtime root cs config) i force w = (r, w')"
  shows "\<exists>P'. all_tracks root P' w' \<and> changes (w_env w) (Delete force) i (r = Ok ()) P P'"
proof -
  obtain q w1 where q: "GetContainers \<lparr>q_IDs = [], q_Owners = [i]\<rparr> w = (q, w1)"
    by fastforce
  then have "files w1 = files w" "w_env w1 = w_env w"
    by (auto simp: GetContainers_def ask_def split: sum.splits)
  then have w1: "all_tracks root P w1"
    using all_tracks_same [OF assms(1)] by simp
  show ?thesis
  proof (cases "\<exists>sidecars. q = Ok sidecars")
    case True
    then obtain sidecars where ok: "q = Ok sidecars"
      by blast
    let ?ids = "map cp_ID sidecars @ [i]"
    obtain a w2 where a: "delete_all (winc_runtime root cs config) force ?ids [] w1 = (a, w2)"
      by fastforce
    have side: "sidecar (w_env w) i j" if "j \<in> set (map cp_ID sidecars)" for j
      using that q ok by (auto simp: GetContainers_def ask_def sidecar_def split: sum.splits)
    then have "list_all tidy_id ?ids"
      using assms(3) by (auto simp: list_all_iff proper_def)
    from delete_all_tracks [OF w1 assms(2) this a] obtain P' where P': "all_tracks root P' w2"
        "\<forall>j. P' j = P j \<or> j \<in> set ?ids \<and> P' j = None" "a = Ok [] \<and> \<not> force \<longrightarrow> (\<forall>j\<in>set ?ids. P' j = None)"
      by blast
    have last: "w' = w2" "r = Ok () \<longleftrightarrow> a = Ok []"
      using assms(4) q ok a by (cases a; auto simp: Runtime_Delete_def bind_def split: if_splits)+
    have "changes (w_env w) (Delete force) i (r = Ok ()) P P'"
      using P'(2,3) side unfolding changes_def last(2) by (auto simp: is_Delete_def)
    then show ?thesis
      using P'(1) last(1) by blast
  next
    case False
    then have "w' = w1" "r \<noteq> Ok ()"
      using assms(4) q by (cases q; auto simp: Runtime_Delete_def bind_def)+
    then show ?thesis
      using w1 changes_stay [of _ "Delete force"] by auto
  qed
qed

lemma command_phases:
  assumes "all_tracks root P w" "tidy_root root" "proper root (w_env w) cmd (hd args)"
    and "winc_command program (winc_runtime root cs config) cmd args w = (r, w')"
  shows "\<exists>P'. all_tracks root P' w' \<and> changes (w_env w) cmd (hd args) (succeeded r) P P'"
proof (cases "is_Delete cmd")
  case True
  then obtain force where cmd: "cmd = Delete force"
    by (auto simp: is_Delete_def split: command.splits)
  have "bind (checkArgs program ''delete'' args 1 exactArgs)
      (\<lambda>_. bind (Runtime_Delete (winc_runtime root cs config) (hd args) force) (\<lambda>x. ret None)) w = (r, w')"
    using assms(4) by (simp add: winc_command_def deleteCommand_def cmd)
  from after_checkArgs [OF this] obtain r1 w1 where w1: "files w1 = files w" "w_env w1 = w_env w"
    and run: "w' = w1 \<and> (\<forall>y. r \<noteq> Ok y) \<or> Runtime_Delete (winc_runtime root cs config) (hd args) force w1 = (r1, w')
       \<and> (\<forall>y. r = Ok y \<longleftrightarrow> (\<exists>x. r1 = Ok x \<and> y = None))"
    by (elim exE conjE) (rule that; assumption)
  have all: "all_tracks root P w1"
    using all_tracks_same [OF assms(1)] w1 by simp
  from run show ?thesis
  proof (elim disjE conjE)
    assume "w' = w1" "\<forall>y. r \<noteq> Ok y"
    then show ?thesis
      using all changes_stay [of "w_env w" cmd] by (auto simp: succeeded_def)
  next
    assume run: "Runtime_Delete (winc_runtime root cs config) (hd args) force w1 = (r1, w')"
      and "\<forall>y. r = Ok y \<longleftrightarrow> (\<exists>x. r1 = Ok x \<and> y = None)"
    then have "succeeded r \<longleftrightarrow> r1 = Ok ()"
      by (auto simp: succeeded_def)
    then show ?thesis
      using delete_phases [OF all assms(2) _ run] assms(3) w1(2) cmd by simp
  qed
next
  case False
  then show ?thesis
    using other_phases assms by blast
qed

section \<open>One invocation of winc\<close>

lemma main_phases:
  assumes "all_tracks (wf_root flags) P w" "tidy_root (wf_root flags)" "proper (wf_root flags) (w_env w) cmd (hd args)"
    and "\<And>j. tidy_id j \<Longrightarrow> wf_log flags \<noteq> state_path (manager_of (wf_root flags) j)"
    and "winc_main program flags cmd args w = (r, w')"
  shows "\<exists>P'. all_tracks (wf_root flags) P' w' \<and> changes (w_env w) cmd (hd args) (r = Ok 0) P P'"
proof -
  have fatal: "all_tracks (wf_root flags) Q w'" if "all_tracks (wf_root flags) Q w1" "w' = w1 \<or> (\<exists>err. fatal err w1 = (r, w'))" for Q w1
  proof -
    have "frame files (fatal err)" "frame w_env (fatal err)" for err
      unfolding fatal_def by (intro frame_intros log_event_simps)+
    then have "files w' = files w1 \<and> w_env w' = w_env w1"
      using that(2) by (auto dest: frameD)
    then show ?thesis
      using all_tracks_same [OF that(1), of w'] by simp
  qed
  have before: "all_tracks (wf_root flags) P w0" "w_env w0 = w_env w" if "winc_before flags w = (s, w0)" for s w0
    using all_tracks_same [OF assms(1)] frameD [OF frame_before(1) that] frameD [OF frame_before(2) that] assms(4) by metis+
  from assms(5) show ?thesis
  proof (cases rule: main_cases)
    case (stopped s w0)
    then have "(r = Ok 0) = False"
      by simp
    then show ?thesis
      using fatal [OF before(1) [OF stopped(1)] stopped(3)] changes_stay [of "w_env w" cmd "hd args" P] by metis
  next
    case (ran config w0 b w1)
    have "proper (wf_root flags) (w_env w0) cmd (hd args)"
      using assms(3) before(2) [OF ran(1)] by simp
    from command_phases [OF before(1) [OF ran(1)] assms(2) this ran(2)]
    obtain P' where P': "all_tracks (wf_root flags) P' w1" "changes (w_env w) cmd (hd args) (succeeded b) P P'"
      using before(2) [OF ran(1)] by auto
    then show ?thesis
      using fatal [OF P'(1) ran(4)] unfolding ran(3) by blast
  qed
qed

section \<open>The host\<close>

text \<open>
  What the programs promise together, without files: every container has a phase, every
  port an owner, and an invocation is one atomic step. An invocation is seen from outside
  as the program, its action, the container and whether the exit code was 0.
\<close>

record host =
  phases :: "string \<Rightarrow> phase option"
  leases :: "u16 \<rightharpoonup> string"

datatype invocation =
    Winc command string bool
  | Network string string bool
  | Elsewhere

inductive host_step :: "env \<Rightarrow> invocation \<Rightarrow> host \<Rightarrow> host \<Rightarrow> bool" for e where
  "changes e cmd i ok (phases H) P' \<Longrightarrow> host_step e (Winc cmd i ok) H (H\<lparr>phases := P'\<rparr>)"
| "lease_change action h ok (leases H) L' \<Longrightarrow> host_step e (Network action h ok) H (H\<lparr>leases := L'\<rparr>)"
| "host_step e Elsewhere H H"

text \<open>
  An invocation of one of the programs. The records of winc and the port file are named
  neither as log file nor as pid file, and what happens elsewhere leaves them alone.
\<close>

definition record_file :: "string \<Rightarrow> string \<Rightarrow> bool" where
  "record_file root p \<longleftrightarrow> (\<exists>j. tidy_id j \<and> p = state_path (manager_of root j))"

definition kept :: "string \<Rightarrow> string \<Rightarrow> bool" where
  "kept root p \<longleftrightarrow> record_file root p \<or> p = pa_Locker winc_ports"

inductive invokes :: "string \<Rightarrow> invocation \<Rightarrow> world \<Rightarrow> world \<Rightarrow> bool" for root where
  winc: "winc_main program flags cmd args w = (r, w') \<Longrightarrow> wf_root flags = root \<Longrightarrow>
     tidy_id (hd args) \<Longrightarrow> (\<And>j. sidecar (w_env w) (hd args) j \<Longrightarrow> tidy_id j) \<Longrightarrow>
     \<not> kept root (wf_log flags) \<Longrightarrow> \<not> kept root (pid_file cmd) \<Longrightarrow>
     invokes root (Winc cmd (hd args) (r = Ok 0)) w w'"
| network: "network_main logFile logFormat flags stdin0 w = (r, w') \<Longrightarrow> \<not> kept root logFile \<Longrightarrow>
     invokes root (Network (nf_action flags) (nf_handle flags) (r = Ok 0)) w w'"
| elsewhere: "w_env w' = w_env w \<Longrightarrow> (\<And>p. kept root p \<Longrightarrow> files w' p = files w p) \<Longrightarrow> invokes root Elsewhere w w'"

text \<open>The host a world stands for.\<close>

definition shows_host :: "string \<Rightarrow> world \<Rightarrow> host \<Rightarrow> bool" where
  "shows_host root w H \<longleftrightarrow> all_tracks root (phases H) w \<and> ledger (pa_Locker winc_ports) w (leases H)"

text \<open>The port file is on drive C and the mount directories are below \<open>c:\\proc\<close>.\<close>

lemma ports_not_mounted: "\<not> under (mountPath pid) (pa_Locker winc_ports)"
proof
  assume "under (mountPath pid) (pa_Locker winc_ports)"
  moreover have "3 < length (mountPath pid)" "mountPath pid ! 3 = CHR ''p''"
    by (simp_all add: mountPath_rooted rooted_path_def eval_nat_numeral)
  moreover have "pa_Locker winc_ports ! 3 = CHR ''v''"
    by code_simp
  ultimately show False
    using under_nth [of "mountPath pid" "pa_Locker winc_ports" 3] by simp
qed

lemma winc_ledger:
  assumes "ledger (pa_Locker winc_ports) w L"
    and "tidy_root (wf_root flags)" and "\<not> under (wf_root flags) (pa_Locker winc_ports)"
    and "tidy_id (hd args)" and "\<And>i. sidecar (w_env w) (hd args) i \<Longrightarrow> tidy_id i"
    and "wf_log flags \<noteq> pa_Locker winc_ports" and "pid_file cmd \<noteq> pa_Locker winc_ports"
    and "winc_main program flags cmd args w = (r, w')"
  shows "ledger (pa_Locker winc_ports) w' L"
proof -
  have "\<not> under (stateDir (manager_of (wf_root flags) i)) (pa_Locker winc_ports)
      \<and> pa_Locker winc_ports \<noteq> state_path (manager_of (wf_root flags) i)"
    if "i = hd args \<or> sidecar (w_env w) (hd args) i" for i
    using tidy_spares [OF assms(2) _ assms(3)] assms(4,5) that by (auto simp: spares_def)
  then have "files w' (pa_Locker winc_ports) = files w (pa_Locker winc_ports)"
    using footprint_frame [OF _ _ _ ports_not_mounted assms(8)] assms(6,7) by metis
  then show ?thesis
    using assms(1) by (simp add: ledger_def content_of_def)
qed

lemma network_phases:
  assumes "all_tracks root P w" "tidy_root root" "\<not> under root (pa_Locker winc_ports)" "\<not> kept root logFile"
    and "network_main logFile logFormat flags stdin0 w = (r, w')"
  shows "all_tracks root P w' \<and> w_env w' = w_env w"
proof -
  have view: "view (state_path (manager_of root j)) w' = view (state_path (manager_of root j)) w" if "tidy_id j" for j
  proof -
    let ?p = "state_path (manager_of root j)"
    have "?p \<noteq> logFile" "?p \<noteq> pa_Locker winc_ports"
      using assms(4) that tidy_spares [OF assms(2) that assms(3)] by (auto simp: kept_def record_file_def spares_def)
    moreover have "undisturbed ?p (view ?p w) w"
      by (simp add: undisturbed_def)
    ultimately show ?thesis
      using preservesD [OF undisturbed_main _ assms(5)] by (metis undisturbed_def)
  qed
  then have "w_env w' = w_env w"
    using example_tidy(2) by (auto simp: view_def)
  then show ?thesis
    using all_tracks_same [OF assms(1)] view by (simp add: view_def)
qed

section \<open>The programs refine the host\<close>

lemma all_tracks_calm: "all_tracks root P w \<Longrightarrow> os_calm (w_env w)"
  using example_tidy(2) follows_env by (auto simp: all_tracks_def tracks_def)

lemma invokes_refines:
  assumes "invokes root l w w'" and "tidy_root root" "\<not> under root (pa_Locker winc_ports)" "shows_host root w H"
  shows "w_env w' = w_env w \<and> (\<exists>H'. host_step (w_env w) l H H' \<and> shows_host root w' H')"
proof -
  have all: "all_tracks root (phases H) w" and led: "ledger (pa_Locker winc_ports) w (leases H)"
    using assms(4) by (simp_all add: shows_host_def)
  from assms(1) show ?thesis
  proof cases
    case (winc program flags cmd args r)
    have "proper (wf_root flags) (w_env w) cmd (hd args)"
      using winc(3-7) by (auto simp: proper_def kept_def record_file_def)
    moreover have "wf_log flags \<noteq> state_path (manager_of (wf_root flags) j)" if "tidy_id j" for j
      using winc(3,6) that by (auto simp: kept_def record_file_def)
    ultimately obtain P' where P': "all_tracks root P' w'" "changes (w_env w) cmd (hd args) (r = Ok 0) (phases H) P'"
      using main_phases [OF _ _ _ _ winc(2)] all assms(2) winc(3) by blast
    have "ledger (pa_Locker winc_ports) w' (leases H)"
      using winc_ledger [OF led _ _ winc(4,5) _ _ winc(2)] assms(2,3) winc(3,6,7) by (simp add: kept_def)
    then have "shows_host root w' (H\<lparr>phases := P'\<rparr>)"
      using P'(1) by (simp add: shows_host_def)
    then show ?thesis
      using host_step.intros(1) [OF P'(2)] env_winc_main [OF winc(2)] winc(1) by blast
  next
    case (network logFile logFormat flags stdin0 r)
    have port: "logFile \<noteq> pa_Locker winc_ports"
      using network(3) by (auto simp: kept_def)
    note same = network_phases [OF all assms(2,3) network(3,2)]
    obtain L' where L': "ledger (pa_Locker winc_ports) w' L'" "lease_change (nf_action flags) (nf_handle flags) (r = Ok 0) (leases H) L'"
      using main_leases [OF all_tracks_calm [OF all] led port network(2)] by blast
    then have "shows_host root w' (H\<lparr>leases := L'\<rparr>)"
      using same by (simp add: shows_host_def)
    then show ?thesis
      using host_step.intros(2) [OF L'(2)] same network(1) by blast
  next
    case elsewhere
    have "all_tracks root (phases H) w'"
      using elsewhere(2,3) by (intro all_tracks_same [OF all]) (auto simp: kept_def record_file_def)
    moreover have "port_text w' = port_text w"
      using elsewhere(3) by (simp add: kept_def content_of_def)
    ultimately have "shows_host root w' H"
      using led by (simp add: shows_host_def ledger_def)
    then show ?thesis
      using host_step.intros(3) elsewhere(1,2) by blast
  qed
qed

lemma history_refines:
  assumes "runs (invokes root) ls w w'" "tidy_root root" "\<not> under root (pa_Locker winc_ports)" "shows_host root w H"
  shows "w_env w' = w_env w \<and> (\<exists>H'. runs (host_step (w_env w)) ls H H' \<and> shows_host root w' H')"
  using assms(1,4)
proof (induction arbitrary: H rule: runs.induct)
  case (1 w)
  then show ?case
    by auto
next
  case (2 l w w1 ls w2)
  obtain H1 where H1: "w_env w1 = w_env w" "host_step (w_env w) l H H1" "shows_host root w1 H1"
    using invokes_refines [OF 2(1) assms(2,3) 2(4)] by blast
  from 2(3) [OF H1(3)] show ?case
    using H1 by (auto intro: runs.intros(2))
qed

section \<open>Consequences\<close>

text \<open>Invocations after which the container \<open>i\<close> may be in the phase created again.\<close>

definition remakes :: "string \<Rightarrow> invocation \<Rightarrow> bool" where
  "remakes i l = (case l of
     Winc (Create b) j ok \<Rightarrow> j = i \<and> ok
   | Winc (Run b detach pf) j ok \<Rightarrow> j = i
   | _ \<Rightarrow> False)"

lemma not_created_again:
  assumes "host_step e l H H'" "\<not> remakes i l" "created_in (phases H i) = None"
  shows "created_in (phases H' i) = None"
  using assms(1)
proof cases
  case (1 cmd j ok P')
  have none: "created_in None = None"
    by (simp add: created_in_def)
  show ?thesis
  proof (cases "j = i")
    case True
    then have "allowed cmd ok (phases H i) (P' i)"
      using 1(3) by (simp add: changes_def)
    then show ?thesis
      using assms(2,3) none 1(1,2) True by (cases cmd) (auto simp: remakes_def split: if_splits)
  next
    case False
    then have "P' i = phases H i \<or> P' i = None"
      using 1(3) by (auto simp: changes_def)
    then show ?thesis
      using assms(3) none 1(2) by auto
  qed
qed (use assms(3) in simp_all)

lemma never_created_again:
  "runs (host_step e) ls H H' \<Longrightarrow> \<forall>l\<in>set ls. \<not> remakes i l \<Longrightarrow> created_in (phases H i) = None \<Longrightarrow> created_in (phases H' i) = None"
  by (induction rule: runs.induct) (auto dest: not_created_again)

section \<open>An example host\<close>

text \<open>Nothing is recorded and no port is leased.\<close>

definition idle_host :: host where
  "idle_host = \<lparr>phases = (\<lambda>_. None), leases = Map.empty\<rparr>"

lemma run_world_idle: "shows_host (wf_root example_flags) (run_world quiet_os) idle_host"
proof -
  let ?root = "wf_root example_flags"
  let ?c = "Join [example_bundle, SpecConfig]"
  have root: "?root = rooted_path (CHR ''C'') [''winc'']"
    by (simp add: example_flags_def example_manager_def)
  have tracked: "tracks example_manager (run_world quiet_os) None"
    by (rule run_world_tracks)
  have "tracks (manager_of ?root j) (run_world quiet_os) None" if "tidy_id j" for j
  proof -
    note path = tidy_paths [OF example_tidy(1) that]
    have "well_placed (manager_of ?root j)"
      by (simp add: well_placed_def path under_def)
    moreover have "state_path (manager_of ?root j) ! 0 = CHR ''C''"
      unfolding path unfolding root by (simp add: rooted_path_def)
    then have "apart (manager_of ?root j)"
      using under_nth [of "mountPath _" "state_path (manager_of ?root j)" 0]
      by (auto simp: apart_def mountPath_rooted rooted_path_def)
    moreover have "\<not> under ?root ?c"
      unfolding root by code_simp
    then have "state_path (manager_of ?root j) \<noteq> ?c"
      using tidy_spares [OF example_tidy(1) that, of ?c] by (metis spares_def)
    then have "files (run_world quiet_os) (state_path (manager_of ?root j)) = None"
      by (simp add: run_world_def)
    ultimately show ?thesis
      using tracked by (simp add: tracks_def follows_def)
  qed
  moreover have "pa_Locker winc_ports \<noteq> ?c"
    by code_simp
  then have "ledger (pa_Locker winc_ports) (run_world quiet_os) Map.empty"
    by (simp add: run_world_def ledger_def content_of_def pool_text_def)
  ultimately show ?thesis
    by (simp add: shows_host_def all_tracks_def idle_host_def)
qed

lemma example_outside: "\<not> under (wf_root example_flags) (pa_Locker winc_ports)" "\<not> kept (wf_root example_flags) []"
proof -
  show "\<not> under (wf_root example_flags) (pa_Locker winc_ports)"
    by (simp add: example_flags_def) code_simp
  have "pa_Locker winc_ports \<noteq> []"
    by code_simp
  then show "\<not> kept (wf_root example_flags) []"
    using tidy_paths(2) [OF example_tidy(1)] by (auto simp: kept_def record_file_def)
qed

lemma example_invokes:
  assumes "w_env w = w_env (run_world quiet_os)" "pid_file cmd = []"
    and "winc_main ''winc'' example_flags cmd [''app''] w = (r, w')"
  shows "invokes (wf_root example_flags) (Winc cmd ''app'' (r = Ok 0)) w w'"
proof -
  have "tidy_id j" if "sidecar (w_env w) (hd [''app'']) j" for j
    using that run_world_sidecars [of "''app''" j] assms(1) example_tidy(2) by simp
  then show ?thesis
    using invokes.winc [OF assms(3) refl] example_tidy(2) example_outside(2) assms(2) by (simp add: example_flags_def)
qed

end
