(* ===== verification/Spec2Isabelle.thy ===== *)
theory Spec2Isabelle
  imports Net_Rules Port_Locking Firewall_Applier Winc_Config Process_Io Winc_System
begin

text \<open>
  winc: a verification library for the Windows container runtime of Cloud Foundry.

  \<^bold>\<open>The programs.\<close> The repository builds two command line programs. \<open>winc\<close> (src/cmd/winc,
  src/runtime, src/hcs) creates, starts, inspects and deletes containers through the host
  compute service (hcsshim) and keeps one record \<open>state.json\<close> per container. \<open>winc-network\<close>
  (src/cmd/winc-network, src/network) gives a container its network: an endpoint on the NAT
  network of the host, port mappings whose host ports come from an allocator that all
  invocations share through a locked file, and firewall policies. Both are short-lived
  processes; what they share is on disk and in the Windows services.

  \<^bold>\<open>The world.\<close> A Go function that can fail or has effects is a state-passing computation
  (Go_Prelude): it returns a value, an error value, or a run-time panic, together with the
  world it leaves behind. The world (Winc_World) holds the files and directories, the
  positions in opened files, the history of every call that left the program, and an
  environment that answers those calls. The answers are arbitrary functions of the history:
  hcsshim, HNS, the Win32 procedures, the faults of the file system (with what a failed
  operation leaves behind), the iteration order of maps and the third-party libraries
  (OCI validator, SemVer, CredHub) are parameters of the model, and a theorem that relies on
  a behaviour of them says so as a hypothesis. Interfaces of the source are records of
  operations, as Go interfaces are; the theorems about a client are proved in a locale with
  the laws it needs and reach the model through an interpretation on the managers that
  cmd/winc and cmd/winc-network wire up.

  \<^bold>\<open>The Go library.\<close> Go_Strings (strings, strconv, fmt), Go_Net (net.IP), Go_Maps (range over a
  map in an arbitrary order), Go_Path (path/filepath on Windows), Go_Json (encoding/json:
  printer, reader and their round trip) and Go_Json_Struct (decoding into structs). They
  hold what the programs call, with the round trips the components use.

  \<^bold>\<open>The components.\<close>
  \<^item> Winc_Errors: every error type with its text (hcs/errors.go, network/errors.go,
    runtime/config/errors.go, runtime/container/errors.go, cmd/winc/errors.go), and
    \<open>CleanError\<close>.
  \<^item> Hcs_Client: hcs/client.go and the container and process handles, with the retries and
    the readiness loops.
  \<^item> Net_Rules: network/netrules/rules.go. The conversion of an address range into CIDR
    blocks covers exactly the range, each address once, with the fewest blocks.
  \<^item> Port_Allocator: network/port_allocator and its serializer. Leases are exclusive over any
    interleaving of allocators on one file, an allocation makes progress while a port is
    free, and releasing restores the ledger; a write that fails after the truncation loses
    every lease.
  \<^item> Port_Locking: the same requests as single file operations of any number of processes
    that interleave under the lock. Run alone they are the requests of Port_Allocator; every
    step of an interleaving is labelled with the grant or release it makes, which is a step
    of a ledger that grants only free ports; the file is well-formed whenever nobody has it
    locked, and every request gives the lock back by closing the file.
  \<^item> Net_Interface: network/netinterface and network/mtu. The thread is back in the default
    compartment on every path.
  \<^item> Net_Applier, Firewall_Applier: network/netsh, network/netrules/applier.go,
    network/firewall and network/netrules/firewallapplier: what each rule opens, and that
    clean-up does all of its work.
  \<^item> Network, Endpoint: network/network.go and network/endpoint. When an endpoint is created,
    retried, deleted again; which policies reach HNS; when the NAT network is created.
  \<^item> Cmd_Network: cmd/winc-network. With the wired collaborators, a failed \<open>up\<close> and every
    \<open>down\<close> release the ports of the container; the ports that \<open>up\<close> reports are the ones it has
    recorded; a DNS server that is no IPv4 address panics past the clean-up.
  \<^item> Winc_Config: runtime/config: which bundles and processes are accepted, and what the
    working directory of an accepted process is.
  \<^item> State_Manager: runtime/state and runtime/winsyscall. The record refines a life cycle
    (created, started, failed), stays valid under every sequence of operations, is read back
    as it was written, and the reported status means what it says, a reused pid included.
  \<^item> Container_Manager: runtime/container. The command line splits back into the arguments,
    the mapped directories are those of the bundle, a failed creation is undone.
  \<^item> Mount_Process: runtime/mount and runtime/hcsprocess, as the runtime sees them.
  \<^item> Process_Io: the goroutines of runtime/hcsprocess, one action per atomic step. No
    interleaving loses or reorders output, and \<open>AttachIO\<close> returns once the process ended.
  \<^item> Runtime: runtime/runtime.go. Starting needs a created container and records what came of
    it; deleting a container that the host knows goes on after errors and leaves no record; a
    run in the foreground returns the exit code of the program and leaves nothing behind. A
    stage of a command is connected to its beginning and its end by \<open>leads\<close>: the calls made
    up to the one are followed by those up to the other.
  \<^item> Cmd_Winc: cmd/winc. Usage errors touch nothing; what the exit code means.
  \<^item> Winc_Footprint: the files that a command of winc may change; a command for one container
    leaves the records of the others alone.
  \<^item> Network_Footprint: the files that an invocation of winc-network may change, and what each
    action makes of the leases.
  \<^item> Winc_System: the host as a whole. Every container has a phase and every port an owner;
    an invocation of either program is one step of a specification (\<open>host_step\<close>), which says
    what a command may change when it succeeds and when it does not. One invocation of either
    program is shown to be such a step.
  \<^item> This theory: every history of invocations refines the host; a container is started at
    most once; neither program touches the files of the other.

  \<^bold>\<open>Bounds.\<close> Integers that the source keeps at a width are words (ports, addresses, pids,
  times, statistics); Go's \<open>int\<close> is an integer, with the 64-bit range written out where a
  value is decoded or converted. No definition needs fuel: loops over lists are structural,
  the retry and readiness loops count down the source's own limits (3, 10), the CIDR loop
  and the reading of a command line have termination proofs.

  \<^bold>\<open>Not modelled.\<close> Log output; durations (a timer may fire at any time); names of files that
  differ as texts and denote the same file (case, links); the buffers and unsafe pointers
  handed to Win32 (the values they encode are arguments and answers); the exit code that
  accompanies an error value, which no caller reads; the C code of the firewall DLL, the
  command line parser, and the other vendored packages, which are parameters; the test
  doubles (fakes) and the integration tests. JSON texts are valid UTF-8.
\<close>

section \<open>The two programs together\<close>

text \<open>
  C2: winc and winc-network implement the host. Take any sequence of invocations of the two
  programs on one host, one after the other, in any order and for any containers, each of
  which may succeed, fail or panic, with other activity in between that leaves their files
  alone. Then the phases of the containers and the owners of the ports change in steps that
  the specification allows, one step for each invocation, and the files show the resulting
  host. File operations succeed and process ids fit an integer (\<open>shows_host\<close>); container names
  have no separators and no log or pid file is named like a record (\<open>invokes\<close>); what the
  services answer, and whether they fail, is arbitrary.
\<close>

theorem host_refines:
  assumes "runs (invokes root) ls w w'" and "shows_host root w H"
    and "tidy_root root" and "\<not> under root (pa_Locker winc_ports)"
  shows "\<exists>H'. runs (host_step (w_env w)) ls H H' \<and> shows_host root w' H'"
  using history_refines [OF assms(1,3,4,2)] by blast

theorem host_refines_witness:
  "\<exists>r1 w1 r2 w2 H'. winc_main ''winc'' example_flags (Run example_bundle False []) [''app''] (run_world quiet_os) = (r1, w1)
     \<and> network_main [] ''json'' \<lparr>nf_action = ''up'', nf_configFile = [], nf_handle = ''app''\<rparr> ''{}'' w1 = (r2, w2)
     \<and> runs (host_step (w_env (run_world quiet_os)))
          [Winc (Run example_bundle False []) ''app'' (r1 = Ok 0), Network ''up'' ''app'' (r2 = Ok 0)] idle_host H'
     \<and> shows_host (wf_root example_flags) w2 H'"
proof -
  let ?flags = "\<lparr>nf_action = ''up'', nf_configFile = [], nf_handle = ''app''\<rparr>"
  obtain r1 w1 where r1: "winc_main ''winc'' example_flags (Run example_bundle False []) [''app''] (run_world quiet_os) = (r1, w1)"
    by fastforce
  obtain r2 w2 where r2: "network_main [] ''json'' ?flags ''{}'' w1 = (r2, w2)"
    by fastforce
  have "invokes (wf_root example_flags) (Winc (Run example_bundle False []) ''app'' (r1 = Ok 0)) (run_world quiet_os) w1"
    by (rule example_invokes [OF refl _ r1]) (simp add: pid_file_def)
  moreover have "invokes (wf_root example_flags) (Network ''up'' ''app'' (r2 = Ok 0)) w1 w2"
    using invokes.network [OF r2 example_outside(2)] by simp
  ultimately have "runs (invokes (wf_root example_flags))
      [Winc (Run example_bundle False []) ''app'' (r1 = Ok 0), Network ''up'' ''app'' (r2 = Ok 0)] (run_world quiet_os) w2"
    by (auto simp: runs_Cons)
  then show ?thesis
    using host_refines [OF _ run_world_idle example_tidy(1) example_outside(1)] r1 r2 by blast
qed

text \<open>
  C17: a container is started at most once. While nobody creates or runs a container again,
  and once it is not in the phase created (because it was started, failed, was deleted or
  never existed), every \<open>winc start\<close> for it exits with an error, whatever other commands
  were given to the two programs in between.
\<close>

theorem started_at_most_once:
  assumes "runs (invokes root) ls w w1" and "\<forall>l\<in>set ls. \<not> remakes i l"
    and "shows_host root w H" and "created_in (phases H i) = None"
    and "tidy_root root" and "\<not> under root (pa_Locker winc_ports)"
    and "invokes root (Winc (Start pf) i ok) w1 w2"
  shows "\<not> ok"
proof -
  obtain H1 where H1: "runs (host_step (w_env w)) ls H H1" "shows_host root w1 H1"
    using history_refines [OF assms(1,5,6,3)] by blast
  have "created_in (phases H1 i) = None"
    using never_created_again [OF H1(1) assms(2,4)] .
  moreover obtain H2 where "host_step (w_env w1) (Winc (Start pf) i ok) H1 H2"
    using invokes_refines [OF assms(7,5,6) H1(2)] by blast
  then have "allowed (Start pf) ok (phases H1 i) (phases H2 i)"
    by (cases rule: host_step.cases) (auto simp: changes_def)
  ultimately show ?thesis
    by simp
qed

theorem started_at_most_once_witness:
  "\<exists>r1 w1 r2 w2. network_main [] ''json'' \<lparr>nf_action = ''up'', nf_configFile = [], nf_handle = ''app''\<rparr> ''{}'' (run_world quiet_os) = (r1, w1)
     \<and> winc_main ''winc'' example_flags (Start []) [''app''] w1 = (r2, w2) \<and> r2 \<noteq> Ok 0"
proof -
  let ?flags = "\<lparr>nf_action = ''up'', nf_configFile = [], nf_handle = ''app''\<rparr>"
  obtain r1 w1 where r1: "network_main [] ''json'' ?flags ''{}'' (run_world quiet_os) = (r1, w1)"
    by fastforce
  obtain r2 w2 where r2: "winc_main ''winc'' example_flags (Start []) [''app''] w1 = (r2, w2)"
    by fastforce
  have net: "invokes (wf_root example_flags) (Network ''up'' ''app'' (r1 = Ok 0)) (run_world quiet_os) w1"
    using invokes.network [OF r1 example_outside(2)] by simp
  then have "runs (invokes (wf_root example_flags)) [Network ''up'' ''app'' (r1 = Ok 0)] (run_world quiet_os) w1"
    by (auto simp: runs_Cons)
  moreover have "w_env w1 = w_env (run_world quiet_os)"
    using invokes_refines [OF net example_tidy(1) example_outside(1) run_world_idle] by blast
  then have "invokes (wf_root example_flags) (Winc (Start []) ''app'' (r2 = Ok 0)) w1 w2"
    using example_invokes [OF _ _ r2] by (simp add: pid_file_def)
  ultimately have "\<not> r2 = Ok 0"
    using started_at_most_once [OF _ _ run_world_idle _ example_tidy(1) example_outside(1), of "[Network ''up'' ''app'' (r1 = Ok 0)]" w1 "''app''"]
    by (simp add: remakes_def idle_host_def created_in_def)
  then show ?thesis
    using r1 r2 by blast
qed

section \<open>Each program and the files of the other\<close>

text \<open>
  winc-network does not interfere with winc. Whatever winc-network is asked to do, and
  whether it succeeds, fails or panics, the record winc keeps of any container is in the
  phase it was in before, so a command of winc behaves after it as the life cycle says. The
  record must not be the log file or the port file of winc-network.
\<close>

theorem winc_network_keeps_records:
  assumes "tracks m w ph" and "state_path m \<noteq> pa_Locker winc_ports" and "state_path m \<noteq> logFile"
    and "network_main logFile logFormat flags stdin0 w = (r, w')"
  shows "tracks m w' ph"
proof -
  have "undisturbed (state_path m) (view (state_path m) w) w"
    by (simp add: undisturbed_def)
  from preservesD [OF undisturbed_main [OF assms(3)] this assms(4)]
  have "files w' (state_path m) = files w (state_path m)" "w_env w' = w_env w"
    using assms(2) by (auto simp: undisturbed_def view_def)
  then show ?thesis
    using assms(1) by (cases ph) (simp_all add: tracks_def follows_def recorded_def)
qed

theorem winc_network_keeps_records_witness:
  "\<exists>r w'. network_main [] ''json'' \<lparr>nf_action = ''up'', nf_configFile = [], nf_handle = ''app''\<rparr> ''{}'' created_world = (r, w')
     \<and> tracks example_manager w' (Some (Created ''b''))"
proof -
  let ?main = "network_main [] ''json'' \<lparr>nf_action = ''up'', nf_configFile = [], nf_handle = ''app''\<rparr> ''{}''"
  obtain r w' where run: "?main created_world = (r, w')"
    by fastforce
  have "state_path example_manager \<noteq> pa_Locker winc_ports" "state_path example_manager \<noteq> []"
    by code_simp+
  then show ?thesis
    using winc_network_keeps_records [OF created_world_tracks _ _ run] run by blast
qed

text \<open>
  winc does not interfere with winc-network. Whatever winc is asked to do, and whether
  it succeeds, fails or panics, the leases recorded in the port file are the same as before,
  as long as the file lies outside the root directory and is not named as log or pid file,
  and the container and the sidecars the host reports have names without separators.
\<close>

theorem winc_keeps_leases:
  assumes "ledger (pa_Locker winc_ports) w L"
    and "tidy_root (wf_root flags)" and "\<not> under (wf_root flags) (pa_Locker winc_ports)"
    and "tidy_id (hd args)" and "\<And>i. sidecar (w_env w) (hd args) i \<Longrightarrow> tidy_id i"
    and "wf_log flags \<noteq> pa_Locker winc_ports" and "pid_file cmd \<noteq> pa_Locker winc_ports"
    and "winc_main program flags cmd args w = (r, w')"
  shows "ledger (pa_Locker winc_ports) w' L"
  using assms by (rule winc_ledger)

theorem winc_keeps_leases_witness:
  "\<exists>r w'. winc_main ''winc'' example_flags (Run example_bundle False []) [''app''] (run_world quiet_os) = (r, w')
     \<and> ledger (pa_Locker winc_ports) w' Map.empty"
proof -
  obtain r w' where run: "winc_main ''winc'' example_flags (Run example_bundle False []) [''app''] (run_world quiet_os) = (r, w')"
    by fastforce
  have "pa_Locker winc_ports \<noteq> Join [example_bundle, SpecConfig]"
    by code_simp
  then have "ledger (pa_Locker winc_ports) (run_world quiet_os) Map.empty"
    by (simp add: run_world_def ledger_def content_of_def pool_text_def)
  moreover have "\<not> under (wf_root example_flags) (pa_Locker winc_ports)" "pa_Locker winc_ports \<noteq> []"
    by (simp_all add: example_flags_def) code_simp+
  ultimately show ?thesis
    using winc_keeps_leases [OF _ example_tidy(1) _ _ _ _ _ run, of Map.empty] run example_tidy(2) run_world_sidecars
    by (simp add: example_flags_def pid_file_def) blast
qed

end
